(* ===== verification/Prelude.thy ===== *)
theory Prelude
  imports Complex_Main
begin

text \<open>
  Shared vocabulary of the entaxy model. The CSV text and the field values are HOL strings
  (\<open>char list\<close>); the three characters that structure a CSV file get names; the
  JavaScript library functions the components rely on (\<open>Array.prototype.join\<close>, the
  decimal printing of a number in a template literal, reading a run of decimal digits)
  are defined once here with the lemmas every component uses: \<open>read_nat\<close> inverts
  \<open>show_nat\<close>, and \<open>join\<close> distributes over a cons.
  The collection \<open>csv_chars\<close> holds the facts that tell the three structural
  characters apart; the component proofs add it to the simplifier.
\<close>

named_theorems csv_chars "distinctness of the structural CSV characters"

type_synonym field = string
type_synonym raw_row = "string list"

abbreviation comma :: char where "comma \<equiv> CHR 0x2C"
abbreviation dquote :: char where "dquote \<equiv> CHR 0x22"
abbreviation newline :: char where "newline \<equiv> CHR 0x0A"

subsection \<open>JavaScript \<open>Array.prototype.join\<close>\<close>

fun join :: "string \<Rightarrow> string list \<Rightarrow> string" where
  "join sep [] = []"
| "join sep [x] = x"
| "join sep (x # y # zs) = x @ sep @ join sep (y # zs)"

text \<open>\<open>String.prototype.split\<close> on one separator character: always at least one piece.\<close>

fun split_on :: "char \<Rightarrow> string \<Rightarrow> string list" where
  "split_on d [] = [[]]"
| "split_on d (c # cs) =
     (if c = d then [] # split_on d cs
      else (case split_on d cs of [] \<Rightarrow> [[c]] | f # fs \<Rightarrow> (c # f) # fs))"

subsection \<open>Decimal numerals\<close>

definition is_digit :: "char \<Rightarrow> bool" where
  "is_digit c \<longleftrightarrow> (48::nat) \<le> of_char c \<and> of_char c \<le> (57::nat)"

definition digit_val :: "char \<Rightarrow> nat" where
  "digit_val c = of_char c - 48"

definition digits_val :: "string \<Rightarrow> nat" where
  "digits_val s = foldl (\<lambda>n c. 10 * n + digit_val c) 0 s"

text \<open>A non-empty run of decimal digits, read as a natural number; anything else is \<open>None\<close>.\<close>

definition read_nat :: "string \<Rightarrow> nat option" where
  "read_nat s = (if s \<noteq> [] \<and> list_all is_digit s then Some (digits_val s) else None)"

text \<open>The decimal text of a natural number, as \<open>String(n)\<close> and \<open>`${n}`\<close> print it.\<close>

fun show_nat :: "nat \<Rightarrow> string" where
  "show_nat n =
     (if n < 10 then [char_of (48 + n)]
      else show_nat (n div 10) @ [char_of (48 + n mod 10)])"

declare show_nat.simps [simp del]

subsection \<open>Shared lemmas\<close>

lemma csv_chars_distinct [csv_chars]:
  "comma \<noteq> dquote" "dquote \<noteq> comma" "comma \<noteq> newline" "newline \<noteq> comma"
  "dquote \<noteq> newline" "newline \<noteq> dquote"
  by simp_all

lemma join_Cons [simp]: "xs \<noteq> [] \<Longrightarrow> join sep (x # xs) = x @ sep @ join sep xs"
  by (cases xs) simp_all

lemma join_snoc: "join sep (xs @ [x]) = concat (map (\<lambda>y. y @ sep) xs) @ x"
  by (induction xs) simp_all

lemma join_hd_Cons [simp]: "join sep ((c # x) # xs) = c # join sep (x # xs)"
  by (cases xs) simp_all

lemma split_on_not_Nil [simp]: "split_on d s \<noteq> []"
  by (induction s) (auto split: list.split)

lemma split_on_pieces: "\<forall>f\<in>set (split_on d s). d \<notin> set f"
  by (induction s) (auto split: list.split)

lemma split_on_chars: "f \<in> set (split_on d s) \<Longrightarrow> set f \<subseteq> set s"
proof (induction s arbitrary: f)
  case Nil
  then show ?case by simp
next
  case (Cons c cs)
  then show ?case
    by (cases "split_on d cs") (fastforce split: if_splits)+
qed

lemma split_on_eq_Nil_iff: "split_on d s = [[]] \<longleftrightarrow> s = []"
  by (induction s) (auto split: list.split)

lemma join_split_on: "join [d] (split_on d s) = s"
proof (induction s)
  case Nil
  then show ?case by simp
next
  case (Cons c cs)
  then show ?case
    by (cases "split_on d cs") auto
qed

lemma split_on_join:
  assumes "fs \<noteq> []" and "\<forall>f\<in>set fs. d \<notin> set f"
  shows "split_on d (join [d] fs) = fs"
  using assms
proof (induction fs)
  case Nil
  then show ?case by simp
next
  case (Cons f fs)
  have piece: "split_on d (f @ rest) = (case split_on d rest of g # gs \<Rightarrow> (f @ g) # gs)"
    if "d \<notin> set f" for rest
    using that by (induction f) (auto split: list.split)
  show ?case
  proof (cases fs)
    case Nil
    with Cons.prems piece [of "[]"] show ?thesis by simp
  next
    case (Cons g gs)
    with Cons.prems Cons.IH piece [of "d # join [d] fs"] show ?thesis by simp
  qed
qed

lemma digits_val_snoc [simp]: "digits_val (s @ [c]) = 10 * digits_val s + digit_val c"
  by (simp add: digits_val_def)

lemma digit_char_of:
  assumes "k < 10"
  shows "is_digit (char_of (48 + k)) \<and> digit_val (char_of (48 + k)) = k"
proof -
  have "of_char (char_of (48 + k) :: char) = (48 + k :: nat)"
    using assms by simp
  with assms show ?thesis by (simp add: is_digit_def digit_val_def)
qed

lemma show_nat_digits: "show_nat n \<noteq> [] \<and> list_all is_digit (show_nat n) \<and> digits_val (show_nat n) = n"
proof (induction n rule: show_nat.induct)
  case (1 n)
  show ?case
  proof (cases "n < 10")
    case True
    then show ?thesis
      using digit_char_of [of n] by (simp add: show_nat.simps [of n] digits_val_def)
  next
    case False
    then have IH: "show_nat (n div 10) \<noteq> [] \<and> list_all is_digit (show_nat (n div 10))
        \<and> digits_val (show_nat (n div 10)) = n div 10"
      using "1.IH" by simp
    have "n mod 10 < 10" by simp
    then have "is_digit (char_of (48 + n mod 10)) \<and> digit_val (char_of (48 + n mod 10)) = n mod 10"
      by (rule digit_char_of)
    with IH False show ?thesis
      by (simp add: show_nat.simps [of n])
  qed
qed

lemma read_show_nat [simp]: "read_nat (show_nat n) = Some n"
  using show_nat_digits [of n] by (simp add: read_nat_def)

lemma show_nat_inj [simp]: "show_nat m = show_nat n \<longleftrightarrow> m = n"
  by (metis option.inject read_show_nat)

end
