(* ===== verification/Csv_Tokenizer.thy ===== *)
theory Csv_Tokenizer
  imports Prelude
begin

text \<open>
  The Row Tokenizer of the CSV import (spec section 4.1): CSV text is split into rows of
  fields, comma-separated, newline-terminated, with double-quoted fields that may hold
  commas, newlines and doubled quotes. The tokenizer is a character-level state machine:
  \<open>lex_step\<close> consumes one character, \<open>lex_run\<close> folds it over the text and stops
  at the first error, \<open>lex_finish\<close> closes the last record. An unterminated quote is an
  error of the whole text (\<open>Inl\<close>); an empty final line yields no row.
  \<open>print_csv\<close> is the inverse direction (quoting the fields that need it), and the
  roundtrip theorem says that the tokenizer reads back every table the printer writes.
\<close>

datatype csv_error = UnterminatedQuote | MisplacedQuote

datatype lex_mode = FieldStart | Unquoted | Quoted | QuoteSeen

record lex_state =
  mode :: lex_mode
  fld :: string
  cur :: "string list"
  rows :: "string list list"

definition lex_init :: lex_state where
  "lex_init = \<lparr>mode = FieldStart, fld = [], cur = [], rows = []\<rparr>"

definition end_field :: "lex_state \<Rightarrow> lex_state" where
  "end_field st = st\<lparr>mode := FieldStart, fld := [], cur := cur st @ [fld st]\<rparr>"

definition end_row :: "lex_state \<Rightarrow> lex_state" where
  "end_row st =
     st\<lparr>mode := FieldStart, fld := [], cur := [], rows := rows st @ [cur st @ [fld st]]\<rparr>"

definition lex_step :: "lex_state \<Rightarrow> char \<Rightarrow> csv_error + lex_state" where
  "lex_step st c =
     (case mode st of
        FieldStart \<Rightarrow>
          if c = dquote then Inr (st\<lparr>mode := Quoted\<rparr>)
          else if c = comma then Inr (end_field st)
          else if c = newline then Inr (end_row st)
          else Inr (st\<lparr>mode := Unquoted, fld := fld st @ [c]\<rparr>)
      | Unquoted \<Rightarrow>
          if c = comma then Inr (end_field st)
          else if c = newline then Inr (end_row st)
          else Inr (st\<lparr>fld := fld st @ [c]\<rparr>)
      | Quoted \<Rightarrow>
          if c = dquote then Inr (st\<lparr>mode := QuoteSeen\<rparr>)
          else Inr (st\<lparr>fld := fld st @ [c]\<rparr>)
      | QuoteSeen \<Rightarrow>
          if c = dquote then Inr (st\<lparr>mode := Quoted, fld := fld st @ [c]\<rparr>)
          else if c = comma then Inr (end_field st)
          else if c = newline then Inr (end_row st)
          else Inl MisplacedQuote)"

fun lex_run :: "lex_state \<Rightarrow> string \<Rightarrow> csv_error + lex_state" where
  "lex_run st [] = Inr st"
| "lex_run st (c # cs) = (case lex_step st c of Inl e \<Rightarrow> Inl e | Inr st' \<Rightarrow> lex_run st' cs)"

definition lex_finish :: "lex_state \<Rightarrow> csv_error + string list list" where
  "lex_finish st =
     (case mode st of
        Quoted \<Rightarrow> Inl UnterminatedQuote
      | FieldStart \<Rightarrow> if cur st = [] then Inr (rows st) else Inr (rows (end_row st))
      | Unquoted \<Rightarrow> Inr (rows (end_row st))
      | QuoteSeen \<Rightarrow> Inr (rows (end_row st)))"

definition tokenize :: "string \<Rightarrow> csv_error + string list list" where
  "tokenize s = (case lex_run lex_init s of Inl e \<Rightarrow> Inl e | Inr st \<Rightarrow> lex_finish st)"

subsection \<open>The printer\<close>

definition needs_quotes :: "string \<Rightarrow> bool" where
  "needs_quotes f \<longleftrightarrow> list_ex (\<lambda>c. c = comma \<or> c = dquote \<or> c = newline) f"

definition escape_quotes :: "string \<Rightarrow> string" where
  "escape_quotes f = concat (map (\<lambda>c. if c = dquote then [dquote, dquote] else [c]) f)"

definition print_field :: "string \<Rightarrow> string" where
  "print_field f = (if needs_quotes f then dquote # escape_quotes f @ [dquote] else f)"

definition print_row :: "string list \<Rightarrow> string" where
  "print_row r = join [comma] (map print_field r)"

definition print_csv :: "string list list \<Rightarrow> string" where
  "print_csv rs = concat (map (\<lambda>r. print_row r @ [newline]) rs)"

subsection \<open>Well-formed lexer states\<close>

text \<open>
  A field that has not started holds no text, and every completed row has a field. The
  invariant holds initially and every step keeps it.
\<close>

definition lex_wf :: "lex_state \<Rightarrow> bool" where
  "lex_wf st \<longleftrightarrow> (mode st = FieldStart \<longrightarrow> fld st = []) \<and> (\<forall>r\<in>set (rows st). r \<noteq> [])"

subsection \<open>Running the lexer\<close>

lemma lex_run_append:
  "lex_run st (xs @ ys) = (case lex_run st xs of Inl e \<Rightarrow> Inl e | Inr st' \<Rightarrow> lex_run st' ys)"
  by (induction xs arbitrary: st) (auto split: sum.splits)

lemma lex_wf_init: "lex_wf lex_init"
  by (simp add: lex_wf_def lex_init_def)

lemma lex_step_wf: "lex_wf st \<Longrightarrow> lex_step st c = Inr st' \<Longrightarrow> lex_wf st'"
  by (cases "mode st")
    (auto simp: lex_wf_def lex_step_def end_field_def end_row_def split: if_splits)

lemma lex_run_wf: "lex_wf st \<Longrightarrow> lex_run st s = Inr st' \<Longrightarrow> lex_wf st'"
  by (induction s arbitrary: st) (auto dest: lex_step_wf split: sum.splits)

lemma lex_finish_rows_nonempty:
  "lex_wf st \<Longrightarrow> lex_finish st = Inr rs \<Longrightarrow> \<forall>r\<in>set rs. r \<noteq> []"
  by (cases "mode st") (auto simp: lex_wf_def lex_finish_def end_row_def split: if_splits)

lemma lex_finish_before_newline:
  assumes "lex_wf st" and "lex_step st newline = Inr st'" and "mode st' = FieldStart"
    and "last (rows st') \<noteq> [[]]"
  shows "lex_finish st = Inr (rows st')"
  using assms
  by (cases "mode st") (auto simp: lex_step_def lex_finish_def lex_wf_def end_row_def)

lemma lex_step_sep:
  assumes "mode st \<noteq> Quoted"
  shows "lex_step st comma = Inr (end_field st)" and "lex_step st newline = Inr (end_row st)"
  using assms by (cases "mode st"; simp add: lex_step_def)+

text \<open>Field bodies: plain text in an unquoted field, escaped text in a quoted one.\<close>

lemma lex_run_unquoted:
  assumes "mode st = Unquoted" and "\<forall>c\<in>set f. c \<noteq> comma \<and> c \<noteq> newline"
  shows "lex_run st f = Inr (st\<lparr>fld := fld st @ f\<rparr>)"
  using assms by (induction f arbitrary: st) (simp_all add: lex_step_def)

lemma lex_run_escaped:
  assumes "mode st = Quoted"
  shows "lex_run st (escape_quotes f) = Inr (st\<lparr>fld := fld st @ f\<rparr>)"
  using assms by (induction f arbitrary: st) (simp_all add: lex_step_def escape_quotes_def)

lemma lex_run_field:
  assumes "mode st = FieldStart" and "fld st = []"
  shows "\<exists>m. m \<noteq> Quoted \<and> lex_run st (print_field f) = Inr (st\<lparr>mode := m, fld := f\<rparr>)"
proof (cases "needs_quotes f")
  case True
  have "lex_run (st\<lparr>mode := Quoted\<rparr>) (escape_quotes f @ [dquote]) =
      Inr (st\<lparr>mode := QuoteSeen, fld := f\<rparr>)"
    using assms by (simp add: lex_run_append lex_run_escaped lex_step_def)
  with True assms show ?thesis
    by (intro exI [of _ QuoteSeen]) (simp add: print_field_def lex_step_def)
next
  case False
  then have safe: "\<forall>c\<in>set f. c \<noteq> comma \<and> c \<noteq> newline \<and> c \<noteq> dquote"
    by (auto simp: needs_quotes_def list_ex_iff)
  show ?thesis
  proof (cases f)
    case Nil
    with False assms show ?thesis
      by (intro exI [of _ FieldStart]) (simp add: print_field_def)
  next
    case (Cons c cs)
    with safe assms have "lex_step st c = Inr (st\<lparr>mode := Unquoted, fld := [c]\<rparr>)"
      by (simp add: lex_step_def)
    with Cons safe False show ?thesis
      by (intro exI [of _ Unquoted]) (simp add: print_field_def lex_run_unquoted)
  qed
qed

lemma lex_run_row:
  assumes "mode st = FieldStart" and "fld st = []" and "r \<noteq> []"
  shows "lex_run st (print_row r @ [newline]) = Inr (st\<lparr>cur := [], rows := rows st @ [cur st @ r]\<rparr>)"
  using assms
proof (induction r arbitrary: st)
  case Nil
  then show ?case by simp
next
  case (Cons f fs)
  obtain m where m: "m \<noteq> Quoted" and run: "lex_run st (print_field f) = Inr (st\<lparr>mode := m, fld := f\<rparr>)"
    using lex_run_field [OF Cons.prems(1,2)] by blast
  show ?case
  proof (cases fs)
    case Nil
    with run m Cons.prems show ?thesis
      by (simp add: print_row_def lex_run_append lex_step_sep end_row_def)
  next
    case (Cons g gs)
    let ?st' = "end_field (st\<lparr>mode := m, fld := f\<rparr>)"
    have "lex_run ?st' (print_row fs @ [newline]) =
        Inr (?st'\<lparr>cur := [], rows := rows ?st' @ [cur ?st' @ fs]\<rparr>)"
      using Cons by (intro Cons.IH) (simp_all add: end_field_def)
    with run m Cons Cons.prems show ?thesis
      by (simp add: print_row_def lex_run_append lex_step_sep end_field_def)
  qed
qed

lemma lex_run_csv:
  assumes "mode st = FieldStart" and "fld st = []" and "cur st = []" and "\<forall>r\<in>set rs. r \<noteq> []"
  shows "lex_run st (print_csv rs) = Inr (st\<lparr>rows := rows st @ rs\<rparr>)"
  using assms
proof (induction rs arbitrary: st)
  case Nil
  then show ?case by (simp add: print_csv_def)
next
  case (Cons r rs)
  let ?st' = "st\<lparr>cur := [], rows := rows st @ [r]\<rparr>"
  have row: "lex_run st (print_row r @ [newline]) = Inr ?st'"
    using Cons.prems lex_run_row [of st r] by simp
  have "lex_run ?st' (print_csv rs) = Inr (?st'\<lparr>rows := rows ?st' @ rs\<rparr>)"
    using Cons.prems by (intro Cons.IH) simp_all
  moreover have "print_csv (r # rs) = (print_row r @ [newline]) @ print_csv rs"
    by (simp add: print_csv_def)
  ultimately show ?case
    using Cons.prems(3)
    by (simp only: lex_run_append [of st "print_row r @ [newline]" "print_csv rs"] row sum.case) simp
qed

theorem tokenize_print_csv:
  assumes "\<forall>r\<in>set rs. r \<noteq> []"
  shows "tokenize (print_csv rs) = Inr rs"
proof -
  have "lex_run lex_init (print_csv rs) = Inr (lex_init\<lparr>rows := rs\<rparr>)"
    using lex_run_csv [of lex_init rs] assms by (simp add: lex_init_def)
  then show ?thesis by (simp add: tokenize_def lex_finish_def lex_init_def)
qed

text \<open>
  Text whose last line has no terminating newline, as the test's \<open>csvData.join\<close> builds it,
  reads back the same way, as long as that last line is not empty (an empty last line is
  the trailing blank line, which yields no row).
\<close>

lemma tokenize_join_rows:
  assumes "\<forall>r\<in>set rs. r \<noteq> []" and "rs = [] \<or> last rs \<noteq> [[]]"
  shows "tokenize (join [newline] (map print_row rs)) = Inr rs"
proof (cases rs rule: rev_cases)
  case Nil
  then show ?thesis by (simp add: tokenize_def lex_init_def lex_finish_def)
next
  case (snoc xs r)
  let ?st1 = "lex_init\<lparr>rows := xs\<rparr>"
  have joined: "join [newline] (map print_row rs) = print_csv xs @ print_row r"
    using snoc by (simp add: join_snoc print_csv_def comp_def)
  have run1: "lex_run lex_init (print_csv xs) = Inr ?st1"
    using lex_run_csv [of lex_init xs] assms(1) snoc by (simp add: lex_init_def)
  have wf1: "lex_wf ?st1"
    using assms(1) snoc by (simp add: lex_wf_def lex_init_def)
  have "lex_run ?st1 (print_row r @ [newline]) = Inr (?st1\<lparr>cur := [], rows := xs @ [r]\<rparr>)"
    using lex_run_row [of ?st1 r] assms(1) snoc by (simp add: lex_init_def)
  then obtain st2 where run2: "lex_run ?st1 (print_row r) = Inr st2"
    and nl: "lex_step st2 newline = Inr (?st1\<lparr>cur := [], rows := xs @ [r]\<rparr>)"
    by (auto simp: lex_run_append split: sum.splits)
  have "lex_wf st2" using wf1 run2 by (rule lex_run_wf)
  then have "lex_finish st2 = Inr (xs @ [r])"
    using lex_finish_before_newline [OF _ nl] assms(2) snoc by (simp add: lex_init_def)
  with joined run1 run2 snoc show ?thesis
    by (simp add: tokenize_def lex_run_append)
qed

text \<open>
  On lines without quotes and newlines the tokenizer is the naive reading: split the text
  at newlines, then every line at commas.
\<close>

lemma print_row_split_plain:
  assumes "dquote \<notin> set l" and "newline \<notin> set l"
  shows "print_row (split_on comma l) = l"
proof -
  have "print_field f = f" if "f \<in> set (split_on comma l)" for f
  proof -
    have "comma \<notin> set f" using that split_on_pieces by blast
    moreover have "set f \<subseteq> set l" using that by (rule split_on_chars)
    ultimately have "\<not> needs_quotes f"
      using assms by (auto simp: needs_quotes_def list_ex_iff)
    then show ?thesis by (simp add: print_field_def)
  qed
  then have "map print_field (split_on comma l) = split_on comma l"
    by (simp add: map_idI)
  then show ?thesis by (simp add: print_row_def join_split_on)
qed

lemma tokenize_join_plain:
  assumes "\<forall>l\<in>set ls. dquote \<notin> set l \<and> newline \<notin> set l" and "ls = [] \<or> last ls \<noteq> []"
  shows "tokenize (join [newline] ls) = Inr (map (split_on comma) ls)"
proof -
  have "map print_row (map (split_on comma) ls) = ls"
    using assms(1) by (induction ls) (simp_all add: print_row_split_plain)
  moreover have "map (split_on comma) ls = [] \<or> last (map (split_on comma) ls) \<noteq> [[]]"
    using assms(2) by (auto simp: last_map split_on_eq_Nil_iff)
  ultimately show ?thesis
    using tokenize_join_rows [of "map (split_on comma) ls"] by simp
qed

text \<open>An opening quote that is never closed fails the whole text, whatever precedes it.\<close>

lemma lex_run_quoted_plain:
  assumes "mode st = Quoted" and "dquote \<notin> set f"
  shows "lex_run st f = Inr (st\<lparr>fld := fld st @ f\<rparr>)"
  using assms by (induction f arbitrary: st) (auto simp: lex_step_def)

lemma tokenize_unterminated:
  assumes "\<forall>l\<in>set ls. dquote \<notin> set l \<and> newline \<notin> set l" and "dquote \<notin> set body"
  shows "tokenize (join [newline] (ls @ [dquote # body])) = Inl UnterminatedQuote"
proof -
  let ?rs = "map (split_on comma) ls"
  have "print_csv ?rs = concat (map (\<lambda>l. l @ [newline]) ls)"
    using assms(1) by (induction ls) (simp_all add: print_csv_def print_row_split_plain)
  then have "join [newline] (ls @ [dquote # body]) = print_csv ?rs @ dquote # body"
    by (simp add: join_snoc)
  moreover have "lex_run lex_init (print_csv ?rs) = Inr (lex_init\<lparr>rows := ?rs\<rparr>)"
    using lex_run_csv [of lex_init ?rs] by (simp add: lex_init_def)
  moreover have "lex_run (lex_init\<lparr>rows := ?rs\<rparr>) (dquote # body) =
      Inr (lex_init\<lparr>rows := ?rs, mode := Quoted, fld := body\<rparr>)"
    using assms(2) by (simp add: lex_step_def lex_init_def lex_run_quoted_plain)
  ultimately show ?thesis
    by (simp add: tokenize_def lex_run_append lex_finish_def lex_init_def)
qed

subsection \<open>A final newline\<close>

text \<open>
  After any character but a newline the lexer is not at the start of a row: it is inside a
  field, or a field has been closed by a comma. So a newline that ends the text closes the
  row the end of the text would close anyway, and adds no row.
\<close>

lemma lex_step_not_row_start:
  "lex_step st c = Inr st' \<Longrightarrow> c \<noteq> newline \<Longrightarrow> \<not> (mode st' = FieldStart \<and> cur st' = [])"
  by (cases "mode st") (auto simp: lex_step_def end_field_def split: if_splits)

lemma lex_run_not_row_start:
  assumes "lex_run st s = Inr st'" and "s \<noteq> []" and "last s \<noteq> newline"
  shows "\<not> (mode st' = FieldStart \<and> cur st' = [])"
proof -
  obtain xs c where s: "s = xs @ [c]" using assms(2) by (metis rev_exhaust)
  with assms(1) obtain st0 where "lex_run st xs = Inr st0" and "lex_step st0 c = Inr st'"
    by (auto simp: lex_run_append split: sum.splits)
  with s assms(3) show ?thesis using lex_step_not_row_start by simp
qed

lemma tokenize_final_newline:
  assumes "s \<noteq> []" and "last s \<noteq> newline"
  shows "tokenize (s @ [newline]) = tokenize s"
proof (cases "lex_run lex_init s")
  case (Inl e)
  then show ?thesis by (simp add: tokenize_def lex_run_append)
next
  case (Inr st)
  from lex_run_not_row_start [OF Inr assms] have nr: "\<not> (mode st = FieldStart \<and> cur st = [])" .
  show ?thesis
  proof (cases "mode st = Quoted")
    case True
    then show ?thesis using Inr by (simp add: tokenize_def lex_run_append lex_step_def lex_finish_def)
  next
    case False
    then have "lex_step st newline = Inr (end_row st)" by (rule lex_step_sep)
    with Inr nr False show ?thesis
      by (cases "mode st") (simp_all add: tokenize_def lex_run_append lex_finish_def end_row_def)
  qed
qed

end
