(* ===== verification/Parser_Contract.thy ===== *)
theory Parser_Contract
  imports Prelude
begin

text \<open>
  The data every institution parser shares (spec sections 3 and 9): the account a file is
  imported into (only its id and currency matter to a parser), the transaction draft a
  row maps to, the transaction with its generated id, the error set with its base
  (whole-file) errors and its per-row errors keyed by the row's index, and the parse
  result. A format is the pair the spec's contract names: its expected header and its
  row mapper. \<open>stamps_account\<close> is the part of the mapper contract the row
  processor relies on: every draft a mapper produces belongs to the account it was given.
\<close>

record acct =
  acct_id :: nat
  acct_currency :: string

record draft =
  account_id :: nat
  created_at :: int
  description :: string
  amount :: rat

record transaction = draft +
  txn_id :: nat

definition with_id :: "nat \<Rightarrow> draft \<Rightarrow> transaction" where
  "with_id n d =
     \<lparr>account_id = account_id d, created_at = created_at d, description = description d,
      amount = amount d, txn_id = n\<rparr>"

record csv_format =
  expected_header :: "string list"
  map_row :: "acct \<Rightarrow> string list \<Rightarrow> string list + draft"

record error_set =
  base :: "string list"
  row_errors :: "(nat \<times> string list) list"

record parse_result =
  transactions :: "transaction list"
  errors :: error_set

definition stamps_account :: "csv_format \<Rightarrow> bool" where
  "stamps_account p \<longleftrightarrow> (\<forall>a r d. map_row p a r = Inr d \<longrightarrow> account_id d = acct_id a)"

lemma with_id_fields [simp]:
  "txn_id (with_id n d) = n" "draft.truncate (with_id n d) = d"
  "account_id (with_id n d) = account_id d"
  by (simp_all add: with_id_def draft.truncate_def)

end
