(* ===== verification/Row_Processor.thy ===== *)
theory Row_Processor
  imports Parser_Contract
begin

text \<open>
  The Row Processor (spec section 4.4): the data rows after the header are mapped in
  source order; a row that maps to a draft becomes a transaction with the next id of the
  injected generator (a counter starting at \<open>n\<close>), a row that fails records its
  messages under its 0-based index, and neither outcome stops the rows after it.
  The lemmas give the processor's whole behaviour in closed form: the transactions are the
  successful drafts in order, numbered consecutively; the row errors are the failures
  with their indices; every row lands in exactly one of the two.
\<close>

fun process_rows ::
  "csv_format \<Rightarrow> acct \<Rightarrow> nat \<Rightarrow> nat \<Rightarrow> string list list
   \<Rightarrow> transaction list \<times> (nat \<times> string list) list" where
  "process_rows p a n i [] = ([], [])"
| "process_rows p a n i (r # rs) =
     (case map_row p a r of
        Inl es \<Rightarrow> (let (ts, errs) = process_rows p a n (Suc i) rs in (ts, (i, es) # errs))
      | Inr d \<Rightarrow> (let (ts, errs) = process_rows p a (Suc n) (Suc i) rs in (with_id n d # ts, errs)))"

subsection \<open>Reference description\<close>

definition successes :: "csv_format \<Rightarrow> acct \<Rightarrow> string list list \<Rightarrow> draft list" where
  "successes p a rs = [d. Inr d \<leftarrow> map (map_row p a) rs]"

definition failures :: "csv_format \<Rightarrow> acct \<Rightarrow> nat \<Rightarrow> string list list \<Rightarrow> (nat \<times> string list) list" where
  "failures p a i rs = [(j, es). (j, Inl es) \<leftarrow> zip [i..<i + length rs] (map (map_row p a) rs)]"

lemma successes_Cons [simp]:
  "successes p a (r # rs) = (case map_row p a r of Inl _ \<Rightarrow> successes p a rs | Inr d \<Rightarrow> d # successes p a rs)"
  by (simp add: successes_def split: sum.split)

lemma failures_Cons [simp]:
  "failures p a i (r # rs) =
     (case map_row p a r of Inl es \<Rightarrow> (i, es) # failures p a (Suc i) rs | Inr _ \<Rightarrow> failures p a (Suc i) rs)"
proof -
  have "[i..<i + length (r # rs)] = i # [Suc i..<Suc i + length rs]"
    using upt_conv_Cons [of i "i + length (r # rs)"] by (simp del: upt_Suc)
  then show ?thesis
    by (simp add: failures_def del: upt_Suc split: sum.split)
qed

lemma successes_Nil [simp]: "successes p a [] = []" and failures_Nil [simp]: "failures p a i [] = []"
  by (simp_all add: successes_def failures_def)

subsection \<open>The processor against the reference\<close>

lemma process_rows_drafts: "map draft.truncate (fst (process_rows p a n i rs)) = successes p a rs"
  by (induction rs arbitrary: n i) (auto split: sum.split simp: case_prod_beta)

lemma process_rows_ids:
  "map txn_id (fst (process_rows p a n i rs)) = [n..<n + length (successes p a rs)]"
proof (induction rs arbitrary: n i)
  case Nil
  then show ?case by simp
next
  case (Cons r rs)
  show ?case
  proof (cases "map_row p a r")
    case (Inl es)
    with Cons.IH show ?thesis by (simp add: case_prod_beta)
  next
    case (Inr d)
    let ?L = "length (successes p a rs)"
    have "[n..<n + Suc ?L] = n # [Suc n..<Suc n + ?L]"
      using upt_conv_Cons [of n "n + Suc ?L"] by (simp del: upt_Suc)
    with Cons.IH Inr show ?thesis by (simp add: case_prod_beta del: upt_Suc)
  qed
qed

lemma process_rows_errors: "snd (process_rows p a n i rs) = failures p a i rs"
  by (induction rs arbitrary: n i) (auto split: sum.split simp: case_prod_beta)

lemma length_successes_failures:
  "length (successes p a rs) + length (failures p a i rs) = length rs"
  by (induction rs arbitrary: i) (auto split: sum.split)

lemma map_of_failures:
  "map_of (failures p a i rs) j =
     (if i \<le> j \<and> j < i + length rs
      then (case map_row p a (rs ! (j - i)) of Inl es \<Rightarrow> Some es | Inr _ \<Rightarrow> None)
      else None)"
proof (induction rs arbitrary: i)
  case Nil
  then show ?case by auto
next
  case (Cons r rs)
  show ?case
  proof (cases "j = i")
    case True
    have "map_of (failures p a (Suc i) rs) i = None"
      using Cons.IH [of "Suc i"] True by simp
    with True show ?thesis by (simp split: sum.split)
  next
    case False
    have lhs: "map_of (failures p a i (r # rs)) j = map_of (failures p a (Suc i) rs) j"
      using False by (cases "map_row p a r") simp_all
    have rhs: "(i \<le> j \<and> j < i + length (r # rs)) = (Suc i \<le> j \<and> j < Suc i + length rs)"
      using False by auto
    have "i < j \<Longrightarrow> (r # rs) ! (j - i) = rs ! (j - Suc i)"
      by (simp add: nth_Cons')
    with lhs rhs Cons.IH [of "Suc i"] show ?thesis
      by (simp only:) (cases "i < j"; simp)
  qed
qed

lemma failure_keys_range: "(k, es) \<in> set (failures p a i rs) \<Longrightarrow> i \<le> k \<and> k < i + length rs"
  by (induction rs arbitrary: i) (fastforce split: sum.splits)+

lemma distinct_failure_keys: "distinct (map fst (failures p a i rs))"
proof (induction rs arbitrary: i)
  case Nil
  then show ?case by simp
next
  case (Cons r rs)
  have "i \<notin> set (map fst (failures p a (Suc i) rs))"
    using failure_keys_range [of _ _ p a "Suc i" rs] by force
  with Cons.IH [of "Suc i"] show ?case
    by (cases "map_row p a r") simp_all
qed

lemma length_process_rows: "length (fst (process_rows p a n i rs)) = length (successes p a rs)"
  by (metis length_map process_rows_drafts)

lemma process_rows_account:
  "stamps_account p \<Longrightarrow> \<forall>t\<in>set (fst (process_rows p a n i rs)). account_id t = acct_id a"
  by (induction rs arbitrary: n i) (auto simp: stamps_account_def case_prod_beta split: sum.split)

lemma process_rows_ids_distinct: "distinct (map txn_id (fst (process_rows p a n i rs)))"
  by (simp add: process_rows_ids)

lemma process_rows_from_row:
  "t \<in> set (fst (process_rows p a n i rs)) \<Longrightarrow> \<exists>r\<in>set rs. map_row p a r = Inr (draft.truncate t)"
proof -
  assume "t \<in> set (fst (process_rows p a n i rs))"
  then have "draft.truncate t \<in> set (successes p a rs)"
    using process_rows_drafts [of p a n i rs] by (metis image_eqI list.set_map)
  then show ?thesis by (auto simp: successes_def)
qed

subsection \<open>Files whose rows all map, or all but one\<close>

lemma successes_Inr: "map (map_row p a) rs = map Inr ds \<Longrightarrow> successes p a rs = ds"
  by (induction rs arbitrary: ds) auto

lemma all_Inr_ok: "map (map_row p a) rs = map Inr ds \<Longrightarrow> \<forall>r\<in>set rs. \<exists>d. map_row p a r = Inr d"
proof
  fix r assume "map (map_row p a) rs = map Inr ds" and "r \<in> set rs"
  then have "map_row p a r \<in> set (map Inr ds)" by (metis image_eqI list.set_map)
  then show "\<exists>d. map_row p a r = Inr d" by auto
qed

lemma all_rows_ok:
  assumes "\<forall>r\<in>set rs. \<exists>d. map_row p a r = Inr d"
  shows "length (successes p a rs) = length rs \<and> failures p a i rs = []"
  using assms by (induction rs arbitrary: i) auto

lemma one_row_bad:
  assumes "k < length rs" and "map_row p a (rs ! k) = Inl es"
    and "\<forall>j<length rs. j \<noteq> k \<longrightarrow> (\<exists>d. map_row p a (rs ! j) = Inr d)"
  shows "failures p a i rs = [(i + k, es)] \<and> Suc (length (successes p a rs)) = length rs"
  using assms
proof (induction rs arbitrary: i k)
  case Nil
  then show ?case by simp
next
  case (Cons r rs)
  show ?case
  proof (cases k)
    case 0
    have "\<forall>r'\<in>set rs. \<exists>d. map_row p a r' = Inr d"
    proof
      fix r' assume "r' \<in> set rs"
      then obtain j where j: "j < length rs" "rs ! j = r'"
        by (auto simp: in_set_conv_nth)
      then have "Suc j < length (r # rs)" and "Suc j \<noteq> k"
        using 0 by simp_all
      with Cons.prems(3) j(2) show "\<exists>d. map_row p a r' = Inr d"
        by fastforce
    qed
    with all_rows_ok [of rs p a "Suc i"] Cons.prems(2) 0 show ?thesis by simp
  next
    case (Suc k')
    obtain d where "map_row p a r = Inr d"
      using Cons.prems(3) Suc by auto
    moreover have "failures p a (Suc i) rs = [(Suc i + k', es)] \<and>
        Suc (length (successes p a rs)) = length rs"
      using Cons.prems Suc by (intro Cons.IH) auto
    ultimately show ?thesis using Suc by simp
  qed
qed

end
