(* ===== verification/Csv_Parser.thy ===== *)
theory Csv_Parser
  imports Csv_Tokenizer Row_Processor
begin

text \<open>
  The Header Validator and the Parser Facade (spec sections 4.2 and 4.5): the text is
  tokenized; a tokenizer failure, an empty file and a header that differs from the format's
  expected header are whole-file failures (base errors, no transactions, no row errors);
  otherwise the data rows go through the row processor and the base errors are empty.
  On a header mismatch the facade reports the header message once per row of the file
  (header included), which is the count \<open>RbcCsvParser.test.js\<close> asserts
  (\<open>errors.base.length === csvData.length\<close>); every copy is the same message.
  Reading the file blob into text (the one asynchronous step) is outside the model: the
  facade takes the text.
\<close>

definition validate_header :: "string list \<Rightarrow> string list \<Rightarrow> bool" where
  "validate_header actual expected \<longleftrightarrow> actual = expected"

definition header_message :: "string list \<Rightarrow> string list \<Rightarrow> string" where
  "header_message expected actual =
     ''Invalid header. Expected ['' @ join '','' expected @ ''] but found ['' @ join '','' actual @ '']''"

definition csv_error_message :: "csv_error \<Rightarrow> string" where
  "csv_error_message e =
     (case e of
        UnterminatedQuote \<Rightarrow> ''Invalid CSV: unterminated quoted field''
      | MisplacedQuote \<Rightarrow> ''Invalid CSV: unexpected character after a closing quote'')"

definition fail_result :: "string list \<Rightarrow> parse_result" where
  "fail_result msgs = \<lparr>transactions = [], errors = \<lparr>base = msgs, row_errors = []\<rparr>\<rparr>"

definition parse :: "csv_format \<Rightarrow> string \<Rightarrow> acct \<Rightarrow> nat \<Rightarrow> parse_result" where
  "parse p text a n =
     (case tokenize text of
        Inl e \<Rightarrow> fail_result [csv_error_message e]
      | Inr [] \<Rightarrow> fail_result [''The file is empty'']
      | Inr (h # rs) \<Rightarrow>
          if \<not> validate_header h (expected_header p)
          then fail_result (map (\<lambda>_. header_message (expected_header p) h) (h # rs))
          else (let (ts, es) = process_rows p a n 0 rs
                in \<lparr>transactions = ts, errors = \<lparr>base = [], row_errors = es\<rparr>\<rparr>))"

subsection \<open>The facade by cases\<close>

lemma parse_tokenize_error:
  "tokenize text = Inl e \<Longrightarrow> parse p text a n = fail_result [csv_error_message e]"
  by (simp add: parse_def)

lemma parse_empty: "tokenize text = Inr [] \<Longrightarrow> parse p text a n = fail_result [''The file is empty'']"
  by (simp add: parse_def)

lemma parse_bad_header:
  "tokenize text = Inr (h # rs) \<Longrightarrow> h \<noteq> expected_header p \<Longrightarrow>
   parse p text a n = fail_result (replicate (Suc (length rs)) (header_message (expected_header p) h))"
  by (simp add: parse_def validate_header_def map_replicate_const)

lemma parse_good_header:
  "tokenize text = Inr (expected_header p # rs) \<Longrightarrow>
   parse p text a n =
     \<lparr>transactions = fst (process_rows p a n 0 rs),
      errors = \<lparr>base = [], row_errors = snd (process_rows p a n 0 rs)\<rparr>\<rparr>"
  by (simp add: parse_def validate_header_def case_prod_beta)

lemmas parse_cases = parse_tokenize_error parse_empty parse_bad_header parse_good_header

text \<open>Whatever the text, a result with base errors has no transactions and no row errors.\<close>

lemma parse_base_exclusive:
  "base (errors (parse p text a n)) \<noteq> [] \<Longrightarrow>
   transactions (parse p text a n) = [] \<and> row_errors (errors (parse p text a n)) = []"
  by (auto simp: parse_def fail_result_def case_prod_beta split: sum.splits list.splits if_splits)

text \<open>The generated ids are the only part of a result the id generator influences.\<close>

lemma parse_ids_only:
  "map draft.truncate (transactions (parse p text a n1)) = map draft.truncate (transactions (parse p text a n2))
   \<and> errors (parse p text a n1) = errors (parse p text a n2)"
  by (simp add: parse_def fail_result_def case_prod_beta process_rows_drafts process_rows_errors
      split: sum.split list.split)

lemma parse_transactions_processed:
  "transactions (parse p text a n) = [] \<or> (\<exists>rs. transactions (parse p text a n) = fst (process_rows p a n 0 rs))"
  by (auto simp: parse_def fail_result_def case_prod_beta split: sum.split list.split)

lemma parse_transactions_ok:
  assumes "stamps_account p"
  shows "(\<forall>t\<in>set (transactions (parse p text a n)). account_id t = acct_id a)
    \<and> distinct (map txn_id (transactions (parse p text a n)))"
  using parse_transactions_processed [of p "text" a n] process_rows_account [OF assms]
    process_rows_ids_distinct by auto

lemma parse_from_row:
  "t \<in> set (transactions (parse p text a n)) \<Longrightarrow> \<exists>r. map_row p a r = Inr (draft.truncate t)"
  using parse_transactions_processed [of p "text" a n] process_rows_from_row by fastforce

subsection \<open>Files of plain lines\<close>

text \<open>
  A file whose lines hold no quotes is read line by line and field by field
  (\<open>tokenize_join_plain\<close>), so the facade's outcome is decided by the first line's
  fields and the mapped data lines.
\<close>

definition plain_lines :: "string list \<Rightarrow> bool" where
  "plain_lines ls \<longleftrightarrow> (\<forall>l\<in>set ls. dquote \<notin> set l \<and> newline \<notin> set l) \<and> (ls = [] \<or> last ls \<noteq> [])"

lemma parse_plain_good:
  assumes "plain_lines (hl # ls)" and "split_on comma hl = expected_header p"
  shows "parse p (join [newline] (hl # ls)) a n =
     \<lparr>transactions = fst (process_rows p a n 0 (map (split_on comma) ls)),
      errors = \<lparr>base = [], row_errors = snd (process_rows p a n 0 (map (split_on comma) ls))\<rparr>\<rparr>"
  using assms tokenize_join_plain [of "hl # ls"]
  by (intro parse_good_header) (simp add: plain_lines_def)

lemma parse_plain_bad_header:
  assumes "plain_lines (hl # ls)" and "split_on comma hl \<noteq> expected_header p"
  shows "parse p (join [newline] (hl # ls)) a n =
     fail_result (replicate (Suc (length ls)) (header_message (expected_header p) (split_on comma hl)))"
proof -
  have "tokenize (join [newline] (hl # ls)) = Inr (split_on comma hl # map (split_on comma) ls)"
    using assms(1) tokenize_join_plain [of "hl # ls"] by (simp add: plain_lines_def)
  from parse_bad_header [OF this assms(2)] show ?thesis by simp
qed

end
