(* ===== verification/Calendar.thy ===== *)
theory Calendar
  imports Prelude
begin

text \<open>
  Calendar arithmetic shared by the RBC date column and the account form's opening-balance
  date. Days are counted from 1970-01-01 in the proleptic Gregorian calendar, as
  JavaScript's \<open>Date.UTC\<close> counts them; a timestamp is a day count times
  \<open>ms_per_day\<close>, which is the UTC reading of the dates (the time zone of the browser is
  taken to be UTC throughout the development).
  \<open>epoch_day\<close> reads a calendar date with natural year, month and day; \<open>civil_days\<close> is
  the same count for any integer year, with months and days rolled over into the next or
  previous year as \<open>setUTCFullYear(y, m - 1, d)\<close> does; \<open>ymd_of_days\<close> is the inverse,
  walking whole years from 1970 forwards or backwards and then months. The lemmas show the
  year step \<open>year_start (y + 1) = year_start y + year_len y\<close> from the leap rule and that
  \<open>ymd_of_days\<close> inverts \<open>civil_days\<close> on every valid date of every year.
\<close>

definition leap_year :: "nat \<Rightarrow> bool" where
  "leap_year y \<longleftrightarrow> (4 dvd y \<and> \<not> 100 dvd y) \<or> 400 dvd y"

definition month_lengths :: "nat \<Rightarrow> nat list" where
  "month_lengths y = [31, if leap_year y then 29 else 28, 31, 30, 31, 30, 31, 31, 30, 31, 30, 31]"

definition valid_date :: "nat \<Rightarrow> nat \<Rightarrow> nat \<Rightarrow> bool" where
  "valid_date y m d \<longleftrightarrow> 1 \<le> m \<and> m \<le> 12 \<and> 1 \<le> d \<and> d \<le> month_lengths y ! (m - 1)"

text \<open>Leap years among the years \<open>1 .. n\<close> (negative for \<open>n < 0\<close>, by floor division).\<close>

definition leaps :: "int \<Rightarrow> int" where
  "leaps n = n div 4 - n div 100 + n div 400"

definition epoch_day :: "nat \<Rightarrow> nat \<Rightarrow> nat \<Rightarrow> int" where
  "epoch_day y m d =
     365 * (int y - 1970) + (leaps (int y - 1) - leaps 1969)
     + int (sum_list (take (m - 1) (month_lengths y))) + (int d - 1)"

definition ms_per_day :: int where
  "ms_per_day = 86400000"

subsection \<open>Years of any sign\<close>

definition leap_int :: "int \<Rightarrow> bool" where
  "leap_int y \<longleftrightarrow> (4 dvd y \<and> \<not> 100 dvd y) \<or> 400 dvd y"

definition month_lengths_int :: "int \<Rightarrow> nat list" where
  "month_lengths_int y = [31, if leap_int y then 29 else 28, 31, 30, 31, 30, 31, 31, 30, 31, 30, 31]"

definition year_len :: "int \<Rightarrow> nat" where
  "year_len y = (if leap_int y then 366 else 365)"

definition year_start :: "int \<Rightarrow> int" where
  "year_start y = 365 * (y - 1970) + (leaps (y - 1) - leaps 1969)"

definition civil_days :: "int \<Rightarrow> int \<Rightarrow> int \<Rightarrow> int" where
  "civil_days y m d =
     (let y' = y + (m - 1) div 12; mi = nat ((m - 1) mod 12)
      in year_start y' + int (sum_list (take mi (month_lengths_int y'))) + (d - 1))"

function year_fwd :: "int \<Rightarrow> nat \<Rightarrow> int \<times> nat" where
  "year_fwd y k = (if k < year_len y then (y, k) else year_fwd (y + 1) (k - year_len y))"
  by pat_completeness auto
termination
  by (relation "measure snd") (auto simp: year_len_def)

function year_back :: "int \<Rightarrow> nat \<Rightarrow> int \<times> nat" where
  "year_back y k =
     (if k \<le> year_len (y - 1) then (y - 1, year_len (y - 1) - k)
      else year_back (y - 1) (k - year_len (y - 1)))"
  by pat_completeness auto
termination
  by (relation "measure snd") (auto simp: year_len_def)

declare year_fwd.simps [simp del] year_back.simps [simp del]

fun month_of :: "nat list \<Rightarrow> nat \<Rightarrow> nat \<Rightarrow> nat \<times> nat" where
  "month_of [] m k = (m, k)"
| "month_of (l # ls) m k = (if k < l then (m, k) else month_of ls (Suc m) (k - l))"

definition ymd_of_days :: "int \<Rightarrow> int \<times> nat \<times> nat" where
  "ymd_of_days t =
     (let (y, k) = (if 0 \<le> t then year_fwd 1970 (nat t) else year_back 1970 (nat (- t)));
          (m, d) = month_of (month_lengths_int y) 1 k
      in (y, m, Suc d))"

subsection \<open>The year step\<close>

lemma div_step:
  fixes n k :: int
  assumes "0 < k"
  shows "n div k - (n - 1) div k = (if k dvd n then 1 else 0)"
proof -
  define q r where "q = n div k" and "r = n mod k"
  have n: "n = r + k * q" and r: "0 \<le> r" "r < k"
    using assms by (simp_all add: q_def r_def)
  show ?thesis
  proof (cases "r = 0")
    case True
    then have e: "n - 1 = (k - 1) + k * (q - 1)" using n by (simp add: algebra_simps)
    have "((k - 1) + k * (q - 1)) div k = (q - 1) + (k - 1) div k"
      using assms by (metis div_mult_self2 less_irrefl)
    moreover have "(k - 1) div k = 0"
      using assms by simp
    ultimately have "(n - 1) div k = q - 1"
      by (simp only: e)
    moreover have "k dvd n" using True by (simp add: r_def dvd_eq_mod_eq_0)
    ultimately show ?thesis by (simp add: q_def)
  next
    case False
    then have e: "n - 1 = (r - 1) + k * q" using n by (simp add: algebra_simps)
    have "((r - 1) + k * q) div k = q + (r - 1) div k"
      using assms by (metis div_mult_self2 less_irrefl)
    moreover have "(r - 1) div k = 0"
      using r False by simp
    ultimately have "(n - 1) div k = q"
      by (simp only: e)
    moreover have "\<not> k dvd n" using False by (simp add: r_def dvd_eq_mod_eq_0)
    ultimately show ?thesis by (simp add: q_def)
  qed
qed

lemma leaps_step: "leaps y - leaps (y - 1) = (if leap_int y then 1 else 0)"
proof -
  have "leaps y - leaps (y - 1) =
      (y div 4 - (y - 1) div 4) - (y div 100 - (y - 1) div 100) + (y div 400 - (y - 1) div 400)"
    by (simp add: leaps_def)
  also have "\<dots> = (if 4 dvd y then 1 else 0) - (if 100 dvd y then 1 else 0) + (if 400 dvd y then 1 else 0)"
    by (simp only: div_step [of 4] div_step [of 100] div_step [of 400] zero_less_numeral)
  also have "\<dots> = (if leap_int y then 1 else 0)"
  proof -
    have "400 dvd y \<Longrightarrow> 100 dvd y" and "100 dvd y \<Longrightarrow> 4 dvd y"
      by (auto elim: dvd_trans [rotated])
    then show ?thesis by (auto simp: leap_int_def)
  qed
  finally show ?thesis .
qed

lemma year_start_step: "year_start (y + 1) = year_start y + int (year_len y)"
  using leaps_step [of y] by (simp add: year_start_def year_len_def algebra_simps)

lemma year_start_1970 [simp]: "year_start 1970 = 0"
  by (simp add: year_start_def)

lemma year_len_pos [simp]: "0 < year_len y"
  by (simp add: year_len_def)

lemma year_start_mono:
  assumes "y0 \<le> y"
  shows "year_start y0 \<le> year_start y"
  using assms
proof (induction y rule: int_ge_induct)
  case base
  then show ?case by simp
next
  case (step i)
  then show ?case by (simp add: year_start_step)
qed

subsection \<open>Walking years and months\<close>

lemma year_fwd_start:
  assumes "y0 \<le> y" and "k < year_len y"
  shows "year_fwd y0 (nat (year_start y - year_start y0) + k) = (y, k)"
  using assms(1)
proof (induction y0 rule: int_le_induct)
  case base
  then show ?case using assms(2) by (simp add: year_fwd.simps)
next
  case (step i)
  have "year_start i \<le> year_start y" using step.hyps by (rule year_start_mono)
  moreover have "year_start i = year_start (i - 1) + int (year_len (i - 1))"
    using year_start_step [of "i - 1"] by simp
  ultimately have "nat (year_start y - year_start (i - 1)) + k =
      year_len (i - 1) + (nat (year_start y - year_start i) + k)"
    by simp
  with step.IH show ?case by (simp add: year_fwd.simps [of "i - 1"])
qed

lemma year_back_start:
  assumes "y < y0" and "k < year_len y"
  shows "year_back y0 (nat (year_start y0 - year_start y) - k) = (y, k)"
proof -
  have "y + 1 \<le> y0" using assms(1) by simp
  then show ?thesis
  proof (induction y0 rule: int_ge_induct)
    case base
    then show ?case using assms(2) by (simp add: year_back.simps [of "y + 1"] year_start_step)
  next
    case (step i)
    have "year_start (y + 1) \<le> year_start i" using step.hyps by (rule year_start_mono)
    then have "int (year_len y) \<le> year_start i - year_start y" by (simp add: year_start_step)
    then have big: "k < nat (year_start i - year_start y)" using assms(2) by linarith
    have eq: "nat (year_start (i + 1) - year_start y) - k =
        year_len i + (nat (year_start i - year_start y) - k)"
      using big by (simp add: year_start_step)
    have step_back: "year_back (i + 1) (year_len i + (nat (year_start i - year_start y) - k)) =
        year_back i (nat (year_start i - year_start y) - k)"
    proof -
      have "\<not> year_len i + (nat (year_start i - year_start y) - k) \<le> year_len i"
        using big by linarith
      then show ?thesis by (subst year_back.simps) (simp only: if_False add_diff_cancel_left' add_diff_cancel_right')
    qed
    show ?case by (simp only: eq step_back step.IH)
  qed
qed

lemma month_of_take:
  "j < length ls \<Longrightarrow> d < ls ! j \<Longrightarrow> month_of ls m (sum_list (take j ls) + d) = (m + j, d)"
proof (induction ls arbitrary: j m)
  case Nil
  then show ?case by simp
next
  case (Cons l ls)
  then show ?case by (cases j) simp_all
qed

lemma sum_month_lengths_int: "sum_list (month_lengths_int y) = year_len y"
  by (simp add: month_lengths_int_def year_len_def)

lemma day_in_year:
  assumes "1 \<le> m" and "m \<le> 12" and "d < month_lengths_int y ! (m - 1)"
  shows "sum_list (take (m - 1) (month_lengths_int y)) + d < year_len y"
proof -
  let ?ls = "month_lengths_int y"
  have "m - 1 < length ?ls" using assms(1,2) by (simp add: month_lengths_int_def)
  then have "sum_list (take m ?ls) = sum_list (take (m - 1) ?ls) + ?ls ! (m - 1)"
    using assms(1) take_Suc_conv_app_nth [of "m - 1" ?ls] by simp
  moreover have "sum_list (take m ?ls) \<le> sum_list ?ls"
    by (metis append_take_drop_id le_add1 sum_list_append)
  ultimately show ?thesis using assms(3) by (simp add: sum_month_lengths_int)
qed

text \<open>\<open>ymd_of_days\<close> inverts \<open>civil_days\<close> on the valid dates of every year.\<close>

lemma ymd_of_civil_days:
  assumes "1 \<le> m" and "m \<le> 12" and "1 \<le> d" and "d \<le> month_lengths_int y ! (m - 1)"
  shows "ymd_of_days (civil_days y (int m) (int d)) = (y, m, d)"
proof -
  let ?k = "sum_list (take (m - 1) (month_lengths_int y)) + (d - 1)"
  have "(int m - 1) div 12 = 0" and "nat ((int m - 1) mod 12) = m - 1"
    using assms(1,2) by simp_all
  then have cd: "civil_days y (int m) (int d) = year_start y + int ?k"
    using assms(3) by (simp add: civil_days_def)
  have k: "?k < year_len y"
    using assms by (intro day_in_year) simp_all
  have walk: "(if 0 \<le> year_start y + int ?k then year_fwd 1970 (nat (year_start y + int ?k))
               else year_back 1970 (nat (- (year_start y + int ?k)))) = (y, ?k)"
  proof (cases "1970 \<le> y")
    case True
    then have "0 \<le> year_start y" using year_start_mono [of 1970 y] by simp
    with year_fwd_start [OF True k] show ?thesis by (simp add: nat_add_distrib)
  next
    case False
    then have "year_start (y + 1) \<le> 0" using year_start_mono [of "y + 1" 1970] by simp
    then have neg: "year_start y + int ?k < 0" using k by (simp add: year_start_step)
    have "nat (- (year_start y + int ?k)) = nat (year_start 1970 - year_start y) - ?k"
      using neg by simp
    with year_back_start [of y 1970 ?k] False k neg show ?thesis by simp
  qed
  have mo: "month_of (month_lengths_int y) 1 ?k = (m, d - 1)"
    using month_of_take [of "m - 1" "month_lengths_int y" "d - 1" 1] assms
    by (simp add: month_lengths_int_def)
  have "ymd_of_days (civil_days y (int m) (int d)) = (y, m, Suc (d - 1))"
    by (simp only: ymd_of_days_def cd walk Let_def case_prod_conv mo)
  with assms(3) show ?thesis by simp
qed

text \<open>Conversely, \<open>civil_days\<close> undoes \<open>ymd_of_days\<close>: every day count is a valid date.\<close>

lemma year_fwd_sound:
  "year_fwd y0 k = (y, r) \<Longrightarrow> year_start y + int r = year_start y0 + int k \<and> r < year_len y"
proof (induction y0 k rule: year_fwd.induct)
  case (1 y0 k)
  show ?case
  proof (cases "k < year_len y0")
    case True
    with "1.prems" show ?thesis by (simp add: year_fwd.simps [of y0])
  next
    case False
    with "1.prems" have "year_fwd (y0 + 1) (k - year_len y0) = (y, r)"
      by (simp add: year_fwd.simps [of y0])
    with "1.IH" False show ?thesis by (simp add: year_start_step)
  qed
qed

lemma year_back_sound:
  "year_back y0 k = (y, r) \<Longrightarrow> 0 < k \<Longrightarrow> year_start y + int r = year_start y0 - int k \<and> r < year_len y"
proof (induction y0 k rule: year_back.induct)
  case (1 y0 k)
  have st: "year_start y0 = year_start (y0 - 1) + int (year_len (y0 - 1))"
    using year_start_step [of "y0 - 1"] by simp
  show ?case
  proof (cases "k \<le> year_len (y0 - 1)")
    case True
    with "1.prems" st show ?thesis by (auto simp: year_back.simps [of y0])
  next
    case False
    with "1.prems" have "year_back (y0 - 1) (k - year_len (y0 - 1)) = (y, r)"
      by (simp add: year_back.simps [of y0])
    with "1.IH" False st show ?thesis by (simp add:)
  qed
qed

lemma month_of_sound:
  "month_of ls m0 r = (m, d) \<Longrightarrow> r < sum_list ls \<Longrightarrow>
   \<exists>j. m = m0 + j \<and> j < length ls \<and> d < ls ! j \<and> r = sum_list (take j ls) + d"
proof (induction ls arbitrary: m0 r)
  case Nil
  then show ?case by simp
next
  case (Cons l ls)
  show ?case
  proof (cases "r < l")
    case True
    with Cons.prems show ?thesis by (intro exI [of _ 0]) auto
  next
    case False
    with Cons.prems have "month_of ls (Suc m0) (r - l) = (m, d)" and "r - l < sum_list ls"
      by simp_all
    from Cons.IH [OF this] obtain j where
      "m = Suc m0 + j" "j < length ls" "d < ls ! j" "r - l = sum_list (take j ls) + d"
      by blast
    with False show ?thesis by (intro exI [of _ "Suc j"]) simp
  qed
qed

lemma civil_days_ymd:
  assumes "ymd_of_days k = (y, m, d)"
  shows "civil_days y (int m) (int d) = k \<and> 1 \<le> m \<and> m \<le> 12 \<and> 1 \<le> d
    \<and> d \<le> month_lengths_int y ! (m - 1)"
proof -
  obtain y' r where yr: "(if 0 \<le> k then year_fwd 1970 (nat k) else year_back 1970 (nat (- k))) = (y', r)"
    by (metis surj_pair)
  have r: "year_start y' + int r = k \<and> r < year_len y'"
  proof (cases "0 \<le> k")
    case True
    with yr year_fwd_sound [of 1970 "nat k" y' r] show ?thesis by simp
  next
    case False
    with yr year_back_sound [of 1970 "nat (- k)" y' r] show ?thesis by simp
  qed
  obtain m' d' where md: "month_of (month_lengths_int y') 1 r = (m', d')"
    by (metis surj_pair)
  with yr assms have y: "y = y'" and m: "m = m'" and d: "d = Suc d'"
    by (simp_all add: ymd_of_days_def)
  from month_of_sound [OF md] r obtain j where j: "m' = 1 + j" "j < length (month_lengths_int y')"
    "d' < month_lengths_int y' ! j" "r = sum_list (take j (month_lengths_int y')) + d'"
    by (auto simp: sum_month_lengths_int)
  then have "j < 12" by (simp add: month_lengths_int_def)
  then have "(int m - 1) div 12 = 0" "nat ((int m - 1) mod 12) = j" using m j(1) by simp_all
  with r j y m d show ?thesis by (simp add: civil_days_def)
qed

lemma numeral_dvd_int: "(numeral k dvd int y) = (numeral k dvd y)"
  by (metis int_dvd_int_iff of_nat_numeral)

lemma epoch_day_civil:
  "1 \<le> m \<Longrightarrow> m \<le> 12 \<Longrightarrow> epoch_day y m d = civil_days (int y) (int m) (int d)"
proof -
  assume "1 \<le> m" "m \<le> 12"
  then have "(int m - 1) div 12 = 0" "nat ((int m - 1) mod 12) = m - 1" by simp_all
  moreover have "month_lengths_int (int y) = month_lengths y"
    by (simp add: month_lengths_int_def month_lengths_def leap_int_def leap_year_def numeral_dvd_int)
  ultimately show ?thesis by (simp add: epoch_day_def civil_days_def year_start_def Let_def)
qed

lemma month_lengths_int_nat: "month_lengths_int (int y) = month_lengths y"
  by (simp add: month_lengths_int_def month_lengths_def leap_int_def leap_year_def numeral_dvd_int)

lemma civil_days_in_year:
  assumes "1 \<le> m" and "m \<le> 12" and "1 \<le> d" and "d \<le> month_lengths_int y ! (m - 1)"
  shows "year_start y \<le> civil_days y (int m) (int d) \<and> civil_days y (int m) (int d) < year_start (y + 1)"
proof -
  have "(int m - 1) div 12 = 0" and "nat ((int m - 1) mod 12) = m - 1"
    using assms(1,2) by simp_all
  then have "civil_days y (int m) (int d) =
      year_start y + int (sum_list (take (m - 1) (month_lengths_int y)) + (d - 1))"
    using assms(3) by (simp add: civil_days_def)
  moreover have "sum_list (take (m - 1) (month_lengths_int y)) + (d - 1) < year_len y"
    using assms by (intro day_in_year) simp_all
  ultimately show ?thesis by (simp add: year_start_step)
qed

lemma year_start_less: "y0 < y \<Longrightarrow> year_start y0 < year_start y"
proof -
  assume "y0 < y"
  then have "year_start (y0 + 1) \<le> year_start y" by (intro year_start_mono) simp
  moreover have "0 < int (year_len y0)" by simp
  ultimately show ?thesis using year_start_step [of y0] by linarith
qed

end
