(* ===== verification/Rbc_Format.thy ===== *)
theory Rbc_Format
  imports Parser_Contract Calendar
begin

text \<open>
  The RBC institution format (the parser \<open>RbcCsvParser\<close> that
  \<open>src/store/transactions/CsvParsers/__tests__/RbcCsvParser.test.js\<close> exercises; its
  source is not part of the repository snapshot, so it is modelled from spec sections 4.3
  and 8 and from the test's expectations). A row has eight columns: account type,
  account number, transaction date (month/day/year), cheque number, two descriptions,
  the CAD amount and the USD amount. The mapper checks the column count, then the date,
  the first description and the amount, collecting one message per failed field.
  The description of a draft is the first description column, a dash, and the first
  description column again, as the test expects; the amount is read from the column of
  the account's currency, falling back to the other column when that one is blank.
  Dates become epoch milliseconds of midnight UTC through the day count of \<open>Calendar\<close>.
\<close>

definition rbc_header :: "string list" where
  "rbc_header =
     [''Account Type'', ''Account Number'', ''Transaction Date'', ''Cheque Number'',
      ''Description 1'', ''Description 2'', ''CAD$'', ''USD$'']"

definition is_blank :: "string \<Rightarrow> bool" where
  "is_blank s \<longleftrightarrow> list_all (\<lambda>c. c = CHR '' '' \<or> c = CHR 0x09) s"

subsection \<open>Dates\<close>

definition parse_date :: "string \<Rightarrow> int option" where
  "parse_date s =
     (case split_on CHR ''/'' s of
        [ms, ds, ys] \<Rightarrow>
          (case (read_nat ms, read_nat ds, read_nat ys) of
             (Some m, Some d, Some y) \<Rightarrow>
               if valid_date y m d then Some (epoch_day y m d * ms_per_day) else None
           | _ \<Rightarrow> None)
      | _ \<Rightarrow> None)"

subsection \<open>Amounts\<close>

text \<open>
  Standard decimal notation: an optional minus sign, digits, and an optional point with
  digits; at least one digit. The value is exact (a rational); the floating-point
  rounding of JavaScript numbers is not modelled.
\<close>

definition read_decimal :: "string \<Rightarrow> rat option" where
  "read_decimal s =
     (let neg = (s \<noteq> [] \<and> hd s = CHR ''-'');
          body = (if neg then tl s else s);
          ip = takeWhile (\<lambda>c. c \<noteq> CHR ''.'') body;
          fp = drop 1 (dropWhile (\<lambda>c. c \<noteq> CHR ''.'') body)
      in if list_all is_digit ip \<and> list_all is_digit fp \<and> ip @ fp \<noteq> []
         then Some ((if neg then -1 else 1) *
                    (of_nat (digits_val ip) + of_nat (digits_val fp) / of_nat (10 ^ length fp)))
         else None)"

definition rbc_amount_text :: "acct \<Rightarrow> string list \<Rightarrow> string" where
  "rbc_amount_text a r =
     (let cad = r ! 6; usd = r ! 7 in
      if acct_currency a = ''USD''
      then (if is_blank usd then cad else usd)
      else (if is_blank cad then usd else cad))"

subsection \<open>The row mapper\<close>

definition rbc_map_row :: "acct \<Rightarrow> string list \<Rightarrow> string list + draft" where
  "rbc_map_row a r =
     (if length r \<noteq> 8 then Inl [''Expected 8 columns but found '' @ show_nat (length r)]
      else
        (let date = parse_date (r ! 2); desc = r ! 4; amt = read_decimal (rbc_amount_text a r)
         in case (date, amt) of
              (Some t, Some v) \<Rightarrow>
                if is_blank desc then Inl [''Missing description'']
                else Inr \<lparr>account_id = acct_id a, created_at = t,
                          description = desc @ '' - '' @ desc, amount = v\<rparr>
            | _ \<Rightarrow>
                Inl ((if date = None then [''Invalid date: '' @ r ! 2] else [])
                     @ (if is_blank desc then [''Missing description''] else [])
                     @ (if amt = None then [''Invalid amount: '' @ rbc_amount_text a r] else []))))"

definition rbc_format :: csv_format where
  "rbc_format = \<lparr>expected_header = rbc_header, map_row = rbc_map_row\<rparr>"

text \<open>
  A date column of the form \<open>m/d/y\<close> in digits is accepted exactly when it names a day of
  the calendar, and then stands for midnight UTC of that day.
\<close>

lemma parse_date_numeric:
  "parse_date (show_nat m @ ''/'' @ show_nat d @ ''/'' @ show_nat y) =
     (if valid_date y m d then Some (epoch_day y m d * ms_per_day) else None)"
proof -
  have "CHR ''/'' \<notin> set (show_nat k)" for k
    using show_nat_digits [of k] by (auto simp: list_all_iff is_digit_def)
  then have "split_on CHR ''/'' (join ''/'' [show_nat m, show_nat d, show_nat y]) =
      [show_nat m, show_nat d, show_nat y]"
    by (intro split_on_join) auto
  then show ?thesis by (simp add: parse_date_def)
qed

text \<open>The mapper on a row of eight columns whose date column is numeric, by its three checks.\<close>

lemma rbc_map_row_dated:
  assumes "length r = 8" and "r ! 2 = show_nat m @ ''/'' @ show_nat d @ ''/'' @ show_nat y"
  shows "rbc_map_row a r =
    (if valid_date y m d \<and> \<not> is_blank (r ! 4) \<and> read_decimal (rbc_amount_text a r) \<noteq> None
     then Inr \<lparr>account_id = acct_id a, created_at = epoch_day y m d * ms_per_day,
               description = r ! 4 @ '' - '' @ r ! 4, amount = the (read_decimal (rbc_amount_text a r))\<rparr>
     else Inl ((if valid_date y m d then [] else [''Invalid date: '' @ r ! 2])
               @ (if is_blank (r ! 4) then [''Missing description''] else [])
               @ (if read_decimal (rbc_amount_text a r) = None
                  then [''Invalid amount: '' @ rbc_amount_text a r] else [])))"
proof -
  have "parse_date (r ! 2) = (if valid_date y m d then Some (epoch_day y m d * ms_per_day) else None)"
    unfolding assms(2) by (rule parse_date_numeric)
  with assms(1) show ?thesis by (auto simp: rbc_map_row_def Let_def split: option.splits)
qed

lemma rbc_stamps_account: "stamps_account rbc_format"
  by (auto simp: stamps_account_def rbc_format_def rbc_map_row_def Let_def
      split: option.splits if_splits)

end
