(* ===== verification/Rbc_Parser_Test.thy ===== *)
theory Rbc_Parser_Test
  imports Csv_Parser Rbc_Format
begin

text \<open>
  The repository's parser test, \<open>src/store/transactions/CsvParsers/__tests__/RbcCsvParser.test.js\<close>:
  its fixture (\<open>csvData\<close>, the expected transactions, the account), the way it builds
  a file (\<open>new File([csvData.join('\n')], ...)\<close>, so the last line has no newline), and
  its two test cases as predicates of the model. \<open>parse('2018/06/25').getTime()\<close> is
  read as the epoch milliseconds of that day at midnight UTC, the same convention the date
  mapper of \<open>Rbc_Format\<close> uses. The parser's id generator is a parameter \<open>n\<close> of the
  predicates: the test never fixes ids, it only asks for one.
\<close>

definition csv_file_text :: "string list \<Rightarrow> string" where
  "csv_file_text lines = join [newline] lines"

definition rbc_csv_data :: "string list" where
  "rbc_csv_data =
     [''Account Type,Account Number,Transaction Date,Cheque Number,Description 1,Description 2,CAD$,USD$'',
      ''Chequing,nnnnn-nnnnnnn,6/25/2018,,Email Trfs,INTERAC E-TRF- 6319 ,20,'',
      ''Chequing,nnnnn-nnnnnnn,6/29/2018,,PAYROLL DEPOSIT,THE WORKING GRO ,2742.03,'',
      ''Savings,nnnnn-nnnnnnn,8/22/2018,,DEPOSIT,,,5300'',
      ''Visa,4514xxxxxxxxxxxx,8/13/2018,,LYFT *RIDE MON 11AM VANCOUVER BC,,-16.61,'']"

definition date_ms :: "nat \<Rightarrow> nat \<Rightarrow> nat \<Rightarrow> int" where
  "date_ms y m d = epoch_day y m d * ms_per_day"

definition rbc_expected_transactions :: "draft list" where
  "rbc_expected_transactions =
     [\<lparr>account_id = 1, created_at = date_ms 2018 6 25,
       description = ''Email Trfs - Email Trfs'', amount = 20\<rparr>,
      \<lparr>account_id = 1, created_at = date_ms 2018 6 29,
       description = ''PAYROLL DEPOSIT - PAYROLL DEPOSIT'', amount = 274203 / 100\<rparr>,
      \<lparr>account_id = 1, created_at = date_ms 2018 8 22,
       description = ''DEPOSIT - DEPOSIT'', amount = 5300\<rparr>,
      \<lparr>account_id = 1, created_at = date_ms 2018 8 13,
       description = ''LYFT *RIDE MON 11AM VANCOUVER BC - LYFT *RIDE MON 11AM VANCOUVER BC'',
       amount = - 1661 / 100\<rparr>]"

definition test_account :: acct where
  "test_account = \<lparr>acct_id = 1, acct_currency = ''CAD''\<rparr>"

text \<open>
  A file for the witnesses, not part of the test: the fixture with the date of its second
  data line replaced by a day that does not exist.
\<close>

definition bad_date_lines :: "string list" where
  "bad_date_lines =
     (tl rbc_csv_data)[1 := ''Chequing,nnnnn-nnnnnnn,2/30/2018,,PAYROLL DEPOSIT,THE WORKING GRO ,2742.03,'']"

text \<open>\<open>it('returns transactions')\<close>: every expectation of the first test case.\<close>

definition returns_transactions_case :: "nat \<Rightarrow> bool" where
  "returns_transactions_case n \<longleftrightarrow>
     (let r = parse rbc_format (csv_file_text rbc_csv_data) test_account n
      in length (transactions r) = length rbc_csv_data - 1
         \<and> length (base (errors r)) = 0
         \<and> length (row_errors (errors r)) = 0
         \<and> map draft.truncate (transactions r) = rbc_expected_transactions
         \<and> transactions r \<noteq> [])"

text \<open>\<open>it('fails if the header doesn't match')\<close>: the first line replaced by another text.\<close>

definition header_mismatch_case :: "nat \<Rightarrow> bool" where
  "header_mismatch_case n \<longleftrightarrow>
     (let old_header = rbc_csv_data ! 0;
          data = rbc_csv_data[0 := ''something else''];
          r = parse rbc_format (csv_file_text data) test_account n
      in length (transactions r) = 0
         \<and> length (base (errors r)) = length data
         \<and> base (errors r) ! 0 =
             ''Invalid header. Expected ['' @ old_header @ ''] but found ['' @ data ! 0 @ '']''
         \<and> length (row_errors (errors r)) = 0)"

subsection \<open>The fixture through the model\<close>

text \<open>
  Every text is the file of its own lines (\<open>csv_file_text_lines\<close>), so statements about
  \<open>csv_file_text ls\<close> for all \<open>ls\<close> are statements about every file the test could build.
\<close>

lemma csv_file_text_lines: "csv_file_text (split_on newline s) = s"
  by (simp add: csv_file_text_def join_split_on)

lemma fixture_split: "rbc_csv_data = hd rbc_csv_data # tl rbc_csv_data"
  by (simp add: rbc_csv_data_def)

lemma fixture_plain: "plain_lines (hd rbc_csv_data # tl rbc_csv_data)"
  by (simp add: plain_lines_def rbc_csv_data_def)

lemma fixture_header: "split_on comma (hd rbc_csv_data) = expected_header rbc_format"
  by (simp add: rbc_csv_data_def rbc_format_def rbc_header_def)

lemma fixture_rows:
  "map (map_row rbc_format test_account) (map (split_on comma) (tl rbc_csv_data)) =
   map Inr rbc_expected_transactions"
  by (simp add: rbc_format_def rbc_csv_data_def rbc_map_row_def test_account_def
      rbc_expected_transactions_def parse_date_def valid_date_def month_lengths_def leap_year_def
      date_ms_def read_nat_def is_digit_def digits_val_def digit_val_def read_decimal_def
      rbc_amount_text_def is_blank_def)

lemma fixture_rows_ok:
  "\<forall>l\<in>set (tl rbc_csv_data). \<exists>d. map_row rbc_format test_account (split_on comma l) = Inr d"
  using all_Inr_ok [OF fixture_rows] by simp

lemma fixture_parse:
  "parse rbc_format (csv_file_text rbc_csv_data) test_account n =
     \<lparr>transactions = fst (process_rows rbc_format test_account n 0 (map (split_on comma) (tl rbc_csv_data))),
      errors = \<lparr>base = [], row_errors = []\<rparr>\<rparr>"
proof -
  have "failures rbc_format test_account 0 (map (split_on comma) (tl rbc_csv_data)) = []"
    using all_rows_ok [OF all_Inr_ok [OF fixture_rows]] by simp
  then show ?thesis
    using parse_plain_good [OF fixture_plain fixture_header] fixture_split
    by (simp add: csv_file_text_def process_rows_errors)
qed

lemma fixture_drafts:
  "map draft.truncate (transactions (parse rbc_format (csv_file_text rbc_csv_data) test_account n)) =
   rbc_expected_transactions"
proof -
  have "successes rbc_format test_account (map (split_on comma) (tl rbc_csv_data)) =
      rbc_expected_transactions"
    using fixture_rows by (rule successes_Inr)
  then show ?thesis by (simp add: fixture_parse process_rows_drafts)
qed

text \<open>
  The model passes the repository's test. \<open>it('returns transactions')\<close>: whatever the first
  id the generator hands out, the four data rows become four transactions equal, field for
  field, to the expected ones, with no errors.
\<close>

lemma rbc_returns_transactions: "returns_transactions_case n"
proof -
  have "length rbc_csv_data - 1 = length rbc_expected_transactions"
    and "rbc_expected_transactions \<noteq> []"
    by (simp_all add: rbc_csv_data_def rbc_expected_transactions_def)
  with fixture_drafts [of n] fixture_parse [of n] show ?thesis
    by (auto simp: returns_transactions_case_def dest: arg_cong [where f = length])
qed

text \<open>
  \<open>it('fails if the header doesn't match')\<close>: with the header line replaced, no transaction,
  one base error per row of the file, the first naming both headers, and no row errors.
\<close>

lemma rbc_header_mismatch: "header_mismatch_case n"
proof -
  let ?data = "rbc_csv_data[0 := ''something else'']"
  have plain: "plain_lines (''something else'' # tl rbc_csv_data)"
    by (simp add: plain_lines_def rbc_csv_data_def)
  have hdr: "split_on comma ''something else'' \<noteq> expected_header rbc_format"
    by (simp add: rbc_format_def rbc_header_def)
  have "?data = ''something else'' # tl rbc_csv_data"
    by (simp add: rbc_csv_data_def)
  moreover have "join '','' rbc_header = rbc_csv_data ! 0"
    by (simp add: rbc_header_def rbc_csv_data_def)
  ultimately show ?thesis
    using parse_plain_bad_header [OF plain hdr, of test_account n]
    by (simp add: header_mismatch_case_def csv_file_text_def fail_result_def header_message_def
        rbc_format_def rbc_csv_data_def)
qed

subsection \<open>Files of any format, built as the test builds them\<close>

text \<open>
  C1: a file whose header line matches the format and whose every data line maps to a
  draft yields exactly one transaction per data line, no base errors and no row errors.
\<close>

theorem parse_all_rows_valid:
  assumes "plain_lines (hl # ls)" and "split_on comma hl = expected_header p"
    and "\<forall>l\<in>set ls. \<exists>d. map_row p a (split_on comma l) = Inr d"
  shows "length (transactions (parse p (csv_file_text (hl # ls)) a n)) = length ls
    \<and> base (errors (parse p (csv_file_text (hl # ls)) a n)) = []
    \<and> row_errors (errors (parse p (csv_file_text (hl # ls)) a n)) = []"
proof -
  have "\<forall>r\<in>set (map (split_on comma) ls). \<exists>d. map_row p a r = Inr d"
    using assms(3) by simp
  from all_rows_ok [OF this, of 0]
  have "length (successes p a (map (split_on comma) ls)) = length ls"
    and "failures p a 0 (map (split_on comma) ls) = []"
    by simp_all
  then show ?thesis
    using parse_plain_good [OF assms(1,2), of a n]
    by (simp add: csv_file_text_def length_process_rows process_rows_errors)
qed

theorem parse_all_rows_valid_witness:
  "plain_lines (hd rbc_csv_data # tl rbc_csv_data)
   \<and> split_on comma (hd rbc_csv_data) = expected_header rbc_format
   \<and> list_all (\<lambda>l. \<exists>d. map_row rbc_format test_account (split_on comma l) = Inr d) (tl rbc_csv_data)
   \<and> length (transactions (parse rbc_format (csv_file_text (hd rbc_csv_data # tl rbc_csv_data)) test_account 0))
       = length (tl rbc_csv_data)"
  using parse_all_rows_valid [OF fixture_plain fixture_header fixture_rows_ok, of 0]
    fixture_plain fixture_header fixture_rows_ok by (simp add: list_all_iff)

text \<open>
  C2: one bad data line among good ones costs exactly that line: one transaction fewer,
  one row error keyed by that line's 0-based index, and no base error.
\<close>

theorem parse_one_bad_row:
  assumes "plain_lines (hl # ls)" and "split_on comma hl = expected_header p"
    and "k < length ls" and "map_row p a (split_on comma (ls ! k)) = Inl es"
    and "\<forall>j<length ls. j \<noteq> k \<longrightarrow> (\<exists>d. map_row p a (split_on comma (ls ! j)) = Inr d)"
  shows "length (transactions (parse p (csv_file_text (hl # ls)) a n)) = length ls - 1
    \<and> row_errors (errors (parse p (csv_file_text (hl # ls)) a n)) = [(k, es)]
    \<and> base (errors (parse p (csv_file_text (hl # ls)) a n)) = []"
proof -
  from one_row_bad [of k "map (split_on comma) ls" p a es 0] assms(3-5)
  have "failures p a 0 (map (split_on comma) ls) = [(k, es)]"
    and "Suc (length (successes p a (map (split_on comma) ls))) = length ls"
    by simp_all
  then show ?thesis
    using parse_plain_good [OF assms(1,2), of a n]
    by (simp add: csv_file_text_def length_process_rows process_rows_errors)
qed

lemma bad_date_lines_facts:
  "plain_lines (hd rbc_csv_data # bad_date_lines)" "length bad_date_lines = 4"
  "map_row rbc_format test_account (split_on comma (bad_date_lines ! 1)) = Inl [''Invalid date: 2/30/2018'']"
  by (simp_all add: plain_lines_def bad_date_lines_def rbc_csv_data_def rbc_format_def
      rbc_map_row_def test_account_def parse_date_def read_decimal_def rbc_amount_text_def
      is_blank_def is_digit_def read_nat_def digits_val_def digit_val_def valid_date_def
      month_lengths_def leap_year_def)

lemma bad_date_lines_others:
  "\<forall>j<length bad_date_lines. j \<noteq> 1 \<longrightarrow>
     (\<exists>d. map_row rbc_format test_account (split_on comma (bad_date_lines ! j)) = Inr d)"
proof (intro allI impI)
  fix j assume j: "j < length bad_date_lines" "j \<noteq> 1"
  then have "bad_date_lines ! j = tl rbc_csv_data ! j" and "j < length (tl rbc_csv_data)"
    by (simp_all add: bad_date_lines_def)
  then have "bad_date_lines ! j \<in> set (tl rbc_csv_data)" by simp
  with fixture_rows_ok show "\<exists>d. map_row rbc_format test_account (split_on comma (bad_date_lines ! j)) = Inr d"
    by blast
qed

theorem parse_one_bad_row_witness:
  "plain_lines (hd rbc_csv_data # bad_date_lines)
   \<and> split_on comma (hd rbc_csv_data) = expected_header rbc_format
   \<and> 1 < length bad_date_lines
   \<and> map_row rbc_format test_account (split_on comma (bad_date_lines ! 1)) = Inl [''Invalid date: 2/30/2018'']
   \<and> row_errors (errors (parse rbc_format (csv_file_text (hd rbc_csv_data # bad_date_lines)) test_account 0))
       = [(1, [''Invalid date: 2/30/2018''])]"
  using parse_one_bad_row [OF bad_date_lines_facts(1) fixture_header _ bad_date_lines_facts(3)
      bad_date_lines_others, of 0]
    bad_date_lines_facts fixture_header bad_date_lines_others by simp

text \<open>
  C3: a header line that differs from the format's header stops the whole file: no
  transaction, no row error, and one base error per line of the file, the first naming the
  expected and the found header.
\<close>

theorem parse_header_mismatch:
  assumes "plain_lines (hl # ls)" and "split_on comma hl \<noteq> expected_header p"
  shows "transactions (parse p (csv_file_text (hl # ls)) a n) = []
    \<and> length (base (errors (parse p (csv_file_text (hl # ls)) a n))) = length (hl # ls)
    \<and> hd (base (errors (parse p (csv_file_text (hl # ls)) a n)))
        = header_message (expected_header p) (split_on comma hl)
    \<and> row_errors (errors (parse p (csv_file_text (hl # ls)) a n)) = []"
  using parse_plain_bad_header [OF assms, of a n] by (simp add: csv_file_text_def fail_result_def)

lemma mismatch_file_facts:
  "plain_lines (''something else'' # tl rbc_csv_data)"
  "split_on comma ''something else'' \<noteq> expected_header rbc_format"
  by (simp_all add: plain_lines_def rbc_csv_data_def rbc_format_def rbc_header_def)

theorem parse_header_mismatch_witness:
  "plain_lines (''something else'' # tl rbc_csv_data)
   \<and> split_on comma ''something else'' \<noteq> expected_header rbc_format
   \<and> length (base (errors (parse rbc_format (csv_file_text (''something else'' # tl rbc_csv_data)) test_account 0))) = 5"
  using parse_header_mismatch [OF mismatch_file_facts, of test_account 0] mismatch_file_facts
  by (simp add: rbc_csv_data_def)

text \<open>
  C4: whatever the file, the RBC parser's transactions carry pairwise distinct ids and all
  belong to the account passed to \<open>parse\<close>.
\<close>

theorem rbc_parse_ids_account:
  "distinct (map txn_id (transactions (parse rbc_format (csv_file_text ls) a n)))
   \<and> (\<forall>t\<in>set (transactions (parse rbc_format (csv_file_text ls) a n)). account_id t = acct_id a)"
  using parse_transactions_ok [OF rbc_stamps_account, of "csv_file_text ls" a n] by simp

theorem rbc_parse_ids_account_witness:
  "length (transactions (parse rbc_format (csv_file_text rbc_csv_data) test_account 0)) = 4
   \<and> distinct (map txn_id (transactions (parse rbc_format (csv_file_text rbc_csv_data) test_account 0)))
   \<and> list_all (\<lambda>t. account_id t = acct_id test_account)
       (transactions (parse rbc_format (csv_file_text rbc_csv_data) test_account 0))"
proof -
  have "length (transactions (parse rbc_format (csv_file_text rbc_csv_data) test_account 0)) = 4"
    using fixture_drafts [of 0] arg_cong [where f = length]
    by (force simp: rbc_expected_transactions_def)
  then show ?thesis using rbc_parse_ids_account [of rbc_csv_data test_account 0]
    by (simp add: list_all_iff)
qed

text \<open>
  C5: the transactions are the drafts of the data lines that map, in the order of the
  lines; a failed line is left out, not moved.
\<close>

theorem parse_preserves_order:
  assumes "plain_lines (hl # ls)" and "split_on comma hl = expected_header p"
  shows "map draft.truncate (transactions (parse p (csv_file_text (hl # ls)) a n)) =
    [d. Inr d \<leftarrow> map (\<lambda>l. map_row p a (split_on comma l)) ls]"
  using parse_plain_good [OF assms, of a n]
  by (simp add: csv_file_text_def process_rows_drafts successes_def comp_def)

theorem parse_preserves_order_witness:
  "plain_lines (hd rbc_csv_data # bad_date_lines)
   \<and> split_on comma (hd rbc_csv_data) = expected_header rbc_format
   \<and> map draft.truncate (transactions (parse rbc_format (csv_file_text (hd rbc_csv_data # bad_date_lines)) test_account 0))
     = [d. Inr d \<leftarrow> map (\<lambda>l. map_row rbc_format test_account (split_on comma l)) bad_date_lines]"
  using parse_preserves_order [OF bad_date_lines_facts(1) fixture_header, of test_account 0]
    bad_date_lines_facts(1) fixture_header by simp

text \<open>
  C6: the row errors are keyed by the 0-based index of the data line: an index has an
  entry exactly when its line fails, with that line's messages; each index at most once;
  and every data line is either a transaction or a row error.
\<close>

theorem parse_row_errors_by_index:
  assumes "plain_lines (hl # ls)" and "split_on comma hl = expected_header p"
  shows "map_of (row_errors (errors (parse p (csv_file_text (hl # ls)) a n))) j =
      (if j < length ls
       then (case map_row p a (split_on comma (ls ! j)) of Inl es \<Rightarrow> Some es | Inr _ \<Rightarrow> None)
       else None)
    \<and> distinct (map fst (row_errors (errors (parse p (csv_file_text (hl # ls)) a n))))
    \<and> length (transactions (parse p (csv_file_text (hl # ls)) a n))
      + length (row_errors (errors (parse p (csv_file_text (hl # ls)) a n))) = length ls"
  using parse_plain_good [OF assms, of a n] map_of_failures [of p a 0 "map (split_on comma) ls" j]
    distinct_failure_keys [of p a 0 "map (split_on comma) ls"]
    length_successes_failures [of p a "map (split_on comma) ls" 0]
  by (simp add: csv_file_text_def process_rows_errors length_process_rows)

theorem parse_row_errors_by_index_witness:
  "plain_lines (hd rbc_csv_data # bad_date_lines)
   \<and> split_on comma (hd rbc_csv_data) = expected_header rbc_format
   \<and> map_of (row_errors (errors (parse rbc_format (csv_file_text (hd rbc_csv_data # bad_date_lines)) test_account 0))) 1
     = Some [''Invalid date: 2/30/2018'']"
  using parse_row_errors_by_index [OF bad_date_lines_facts(1) fixture_header, of test_account 0 1]
    bad_date_lines_facts fixture_header by simp

text \<open>
  C7: whatever the file, base errors exclude everything else: a result with a base error
  has no transactions and no row errors.
\<close>

theorem parse_base_errors_exclusive:
  assumes "base (errors (parse p (csv_file_text ls) a n)) \<noteq> []"
  shows "transactions (parse p (csv_file_text ls) a n) = []
    \<and> row_errors (errors (parse p (csv_file_text ls) a n)) = []"
  using assms by (rule parse_base_exclusive)

theorem parse_base_errors_exclusive_witness:
  "base (errors (parse rbc_format (csv_file_text (''something else'' # tl rbc_csv_data)) test_account 0)) \<noteq> []
   \<and> transactions (parse rbc_format (csv_file_text (''something else'' # tl rbc_csv_data)) test_account 0) = []"
proof -
  have "base (errors (parse rbc_format (csv_file_text (''something else'' # tl rbc_csv_data)) test_account 0)) \<noteq> []"
    using parse_plain_bad_header [OF mismatch_file_facts, of test_account 0]
    by (simp add: csv_file_text_def fail_result_def)
  with parse_base_errors_exclusive [OF this] show ?thesis by simp
qed

subsection \<open>The tokenizer on the test's files\<close>

text \<open>
  C8: printing a table with quoting where needed and joining the lines as the test does
  gives a file the tokenizer reads back as the same table (every row has a field; a final
  row that is one empty field would be the trailing blank line, which is dropped).
\<close>

theorem csv_file_roundtrip:
  assumes "\<forall>r\<in>set rs. r \<noteq> []" and "rs = [] \<or> last rs \<noteq> [[]]"
  shows "tokenize (csv_file_text (map print_row rs)) = Inr rs"
  using tokenize_join_rows [OF assms] by (simp add: csv_file_text_def)

theorem csv_file_roundtrip_witness:
  "list_all (\<lambda>r. r \<noteq> []) [[''Email, Trfs'', ''say '' @ [dquote] @ ''hi'' @ [dquote]], [''''], [''20'', '''']]
   \<and> ([[''Email, Trfs'', ''say '' @ [dquote] @ ''hi'' @ [dquote]], [''''], [''20'', '''']] = []
      \<or> last [[''Email, Trfs'', ''say '' @ [dquote] @ ''hi'' @ [dquote]], [''''], [''20'', '''']] \<noteq> [[]])
   \<and> tokenize (csv_file_text (map print_row
       [[''Email, Trfs'', ''say '' @ [dquote] @ ''hi'' @ [dquote]], [''''], [''20'', '''']]))
     = Inr [[''Email, Trfs'', ''say '' @ [dquote] @ ''hi'' @ [dquote]], [''''], [''20'', '''']]"
  using csv_file_roundtrip [of "[[''Email, Trfs'', ''say '' @ [dquote] @ ''hi'' @ [dquote]], [''''], [''20'', '''']]"]
  by simp

text \<open>
  C9: on lines without quotes the tokenizer is the naive reading the test's fixture
  relies on: one row per line, the line split at every comma.
\<close>

theorem csv_file_plain_tokens:
  assumes "plain_lines ls"
  shows "tokenize (csv_file_text ls) = Inr (map (split_on comma) ls)"
  using assms tokenize_join_plain [of ls] by (simp add: plain_lines_def csv_file_text_def)

theorem csv_file_plain_tokens_witness:
  "plain_lines rbc_csv_data \<and> tokenize (csv_file_text rbc_csv_data) = Inr (map (split_on comma) rbc_csv_data)"
proof -
  have "plain_lines rbc_csv_data" by (simp add: plain_lines_def rbc_csv_data_def)
  with csv_file_plain_tokens [OF this] show ?thesis by simp
qed

text \<open>
  C10: an opening quote that is never closed makes the whole file unusable: one base error,
  no transaction, however many good lines precede it.
\<close>

theorem parse_unterminated_quote:
  assumes "\<forall>l\<in>set ls. dquote \<notin> set l \<and> newline \<notin> set l" and "dquote \<notin> set body"
  shows "parse p (csv_file_text (ls @ [dquote # body])) a n =
    fail_result [''Invalid CSV: unterminated quoted field'']"
  using tokenize_unterminated [OF assms]
  by (simp add: csv_file_text_def parse_tokenize_error csv_error_message_def)

theorem parse_unterminated_quote_witness:
  "list_all (\<lambda>l. dquote \<notin> set l \<and> newline \<notin> set l) rbc_csv_data
   \<and> dquote \<notin> set (''Email Trfs,'' @ [newline] @ ''20'')
   \<and> transactions (parse rbc_format (csv_file_text (rbc_csv_data @ [dquote # ''Email Trfs,'' @ [newline] @ ''20'']))
        test_account 0) = []"
proof -
  have plain: "\<forall>l\<in>set rbc_csv_data. dquote \<notin> set l \<and> newline \<notin> set l"
    by (simp add: rbc_csv_data_def)
  have body: "dquote \<notin> set (''Email Trfs,'' @ [newline] @ ''20'')" by simp
  from parse_unterminated_quote [OF plain body, of rbc_format test_account 0] plain body
  show ?thesis by (simp add: fail_result_def list_all_iff)
qed

subsection \<open>Which RBC rows become transactions\<close>

text \<open>
  On a file with the format's header, the row error of a data line and the transaction it
  gives are those of the mapper on the line's fields.
\<close>

lemma parse_row_error_at:
  assumes "plain_lines (hl # ls)" and "split_on comma hl = expected_header p" and "j < length ls"
  shows "map_of (row_errors (errors (parse p (csv_file_text (hl # ls)) a n))) j =
    (case map_row p a (split_on comma (ls ! j)) of Inl es \<Rightarrow> Some es | Inr _ \<Rightarrow> None)"
  using parse_plain_good [OF assms(1,2), of a n] map_of_failures [of p a 0 "map (split_on comma) ls" j] assms(3)
  by (simp add: csv_file_text_def process_rows_errors)

lemma parse_row_draft_at:
  assumes "plain_lines (hl # ls)" and "split_on comma hl = expected_header p" and "j < length ls"
    and "map_row p a (split_on comma (ls ! j)) = Inr dr"
  shows "\<exists>t\<in>set (transactions (parse p (csv_file_text (hl # ls)) a n)). draft.truncate t = dr"
proof -
  have "Inr dr \<in> set (map (\<lambda>l. map_row p a (split_on comma l)) ls)"
    using nth_mem [of j "map (\<lambda>l. map_row p a (split_on comma l)) ls"] assms(3,4) by simp
  then have "dr \<in> set [d. Inr d \<leftarrow> map (\<lambda>l. map_row p a (split_on comma l)) ls]"
    by (force simp: set_concat)
  moreover have "map draft.truncate (transactions (parse p (csv_file_text (hl # ls)) a n)) =
      [d. Inr d \<leftarrow> map (\<lambda>l. map_row p a (split_on comma l)) ls]"
    using parse_plain_good [OF assms(1,2), of a n]
    by (simp add: csv_file_text_def process_rows_drafts successes_def comp_def)
  ultimately have "dr \<in> set (map draft.truncate (transactions (parse p (csv_file_text (hl # ls)) a n)))"
    by simp
  then show ?thesis by auto
qed

text \<open>
  C21: a data line of an RBC file whose date column holds month/day/year in digits gives a
  transaction exactly when the date is a day of the calendar (month lengths and leap years
  checked, so 2/30/2018 is rejected), its first description is not blank and its amount
  column reads as a number (spec section 4.3); the transaction then carries the account's
  id, midnight UTC of that day and the description; and a line whose date is not a day of
  the calendar has a row error naming the date.
\<close>

theorem rbc_row_accepted_iff:
  assumes "plain_lines (hl # ls)" and "split_on comma hl = rbc_header" and "j < length ls"
    and "split_on comma (ls ! j) = r" and "length r = 8"
    and "r ! 2 = show_nat m @ ''/'' @ show_nat d @ ''/'' @ show_nat y"
  shows "(map_of (row_errors (errors (parse rbc_format (csv_file_text (hl # ls)) a n))) j = None
        \<longleftrightarrow> valid_date y m d \<and> \<not> is_blank (r ! 4) \<and> read_decimal (rbc_amount_text a r) \<noteq> None)
    \<and> (valid_date y m d \<and> \<not> is_blank (r ! 4) \<and> read_decimal (rbc_amount_text a r) \<noteq> None \<longrightarrow>
        (\<exists>t\<in>set (transactions (parse rbc_format (csv_file_text (hl # ls)) a n)).
           account_id t = acct_id a \<and> created_at t = epoch_day y m d * ms_per_day
           \<and> description t = r ! 4 @ '' - '' @ r ! 4))
    \<and> (\<not> valid_date y m d \<longrightarrow>
        (\<exists>es. map_of (row_errors (errors (parse rbc_format (csv_file_text (hl # ls)) a n))) j = Some es
           \<and> ''Invalid date: '' @ r ! 2 \<in> set es))"
proof -
  have hdr: "split_on comma hl = expected_header rbc_format"
    using assms(2) by (simp add: rbc_format_def)
  have row: "map_row rbc_format a (split_on comma (ls ! j)) = rbc_map_row a r"
    using assms(4) by (simp add: rbc_format_def)
  note err = parse_row_error_at [OF assms(1) hdr assms(3), of a n, unfolded row]
  note drafts = parse_row_draft_at [OF assms(1) hdr assms(3), of a, unfolded row]
  show ?thesis
  proof (cases "valid_date y m d \<and> \<not> is_blank (r ! 4) \<and> read_decimal (rbc_amount_text a r) \<noteq> None")
    case True
    then have "rbc_map_row a r = Inr \<lparr>account_id = acct_id a, created_at = epoch_day y m d * ms_per_day,
               description = r ! 4 @ '' - '' @ r ! 4, amount = the (read_decimal (rbc_amount_text a r))\<rparr>"
      using rbc_map_row_dated [OF assms(5,6), of a] by simp
    with err drafts [OF this, of n] True show ?thesis by (auto simp: draft.truncate_def)
  next
    case False
    with err rbc_map_row_dated [OF assms(5,6), of a] show ?thesis by auto
  qed
qed

lemma bad_date_line_fields:
  "length (split_on comma (bad_date_lines ! 1)) = 8"
  "split_on comma (bad_date_lines ! 1) ! 2 = show_nat 2 @ ''/'' @ show_nat 30 @ ''/'' @ show_nat 2018"
  "\<not> valid_date 2018 2 30"
proof -
  have s: "show_nat 2 = ''2''" "show_nat 30 = ''30''" "show_nat 2018 = ''2018''"
    by code_simp+
  show "length (split_on comma (bad_date_lines ! 1)) = 8"
    and "split_on comma (bad_date_lines ! 1) ! 2 = show_nat 2 @ ''/'' @ show_nat 30 @ ''/'' @ show_nat 2018"
    by (simp_all add: s bad_date_lines_def rbc_csv_data_def)
  show "\<not> valid_date 2018 2 30" by (simp add: valid_date_def month_lengths_def leap_year_def)
qed

theorem rbc_row_accepted_iff_witness:
  "plain_lines (hd rbc_csv_data # bad_date_lines)
   \<and> split_on comma (hd rbc_csv_data) = rbc_header
   \<and> 1 < length bad_date_lines
   \<and> length (split_on comma (bad_date_lines ! 1)) = 8
   \<and> split_on comma (bad_date_lines ! 1) ! 2 = show_nat 2 @ ''/'' @ show_nat 30 @ ''/'' @ show_nat 2018
   \<and> \<not> valid_date 2018 2 30
   \<and> (\<exists>es. map_of (row_errors (errors (parse rbc_format (csv_file_text (hd rbc_csv_data # bad_date_lines))
          test_account 0))) 1 = Some es
        \<and> ''Invalid date: '' @ split_on comma (bad_date_lines ! 1) ! 2 \<in> set es)"
proof -
  have hdr: "split_on comma (hd rbc_csv_data) = rbc_header"
    using fixture_header by (simp add: rbc_format_def)
  have j: "1 < length bad_date_lines" using bad_date_lines_facts(2) by simp
  from rbc_row_accepted_iff [OF bad_date_lines_facts(1) hdr j refl bad_date_line_fields(1,2),
      of test_account 0]
  show ?thesis using bad_date_lines_facts(1) hdr j bad_date_line_fields by blast
qed

subsection \<open>Empty files, header-only files and a final newline\<close>

lemma csv_file_text_snoc_empty:
  assumes "ls \<noteq> []"
  shows "csv_file_text (ls @ [[]]) = csv_file_text ls @ [newline]"
proof -
  obtain ys y where "ls = ys @ [y]" using assms by (metis rev_exhaust)
  moreover have "join [newline] ((ys @ [y]) @ [[]]) = concat (map (\<lambda>z. z @ [newline]) (ys @ [y])) @ []"
    by (rule join_snoc)
  ultimately show ?thesis by (simp add: csv_file_text_def join_snoc)
qed

lemma csv_file_text_last:
  assumes "ls \<noteq> []" and "last ls \<noteq> []"
  shows "csv_file_text ls \<noteq> [] \<and> last (csv_file_text ls) = last (last ls)"
proof -
  obtain ys y where "ls = ys @ [y]" using assms(1) by (metis rev_exhaust)
  with assms(2) show ?thesis by (simp add: csv_file_text_def join_snoc)
qed

text \<open>
  C28: a file that ends with a newline, as exported statements usually do (the test's
  lines joined with a final empty line), parses exactly as the same file without it: the
  final newline adds no empty row, so no spurious row error and no extra transaction.
\<close>

theorem parse_final_newline:
  assumes "ls \<noteq> []" and "last ls \<noteq> []" and "last (last ls) \<noteq> newline"
  shows "parse p (csv_file_text (ls @ [[]])) a n = parse p (csv_file_text ls) a n"
proof -
  have "csv_file_text ls \<noteq> []" and "last (csv_file_text ls) \<noteq> newline"
    using csv_file_text_last [OF assms(1,2)] assms(3) by simp_all
  from tokenize_final_newline [OF this] show ?thesis
    by (simp add: csv_file_text_snoc_empty [OF assms(1)] parse_def)
qed

theorem parse_final_newline_witness:
  "rbc_csv_data \<noteq> [] \<and> last rbc_csv_data \<noteq> [] \<and> last (last rbc_csv_data) \<noteq> newline
   \<and> parse rbc_format (csv_file_text (rbc_csv_data @ [[]])) test_account 0 =
     parse rbc_format (csv_file_text rbc_csv_data) test_account 0"
proof -
  have h: "rbc_csv_data \<noteq> []" "last rbc_csv_data \<noteq> []" "last (last rbc_csv_data) \<noteq> newline"
    by (simp_all add: rbc_csv_data_def)
  from parse_final_newline [OF h] h show ?thesis by simp
qed

text \<open>
  C29: the empty file is rejected as a whole with the single base error ``The file is
  empty''; a file holding only the format's header line is accepted with no transaction,
  no base error and no row error.
\<close>

theorem parse_empty_and_header_only:
  assumes "plain_lines [hl]" and "split_on comma hl = expected_header p"
  shows "parse p (csv_file_text []) a n = fail_result [''The file is empty'']
    \<and> parse p (csv_file_text [hl]) a n = \<lparr>transactions = [], errors = \<lparr>base = [], row_errors = []\<rparr>\<rparr>"
proof -
  have "tokenize [] = Inr []" by (simp add: tokenize_def lex_init_def lex_finish_def)
  then have "parse p (csv_file_text []) a n = fail_result [''The file is empty'']"
    by (simp add: csv_file_text_def parse_empty)
  moreover have "parse p (csv_file_text [hl]) a n = \<lparr>transactions = [], errors = \<lparr>base = [], row_errors = []\<rparr>\<rparr>"
    using parse_plain_good [OF assms, of a n] by (simp add: csv_file_text_def)
  ultimately show ?thesis ..
qed

theorem parse_empty_and_header_only_witness:
  "plain_lines [hd rbc_csv_data] \<and> split_on comma (hd rbc_csv_data) = expected_header rbc_format
   \<and> parse rbc_format (csv_file_text [hd rbc_csv_data]) test_account 0 =
       \<lparr>transactions = [], errors = \<lparr>base = [], row_errors = []\<rparr>\<rparr>"
proof -
  have h: "plain_lines [hd rbc_csv_data]" by (simp add: plain_lines_def rbc_csv_data_def)
  from parse_empty_and_header_only [OF h fixture_header, of test_account 0] h fixture_header
  show ?thesis by simp
qed

end
