(* ===== verification/Store.thy ===== *)
theory Store
  imports Parser_Contract
begin

text \<open>
  The parts of the Redux store and of the router that the screens under \<open>src/core\<close>
  read and write. An account of the store extends the parser's account (\<open>acct\<close>: id and
  currency) with the fields the account form edits; \<open>accounts.byId\<close> and
  \<open>accounts.byInstitution\<close> are association lists in key order, as JavaScript objects
  iterate their keys. The screens never mutate the store: they dispatch actions
  (\<open>addTransactions\<close>, \<open>updateAccount\<close>, \<open>deleteAccount\<close>, whose reducers are not in the
  snapshot) and push routes, and both are effects, recorded in the order the handlers
  perform them. \<open>root_reducer\<close> is \<open>combineReducers\<close> of \<open>src/store/rootReducer.js\<close>:
  each slice of the state goes through its own reducer.
\<close>

record account = acct +
  name :: string
  institution :: string
  opening_balance :: rat
  opening_balance_date :: int
  current_balance :: rat

record institution_group =
  balance :: rat
  account_ids :: "nat list"

record accounts_state =
  by_id :: "(nat \<times> account) list"
  by_institution :: "(string \<times> institution_group) list"

text \<open>The settings slice as the screens read it: \<open>settings.locale\<close> and \<open>settings.currency\<close>, which may be undefined.\<close>

record settings_state =
  settings_locale :: string
  settings_currency :: "string option"

text \<open>
  The object the account form hands to \<open>handleSave\<close>: the fields spread from the edited
  account (\<open>None\<close> for a new account) and the form's fields, each \<open>None\<close> where
  JavaScript has \<open>undefined\<close> or \<open>NaN\<close>.
\<close>

record account_input =
  in_account :: "account option"
  in_name :: string
  in_institution :: "string option"
  in_opening_balance :: "rat option"
  in_opening_balance_date :: "int option"
  in_currency :: "string option"

datatype store_action =
    AddTransactions account "transaction list"
  | UpdateAccount account_input
  | DeleteAccount "account option"

datatype effect = Dispatch store_action | Navigate string

text \<open>The route \<open>/accounts/${id}/transactions\<close> of an account.\<close>

definition transactions_path :: "nat \<Rightarrow> string" where
  "transactions_path i = ''/accounts/'' @ show_nat i @ ''/transactions''"

text \<open>An id interpolated into a route: its digits, or \<open>undefined\<close>.\<close>

definition id_text :: "nat option \<Rightarrow> string" where
  "id_text i = (case i of None \<Rightarrow> ''undefined'' | Some n \<Rightarrow> show_nat n)"

definition dispatched :: "effect list \<Rightarrow> store_action list" where
  "dispatched es = [a. Dispatch a \<leftarrow> es]"

subsection \<open>The root reducer\<close>

record ('u, 's, 'a, 't, 'm) root_state =
  user :: 'u
  settings :: 's
  accounts :: 'a
  transactions_slice :: 't
  market_values :: 'm

record ('u, 's, 'a, 't, 'm, 'act) slice_reducers =
  user_reducer :: "'u \<Rightarrow> 'act \<Rightarrow> 'u"
  settings_reducer :: "'s \<Rightarrow> 'act \<Rightarrow> 's"
  accounts_reducer :: "'a \<Rightarrow> 'act \<Rightarrow> 'a"
  transactions_reducer :: "'t \<Rightarrow> 'act \<Rightarrow> 't"
  market_values_reducer :: "'m \<Rightarrow> 'act \<Rightarrow> 'm"

definition root_reducer ::
  "('u, 's, 'a, 't, 'm, 'act) slice_reducers \<Rightarrow> ('u, 's, 'a, 't, 'm) root_state \<Rightarrow> 'act
   \<Rightarrow> ('u, 's, 'a, 't, 'm) root_state" where
  "root_reducer r s act =
     \<lparr>user = user_reducer r (user s) act,
      settings = settings_reducer r (settings s) act,
      accounts = accounts_reducer r (accounts s) act,
      transactions_slice = transactions_reducer r (transactions_slice s) act,
      market_values = market_values_reducer r (market_values s) act\<rparr>"

lemma transactions_path_inj [simp]: "transactions_path i = transactions_path j \<longleftrightarrow> i = j"
  by (simp add: transactions_path_def)

lemma dispatched_simps [simp]:
  "dispatched [] = []" "dispatched (Dispatch a # es) = a # dispatched es"
  "dispatched (Navigate p # es) = dispatched es" "dispatched (es @ fs) = dispatched es @ dispatched fs"
  by (simp_all add: dispatched_def)

end
