(* ===== verification/Import_Screen.thy ===== *)
theory Import_Screen
  imports Store Csv_Parser
begin

text \<open>
  The import screen, \<open>src/core/Accounts/ImportTransactions/index.jsx\<close>. Its component
  state is \<open>{showTransactions, transactions, errors}\<close> (\<open>import_state\<close>; the initial
  \<open>errors: {}\<close> is \<open>None\<close>). Its handlers are state transformers and effect lists:
  \<open>handleParsedData\<close> stores a parse result and switches to the review panel,
  \<open>handleSave\<close> dispatches \<open>addTransactions(account, transactions)\<close> and then navigates
  to the account's transactions, \<open>handleCancel\<close> only navigates. \<open>render\<close> shows the CSV
  form before a result arrives (for the import type \<open>CSV\<close> only) and the results panel
  after. The form itself (\<open>CsvImportForm\<close>, not in the snapshot) reads the chosen file,
  runs the chosen parser for the screen's account and calls \<open>handleParsedData\<close>; it is
  modelled from the spec as \<open>csv_form_submit\<close>. \<open>import_reach\<close> is the set of states
  the screen reaches when its events come from that form and from its two buttons.
\<close>

record route_params =
  route_account_id :: nat
  import_type :: string

definition import_map_state :: "accounts_state \<Rightarrow> route_params \<Rightarrow> account option" where
  "import_map_state st ps = map_of (by_id st) (route_account_id ps)"

definition save_transactions :: "account \<Rightarrow> transaction list \<Rightarrow> effect" where
  "save_transactions a ts = Dispatch (AddTransactions a ts)"

record import_state =
  show_transactions :: bool
  imported :: "transaction list"
  import_errors :: "error_set option"

definition import_initial :: import_state where
  "import_initial = \<lparr>show_transactions = False, imported = [], import_errors = None\<rparr>"

definition handle_save :: "account \<Rightarrow> import_state \<Rightarrow> effect list" where
  "handle_save a st = [save_transactions a (imported st), Navigate (transactions_path (acct_id a))]"

definition handle_cancel :: "account \<Rightarrow> effect list" where
  "handle_cancel a = [Navigate (transactions_path (acct_id a))]"

definition handle_parsed_data :: "transaction list \<Rightarrow> error_set \<Rightarrow> import_state \<Rightarrow> import_state" where
  "handle_parsed_data ts es st = st\<lparr>show_transactions := True, imported := ts, import_errors := Some es\<rparr>"

datatype import_event = ParsedData "transaction list" error_set | SaveClicked | CancelClicked

fun import_step :: "account \<Rightarrow> import_state \<Rightarrow> import_event \<Rightarrow> import_state \<times> effect list" where
  "import_step a st (ParsedData ts es) = (handle_parsed_data ts es st, [])"
| "import_step a st SaveClicked = (st, handle_save a st)"
| "import_step a st CancelClicked = (st, handle_cancel a)"

fun import_run :: "account \<Rightarrow> import_state \<Rightarrow> import_event list \<Rightarrow> import_state \<times> effect list" where
  "import_run a st [] = (st, [])"
| "import_run a st (e # es) =
     (let (st', fx) = import_step a st e; (st'', fx') = import_run a st' es in (st'', fx @ fx'))"

record import_view =
  heading :: string
  icon_institution :: string
  form_shown :: bool
  results_shown :: "(transaction list \<times> error_set option) option"

definition import_render :: "account \<Rightarrow> route_params \<Rightarrow> import_state \<Rightarrow> import_view" where
  "import_render a ps st =
     \<lparr>heading = ''Import transactions from '' @ import_type ps,
      icon_institution = institution a,
      form_shown = (\<not> show_transactions st \<and> import_type ps = ''CSV''),
      results_shown = (if show_transactions st then Some (imported st, import_errors st) else None)\<rparr>"

text \<open>
  The events the rendered screen can deliver: \<open>CsvImportForm\<close> (shown with the form) calls
  \<open>handleParsedData\<close> and \<open>onCancel\<close>; \<open>ImportResults\<close> (shown with the results) calls
  \<open>onSave\<close> and \<open>onCancel\<close>.
\<close>

definition import_enabled :: "account \<Rightarrow> route_params \<Rightarrow> import_state \<Rightarrow> import_event \<Rightarrow> bool" where
  "import_enabled a ps st ev =
     (let v = import_render a ps st in
      case ev of
        ParsedData _ _ \<Rightarrow> form_shown v
      | SaveClicked \<Rightarrow> results_shown v \<noteq> None
      | CancelClicked \<Rightarrow> form_shown v \<or> results_shown v \<noteq> None)"

text \<open>
  The connected screen, \<open>withRouter(connect(mapStateToProps, mapDispatchToProps)(...))\<close>:
  the route's account is looked up in the store and the component rendered with it; for an
  id the store does not hold, \<open>account\<close> is \<open>undefined\<close> and \<open>render\<close> throws at
  \<open>account.institution\<close> (\<open>None\<close>).
\<close>

definition import_screen ::
  "('u, 's, accounts_state, 't, 'm) root_state \<Rightarrow> route_params \<Rightarrow> import_state \<Rightarrow> import_view option" where
  "import_screen r ps st =
     (case import_map_state (accounts r) ps of None \<Rightarrow> None | Some a \<Rightarrow> Some (import_render a ps st))"

definition csv_form_submit :: "csv_format \<Rightarrow> string \<Rightarrow> account \<Rightarrow> nat \<Rightarrow> import_event" where
  "csv_form_submit p text a n =
     (let r = parse p text (acct.truncate a) n in ParsedData (transactions r) (errors r))"

inductive import_reach :: "csv_format \<Rightarrow> account \<Rightarrow> import_state \<Rightarrow> bool" for p a where
  start: "import_reach p a import_initial"
| parsed: "import_reach p a st \<Longrightarrow> import_reach p a (fst (import_step a st (csv_form_submit p text a n)))"
| save: "import_reach p a st \<Longrightarrow> import_reach p a (fst (import_step a st SaveClicked))"
| cancel: "import_reach p a st \<Longrightarrow> import_reach p a (fst (import_step a st CancelClicked))"

subsection \<open>The screen's specification\<close>

text \<open>
  What the screen promises, without its component state: it is either choosing a file or
  reviewing a parse result; a result puts it in review, Save saves exactly the transactions
  under review (none while choosing) and leaves, Cancel leaves. \<open>phase_of\<close> is the
  refinement mapping from the component's state.
\<close>

datatype import_phase = Choosing | Reviewing "transaction list" error_set

fun reviewed :: "import_phase \<Rightarrow> transaction list" where
  "reviewed Choosing = []"
| "reviewed (Reviewing ts es) = ts"

fun phase_step :: "account \<Rightarrow> import_phase \<Rightarrow> import_event \<Rightarrow> import_phase \<times> effect list" where
  "phase_step a ph (ParsedData ts es) = (Reviewing ts es, [])"
| "phase_step a ph SaveClicked =
     (ph, [Dispatch (AddTransactions a (reviewed ph)), Navigate (transactions_path (acct_id a))])"
| "phase_step a ph CancelClicked = (ph, [Navigate (transactions_path (acct_id a))])"

fun phase_run :: "account \<Rightarrow> import_phase \<Rightarrow> import_event list \<Rightarrow> import_phase \<times> effect list" where
  "phase_run a ph [] = (ph, [])"
| "phase_run a ph (e # es) =
     (let (ph', fx) = phase_step a ph e; (ph'', fx') = phase_run a ph' es in (ph'', fx @ fx'))"

definition phase_of :: "import_state \<Rightarrow> import_phase" where
  "phase_of st =
     (if show_transactions st
      then Reviewing (imported st) (case import_errors st of Some es \<Rightarrow> es | None \<Rightarrow> \<lparr>base = [], row_errors = []\<rparr>)
      else Choosing)"

text \<open>An account for the witnesses.\<close>

definition demo_account :: account where
  "demo_account =
     \<lparr>acct_id = 1, acct_currency = ''CAD'', name = ''Chequing'', institution = ''RBC'',
      opening_balance = 0, opening_balance_date = 0, current_balance = 0\<rparr>"

subsection \<open>The screen's invariant\<close>

text \<open>
  What a reachable state keeps: before a result the screen holds nothing, a stored result
  is one the parser produced for this account (every transaction the account's, ids
  distinct), and base errors come without transactions.
\<close>

definition import_inv :: "account \<Rightarrow> import_state \<Rightarrow> bool" where
  "import_inv a st \<longleftrightarrow>
     (\<not> show_transactions st \<longrightarrow> imported st = [] \<and> import_errors st = None)
     \<and> (\<forall>t\<in>set (imported st). account_id t = acct_id a)
     \<and> distinct (map txn_id (imported st))
     \<and> (\<forall>es. import_errors st = Some es \<longrightarrow> base es \<noteq> [] \<longrightarrow> imported st = [])"

lemma acct_id_truncate [simp]: "acct_id (acct.truncate a) = acct_id a"
  by (simp add: acct.truncate_def)

lemma import_inv_init: "import_inv a import_initial"
  by (simp add: import_inv_def import_initial_def)

lemma import_inv_parsed:
  assumes "stamps_account p"
  shows "import_inv a (fst (import_step a st (csv_form_submit p text a n)))"
  using parse_transactions_ok [OF assms, of "text" "acct.truncate a" n]
    parse_base_exclusive [of p "text" "acct.truncate a" n]
  by (auto simp: import_inv_def csv_form_submit_def handle_parsed_data_def Let_def)

lemma import_reach_inv: "import_reach p a st \<Longrightarrow> stamps_account p \<Longrightarrow> import_inv a st"
  by (induction rule: import_reach.induct) (simp_all add: import_inv_init import_inv_parsed)

subsection \<open>The screen refines its specification\<close>

text \<open>The part of the invariant the refinement needs holds after every event, from any state.\<close>

definition choosing_empty :: "import_state \<Rightarrow> bool" where
  "choosing_empty st \<longleftrightarrow> (\<not> show_transactions st \<longrightarrow> imported st = [])"

lemma choosing_empty_step: "choosing_empty st \<Longrightarrow> choosing_empty (fst (import_step a st e))"
  by (cases e) (simp_all add: choosing_empty_def handle_parsed_data_def)

lemma import_step_refines:
  "choosing_empty st \<Longrightarrow>
   phase_of (fst (import_step a st e)) = fst (phase_step a (phase_of st) e)
   \<and> snd (import_step a st e) = snd (phase_step a (phase_of st) e)"
  by (cases e) (simp_all add: choosing_empty_def phase_of_def handle_parsed_data_def handle_save_def
      handle_cancel_def save_transactions_def)

lemma import_run_refines:
  "choosing_empty st \<Longrightarrow>
   phase_of (fst (import_run a st es)) = fst (phase_run a (phase_of st) es)
   \<and> snd (import_run a st es) = snd (phase_run a (phase_of st) es)"
proof (induction es arbitrary: st)
  case Nil
  then show ?case by simp
next
  case (Cons e es)
  from import_step_refines [OF Cons.prems, of a e] Cons.IH [OF choosing_empty_step [OF Cons.prems, of a e]]
  show ?case by (simp add: case_prod_beta)
qed

text \<open>
  C26: every run of the import screen from its initial state, over any sequence of events,
  is a run of its specification: the mapped state is the specification's phase and the
  effects (dispatches and navigations, in order) are the specification's effects.
\<close>

theorem import_screen_refines_spec:
  "phase_of (fst (import_run a import_initial es)) = fst (phase_run a Choosing es)
   \<and> snd (import_run a import_initial es) = snd (phase_run a Choosing es)"
proof -
  have "choosing_empty import_initial" and "phase_of import_initial = Choosing"
    by (simp_all add: choosing_empty_def import_initial_def phase_of_def)
  with import_run_refines [of import_initial a es] show ?thesis by simp
qed

subsection \<open>Leaving the screen\<close>

text \<open>
  C24: on a CSV import, every state of the screen offers a control whose event leaves it:
  \<open>Cancel\<close> is always rendered (by the form before a result, by the results panel after)
  and navigates back to the account's transactions.
\<close>

theorem import_can_always_leave:
  assumes "import_type ps = ''CSV''"
  shows "import_enabled a ps st CancelClicked
    \<and> snd (import_step a st CancelClicked) = [Navigate (transactions_path (acct_id a))]"
  using assms by (simp add: import_enabled_def import_render_def handle_cancel_def)

theorem import_can_always_leave_witness:
  "import_type \<lparr>route_account_id = 1, import_type = ''CSV''\<rparr> = ''CSV''
   \<and> import_enabled demo_account \<lparr>route_account_id = 1, import_type = ''CSV''\<rparr> import_initial CancelClicked"
  using import_can_always_leave [of "\<lparr>route_account_id = 1, import_type = ''CSV''\<rparr>" demo_account import_initial]
  by simp

text \<open>
  C25: for any other import type the screen's first state renders neither the form nor the
  results, so it offers no control at all: no event can be delivered and the user cannot
  import, save or cancel from it.
\<close>

theorem import_non_csv_stuck:
  assumes "import_type ps \<noteq> ''CSV''"
  shows "\<not> import_enabled a ps import_initial ev"
  using assms
  by (cases ev) (simp_all add: import_enabled_def import_render_def import_initial_def)

theorem import_non_csv_stuck_witness:
  "import_type \<lparr>route_account_id = 1, import_type = ''OFX''\<rparr> \<noteq> ''CSV''
   \<and> \<not> import_enabled demo_account \<lparr>route_account_id = 1, import_type = ''OFX''\<rparr> import_initial CancelClicked"
  using import_non_csv_stuck [of "\<lparr>route_account_id = 1, import_type = ''OFX''\<rparr>" demo_account CancelClicked]
  by simp

end
