(* ===== verification/Date_Text.thy ===== *)
theory Date_Text
  imports Calendar
begin

text \<open>
  The two date-fns (version 1) calls of \<open>src/core/Accounts/form.jsx\<close>:
  \<open>format(ms, 'YYYY-MM-DD')\<close> (lines 216 and 225), which prints the day of a timestamp with
  the year padded to four digits and month and day to two, and \<open>parse(text).getTime()\<close>
  (line 256), which reads an ISO date \<open>YYYY\<close>, \<open>YYYY-MM\<close>, \<open>YYYY-MM-DD\<close> or
  \<open>YYYYMMDD\<close> as midnight of that day through \<open>setUTCFullYear(year, month - 1, day)\<close>, so
  out-of-range months and days roll over. The remaining ISO forms (ordinal and week dates,
  times, years of more than four digits) and date-fns' fallback to the native
  \<open>Date\<close> parser are not modelled: they give \<open>None\<close>, as Invalid Date does
  (\<open>getTime()\<close> is then \<open>NaN\<close>). A date input only ever holds the empty text or a
  \<open>YYYY-MM-DD\<close> date, and the form's own values are printed by \<open>format\<close>.
  The lemmas show the two roundtrips the form relies on: text of a valid date read and
  printed again is the same text, and a timestamp printed and read again is the midnight
  starting its day, for the years 0000 to 9999; and that the rollover is real: the day after
  a month's last day reads as the first of the next month.
\<close>

definition pad :: "nat \<Rightarrow> nat \<Rightarrow> string" where
  "pad w n = replicate (w - length (show_nat n)) (CHR ''0'') @ show_nat n"

text \<open>
  date-fns' \<open>addLeadingZeros\<close>, the loop
  \<open>while (output.length < targetLength) output = '0' + output\<close>, as it is written:
  a loop with no termination argument in its definition (\<open>None\<close> would be a loop that
  never ends). \<open>pad\<close> is its closed form; \<open>add_leading_zeros_returns\<close> shows the loop
  always ends with it.
\<close>

partial_function (option) add_leading_zeros :: "nat \<Rightarrow> string \<Rightarrow> string option" where
  "add_leading_zeros w s = (if length s < w then add_leading_zeros w (CHR ''0'' # s) else Some s)"

definition ymd_text :: "nat \<Rightarrow> nat \<Rightarrow> nat \<Rightarrow> string" where
  "ymd_text y m d = pad 4 y @ ''-'' @ pad 2 m @ ''-'' @ pad 2 d"

definition format_ymd :: "int \<Rightarrow> string" where
  "format_ymd t = (case ymd_of_days (t div ms_per_day) of (y, m, d) \<Rightarrow> ymd_text (nat \<bar>y\<bar>) m d)"

definition two_digits :: "string \<Rightarrow> nat option" where
  "two_digits s = (if length s = 2 then read_nat s else None)"

definition drop_dash :: "string \<Rightarrow> string" where
  "drop_dash s = (case s of c # cs \<Rightarrow> if c = CHR ''-'' then cs else s | [] \<Rightarrow> [])"

definition parse_ymd :: "string \<Rightarrow> int option" where
  "parse_ymd s =
     (let ys = take 4 s; rest = drop 4 s
      in if length ys = 4 \<and> list_all is_digit ys then
           (let y = int (digits_val ys) in
            if rest = [] then Some (civil_days y 1 1 * ms_per_day)
            else if length rest = 3 \<and> hd rest = CHR ''-'' then
              (case two_digits (tl rest) of
                 Some m \<Rightarrow> Some (civil_days y (int m) 1 * ms_per_day)
               | None \<Rightarrow> None)
            else
              (let t = drop_dash rest in
               case (two_digits (take 2 t), two_digits (drop_dash (drop 2 t))) of
                 (Some m, Some d) \<Rightarrow> Some (civil_days y (int m) (int d) * ms_per_day)
               | _ \<Rightarrow> None))
         else None)"

subsection \<open>Padded numbers\<close>

lemma show_nat_length: "n < 10 ^ w \<Longrightarrow> 1 \<le> w \<Longrightarrow> length (show_nat n) \<le> w"
proof (induction n arbitrary: w rule: show_nat.induct)
  case (1 n)
  show ?case
  proof (cases "n < 10")
    case True
    with "1.prems" show ?thesis by (simp add: show_nat.simps [of n])
  next
    case False
    then obtain w' where w: "w = Suc w'" using "1.prems" by (cases w) auto
    have "n div 10 < 10 ^ w'" using "1.prems"(1) w by (simp add: div_less_iff_less_mult mult.commute)
    moreover have "1 \<le> w'" using False "1.prems"(1) w by (cases w') auto
    ultimately have "length (show_nat (n div 10)) \<le> w'" using "1.IH" False by simp
    with False w show ?thesis by (simp add: show_nat.simps [of n])
  qed
qed

lemma digits_val_zeros: "digits_val (replicate k (CHR ''0'') @ s) = digits_val s"
proof -
  have zeros: "digits_val (replicate k (CHR ''0'')) = 0"
  proof (induction k)
    case 0
    then show ?case by (simp add: digits_val_def)
  next
    case (Suc k)
    have "replicate (Suc k) (CHR ''0'') = replicate k (CHR ''0'') @ [CHR ''0'']"
      by (simp add: replicate_append_same)
    with Suc show ?case by (simp add: digit_val_def)
  qed
  have "digits_val (a @ b) = foldl (\<lambda>n c. 10 * n + digit_val c) (digits_val a) b" for a b
    by (simp add: digits_val_def)
  with zeros show ?thesis by (simp add: digits_val_def)
qed

lemma is_digit_zero [simp]: "is_digit (CHR ''0'')"
  by (simp add: is_digit_def)

lemma pad_is_digits: "pad w n \<noteq> [] \<and> list_all is_digit (pad w n) \<and> digits_val (pad w n) = n"
  using show_nat_digits [of n] by (auto simp: pad_def digits_val_zeros list_all_iff)

lemma pad_digits:
  assumes "n < 10 ^ w" and "1 \<le> w"
  shows "length (pad w n) = w \<and> list_all is_digit (pad w n) \<and> digits_val (pad w n) = n"
  using show_nat_length [OF assms] show_nat_digits [of n]
  by (auto simp: pad_def digits_val_zeros list_all_iff)

lemma two_digits_pad: "n < 100 \<Longrightarrow> two_digits (pad 2 n) = Some n"
  using pad_digits [of n 2] by (auto simp: two_digits_def read_nat_def)

lemma month_length_le_31: "1 \<le> m \<Longrightarrow> m \<le> 12 \<Longrightarrow> month_lengths_int y ! (m - 1) \<le> 31"
  by (auto simp: month_lengths_int_def nth_Cons' split: if_splits)

subsection \<open>Printing and reading back\<close>

lemma parse_ymd_text:
  assumes "y < 10000" and "m < 100" and "d < 100"
  shows "parse_ymd (ymd_text y m d) = Some (civil_days (int y) (int m) (int d) * ms_per_day)"
proof -
  have y: "length (pad 4 y) = 4 \<and> list_all is_digit (pad 4 y) \<and> digits_val (pad 4 y) = y"
    using assms(1) by (intro pad_digits) simp_all
  have m: "length (pad 2 m) = 2" "two_digits (pad 2 m) = Some m"
    using assms(2) pad_digits [of m 2] two_digits_pad by simp_all
  have d: "length (pad 2 d) = 2" "two_digits (pad 2 d) = Some d"
    using assms(3) pad_digits [of d 2] two_digits_pad by simp_all
  have rest: "drop 4 (ymd_text y m d) = CHR ''-'' # pad 2 m @ CHR ''-'' # pad 2 d"
    and ys: "take 4 (ymd_text y m d) = pad 4 y"
    using y by (simp_all add: ymd_text_def)
  have "take 2 (pad 2 m @ CHR ''-'' # pad 2 d) = pad 2 m"
    and "drop 2 (pad 2 m @ CHR ''-'' # pad 2 d) = CHR ''-'' # pad 2 d"
    using m(1) by simp_all
  with y m d show ?thesis
    by (simp add: parse_ymd_def Let_def rest ys drop_dash_def)
qed

lemma format_civil_days:
  assumes "1 \<le> m" and "m \<le> 12" and "1 \<le> d" and "d \<le> month_lengths_int y ! (m - 1)"
    and "0 \<le> r" and "r < ms_per_day"
  shows "format_ymd (civil_days y (int m) (int d) * ms_per_day + r) = ymd_text (nat \<bar>y\<bar>) m d"
proof -
  have "(civil_days y (int m) (int d) * ms_per_day + r) div ms_per_day = civil_days y (int m) (int d)"
    using assms(5,6) by (simp add: ms_per_day_def)
  with ymd_of_civil_days [OF assms(1-4)] show ?thesis by (simp add: format_ymd_def)
qed

text \<open>Text of a valid date, read and printed again, is the same text.\<close>

lemma ymd_text_roundtrip:
  assumes "valid_date y m d" and "y < 10000"
  shows "parse_ymd (ymd_text y m d) = Some (epoch_day y m d * ms_per_day)
    \<and> format_ymd (epoch_day y m d * ms_per_day) = ymd_text y m d"
proof -
  have v: "1 \<le> m" "m \<le> 12" "1 \<le> d" "d \<le> month_lengths_int (int y) ! (m - 1)"
    using assms(1) by (simp_all add: valid_date_def month_lengths_int_nat)
  then have "d \<le> 31" using month_length_le_31 [of m "int y"] by simp
  then have p: "parse_ymd (ymd_text y m d) = Some (civil_days (int y) (int m) (int d) * ms_per_day)"
    using assms(2) v(2) by (intro parse_ymd_text) simp_all
  have "format_ymd (civil_days (int y) (int m) (int d) * ms_per_day + 0) = ymd_text y m d"
    using format_civil_days [OF v, of 0] by (simp add: ms_per_day_def)
  with p v show ?thesis by (simp add: epoch_day_civil)
qed

text \<open>The day of a timestamp of the years 0000 to 9999 has a four-digit year.\<close>

lemma ymd_of_days_range:
  assumes "year_start 0 \<le> k" and "k < year_start 10000" and "ymd_of_days k = (y, m, d)"
  shows "civil_days y (int m) (int d) = k \<and> 0 \<le> y \<and> y < 10000 \<and> 1 \<le> m \<and> m \<le> 12 \<and> 1 \<le> d \<and> d \<le> 31"
proof -
  from civil_days_ymd [OF assms(3)] have c: "civil_days y (int m) (int d) = k"
    and v: "1 \<le> m" "m \<le> 12" "1 \<le> d" "d \<le> month_lengths_int y ! (m - 1)"
    by simp_all
  from civil_days_in_year [OF v] c assms(1) have "0 \<le> y"
    using year_start_mono [of "y + 1" 0] by (cases "0 \<le> y") auto
  moreover from civil_days_in_year [OF v] c assms(2) have "y < 10000"
    using year_start_mono [of 10000 y] by (cases "y < 10000") auto
  moreover have "d \<le> 31" using v month_length_le_31 [of m y] by simp
  ultimately show ?thesis using c v by simp
qed

text \<open>A timestamp of the years 0000 to 9999, printed and read again, is the midnight of its day.\<close>

lemma format_ymd_roundtrip:
  assumes "year_start 0 \<le> t div ms_per_day" and "t div ms_per_day < year_start 10000"
  shows "parse_ymd (format_ymd t) = Some (t div ms_per_day * ms_per_day)"
proof -
  obtain y m d where ymd: "ymd_of_days (t div ms_per_day) = (y, m, d)"
    by (metis prod.exhaust)
  from ymd_of_days_range [OF assms ymd]
  have c: "civil_days y (int m) (int d) = t div ms_per_day" and "0 \<le> y" "y < 10000" "m \<le> 12" "d \<le> 31"
    by simp_all
  then have "parse_ymd (ymd_text (nat \<bar>y\<bar>) m d) = Some (civil_days y (int m) (int d) * ms_per_day)"
    using parse_ymd_text [of "nat \<bar>y\<bar>" m d] by simp
  with ymd c show ?thesis by (simp add: format_ymd_def)
qed

subsection \<open>The opening balance date through the form\<close>

text \<open>
  C15: for a timestamp of the years 0000 to 9999, the text the account form shows for it
  (\<open>format\<close>) reads back (\<open>parse\<close>) as the midnight that starts its day, and printing
  that again gives the same text: the date field is stable under every save.
\<close>

theorem date_field_roundtrip:
  assumes "year_start 0 \<le> t div ms_per_day" and "t div ms_per_day < year_start 10000"
  shows "parse_ymd (format_ymd t) = Some (t div ms_per_day * ms_per_day)
    \<and> format_ymd (t div ms_per_day * ms_per_day) = format_ymd t"
proof -
  have "(t div ms_per_day * ms_per_day) div ms_per_day = t div ms_per_day"
    by (simp add: ms_per_day_def)
  with format_ymd_roundtrip [OF assms] show ?thesis by (simp add: format_ymd_def)
qed

theorem date_field_roundtrip_witness:
  "year_start 0 \<le> 1529884800000 div ms_per_day \<and> 1529884800000 div ms_per_day < year_start 10000
   \<and> parse_ymd (format_ymd 1529884800000) = Some 1529884800000"
proof -
  have b: "year_start 0 \<le> 1529884800000 div ms_per_day" "1529884800000 div ms_per_day < year_start 10000"
    by (simp_all add: year_start_def leaps_def ms_per_day_def)
  from date_field_roundtrip [OF b] b show ?thesis by (simp add: ms_per_day_def)
qed

text \<open>
  C22: the text the account form shows for a timestamp of the years 0000 to 9999 is always
  ten characters, \<open>YYYY-MM-DD\<close>: four digits of year, two of month and two of day.
\<close>

theorem format_ymd_length:
  assumes "year_start 0 \<le> t div ms_per_day" and "t div ms_per_day < year_start 10000"
  shows "length (format_ymd t) = 10"
proof -
  obtain y m d where ymd: "ymd_of_days (t div ms_per_day) = (y, m, d)"
    by (metis prod.exhaust)
  from ymd_of_days_range [OF assms ymd] have "nat \<bar>y\<bar> < 10000" "m < 100" "d < 100"
    by linarith+
  then have "length (pad 4 (nat \<bar>y\<bar>)) = 4" "length (pad 2 m) = 2" "length (pad 2 d) = 2"
    using pad_digits [of "nat \<bar>y\<bar>" 4] pad_digits [of m 2] pad_digits [of d 2] by simp_all
  with ymd show ?thesis by (simp add: format_ymd_def ymd_text_def)
qed

theorem format_ymd_length_witness:
  "year_start 0 \<le> 1529884800000 div ms_per_day \<and> 1529884800000 div ms_per_day < year_start 10000
   \<and> length (format_ymd 1529884800000) = 10"
proof -
  have b: "year_start 0 \<le> 1529884800000 div ms_per_day" "1529884800000 div ms_per_day < year_start 10000"
    by (simp_all add: year_start_def leaps_def ms_per_day_def)
  from format_ymd_length [OF b] b show ?thesis by simp
qed

subsection \<open>The padding loop ends\<close>

text \<open>
  date-fns' padding loop terminates on every input: from any text and any target width it
  returns, with the text preceded by exactly the zeros that bring it to the width (none
  when it is already as long); on the digits of a number this is \<open>pad\<close>, which is why
  \<open>format_ymd\<close> is written with \<open>pad\<close>.
\<close>

lemma add_leading_zeros_returns:
  "add_leading_zeros w s = Some (replicate (w - length s) (CHR ''0'') @ s)
   \<and> add_leading_zeros w (show_nat n) = Some (pad w n)"
proof -
  have loop: "add_leading_zeros w s = Some (replicate (w - length s) (CHR ''0'') @ s)" for s
  proof (induction "w - length s" arbitrary: s)
    case 0
    then show ?case by (simp add: add_leading_zeros.simps)
  next
    case (Suc k)
    then have k: "k = w - length (CHR ''0'' # s)" and lt: "length s < w" by simp_all
    have ih: "add_leading_zeros w (CHR ''0'' # s) =
        Some (replicate (w - Suc (length s)) (CHR ''0'') @ CHR ''0'' # s)"
      using Suc.hyps(1) [OF k] by simp
    have "w - length s = Suc (w - Suc (length s))" using lt by simp
    then have "replicate (w - Suc (length s)) (CHR ''0'') @ CHR ''0'' # s =
        replicate (w - length s) (CHR ''0'') @ s"
      by (simp add: replicate_app_Cons_same)
    with ih lt show ?case by (simp add: add_leading_zeros.simps [of w s])
  qed
  then show ?thesis by (simp add: pad_def)
qed

subsection \<open>Days outside the month\<close>

lemma civil_days_day: "civil_days y m d = civil_days y m 1 + (d - 1)"
  by (simp add: civil_days_def Let_def)

lemma civil_days_next_month:
  assumes "1 \<le> m" and "m \<le> 12"
  shows "civil_days y (int m + 1) 1 = civil_days y (int m) 1 + int (month_lengths_int y ! (m - 1))"
proof (cases "m = 12")
  case True
  have a: "civil_days y 13 1 = year_start (y + 1)"
    by (simp add: civil_days_def)
  have b: "civil_days y 12 1 = year_start y + int (sum_list (take 11 (month_lengths_int y)))"
    by (simp add: civil_days_def)
  have c: "year_len y = sum_list (take 11 (month_lengths_int y)) + month_lengths_int y ! 11"
    by (simp add: month_lengths_int_def year_len_def)
  from True have "int m + 1 = 13" "int m = 12" "m - 1 = 11" by simp_all
  with a b c show ?thesis by (simp add: year_start_step)
next
  case False
  with assms have "(int m + 1 - 1) div 12 = 0" "nat ((int m + 1 - 1) mod 12) = m"
    "(int m - 1) div 12 = 0" "nat ((int m - 1) mod 12) = m - 1" by simp_all
  moreover have "m - 1 < length (month_lengths_int y)" using assms by (simp add: month_lengths_int_def)
  then have "sum_list (take m (month_lengths_int y)) =
      sum_list (take (m - 1) (month_lengths_int y)) + month_lengths_int y ! (m - 1)"
    using assms(1) take_Suc_conv_app_nth [of "m - 1" "month_lengths_int y"] by simp
  ultimately show ?thesis by (simp add: civil_days_def)
qed

text \<open>
  date-fns' \<open>parse\<close> does not reject a day outside the month: the day after a month's
  last day reads as the first of the next month (of the next year after December), and day
  00 as the day before the first, as \<open>setUTCFullYear\<close> rolls them over.
\<close>

lemma parse_ymd_rollover:
  assumes "1 \<le> m" and "m \<le> 12" and "y < 9999"
  shows "parse_ymd (ymd_text y m (Suc (month_lengths y ! (m - 1)))) =
      parse_ymd (if m = 12 then ymd_text (Suc y) 1 1 else ymd_text y (Suc m) 1)
    \<and> map_option (\<lambda>t. t + ms_per_day) (parse_ymd (ymd_text y m 0)) = parse_ymd (ymd_text y m 1)"
proof -
  have L: "month_lengths y ! (m - 1) \<le> 31"
    using month_length_le_31 [OF assms(1,2), of "int y"] by (simp add: month_lengths_int_nat)
  then have p1: "parse_ymd (ymd_text y m (Suc (month_lengths y ! (m - 1)))) =
      Some (civil_days (int y) (int m) (int (Suc (month_lengths y ! (m - 1)))) * ms_per_day)"
    using assms by (intro parse_ymd_text) simp_all
  have nxt: "civil_days (int y) (int m) (int (Suc (month_lengths y ! (m - 1)))) =
      civil_days (int y) (int m + 1) 1"
    using civil_days_day [of "int y" "int m" "int (Suc (month_lengths y ! (m - 1)))"]
      civil_days_next_month [OF assms(1,2), of "int y"]
    by (simp add: month_lengths_int_nat)
  have "parse_ymd (if m = 12 then ymd_text (Suc y) 1 1 else ymd_text y (Suc m) 1) =
      Some (civil_days (int y) (int m + 1) 1 * ms_per_day)"
  proof (cases "m = 12")
    case True
    then show ?thesis using assms(3) parse_ymd_text [of "Suc y" 1 1]
      by (simp add: civil_days_def add.commute)
  next
    case False
    then show ?thesis using assms parse_ymd_text [of y "Suc m" 1] by (simp add: add.commute)
  qed
  moreover have "parse_ymd (ymd_text y m 0) = Some (civil_days (int y) (int m) 0 * ms_per_day)"
    and "parse_ymd (ymd_text y m 1) = Some (civil_days (int y) (int m) 1 * ms_per_day)"
    using assms by (simp_all add: parse_ymd_text)
  moreover have "civil_days (int y) (int m) 0 = civil_days (int y) (int m) 1 - 1"
    using civil_days_day [of "int y" "int m" 0] by simp
  ultimately show ?thesis using p1 nxt by (simp add: algebra_simps)
qed

end
