(* ===== verification/Account_Form.thy ===== *)
theory Account_Form
  imports Store Date_Text
begin

text \<open>
  The account form, \<open>src/core/Accounts/form.jsx\<close>: \<open>mapStateToProps\<close> looks the route's
  account up in \<open>accounts.byId\<close>; \<open>withFormik\<close> builds the initial values from it
  (\<open>mapPropsToValues\<close>), validates them with the Yup schema and hands valid values to
  \<open>handleSubmit\<close>, which unwraps the two autocomplete choices, turns the date text back
  into a timestamp and calls the screen's \<open>handleSave\<close>; the component renders the title,
  the fields' error state and the delete button.
  The autocomplete values are \<open>pick\<close>s: \<open>null\<close>, the empty text \<open>''\<close>, or an object
  \<open>{label, value}\<close>. The opening balance is a number, or the empty text Formik stores when
  the number input is cleared. \<open>formik_submit\<close> is Formik's submit: validate, and only
  when there is no error call \<open>handleSubmit\<close>; a \<open>TypeError\<close> thrown by
  \<open>handleSubmit\<close> (reading \<open>.value\<close> of \<open>null\<close>) is the outcome \<open>Threw\<close>.
  Yup's type-error messages are library defaults and are not modelled (\<open>TypeError\<close>
  field errors carry no text). How Yup casts a string to a number changed between its
  versions and the version is not in the snapshot, so the cast is a parameter of
  \<open>validate\<close>: \<open>yup_number_strict\<close> reads the whole text as a decimal number
  (\<open>+value\<close>), \<open>yup_number_legacy\<close> reads its longest decimal prefix
  (\<open>parseFloat\<close>). The list of currencies (\<open>src/data/currencies\<close>) is not in the
  snapshot: its names are a parameter. The inputs are given no \<open>onBlur\<close>, so Formik's
  \<open>touched\<close> only changes on submit; it is not modelled beyond the render's argument.
\<close>

datatype pick = NullPick | BlankPick | Picked string string

datatype form_field = FName | FInstitution | FOpeningBalance | FOpeningBalanceDate | FCurrency

datatype field_error = Message string | TypeError

record form_values =
  fv_account :: "account option"
  fv_name :: string
  fv_institution :: pick
  fv_opening_balance :: "rat option"
  fv_opening_balance_date :: string
  fv_currency :: pick

record form_props =
  fp_settings :: settings_state
  fp_account :: "account option"

definition form_map_state ::
  "('u, settings_state, accounts_state, 't, 'm) root_state \<Rightarrow> nat option \<Rightarrow> form_props" where
  "form_map_state r route_id =
     \<lparr>fp_settings = settings r,
      fp_account = (case route_id of None \<Rightarrow> None | Some i \<Rightarrow> map_of (by_id (accounts r)) i)\<rparr>"

definition currency_label :: "(string \<Rightarrow> string) \<Rightarrow> string \<Rightarrow> string" where
  "currency_label names c = ''('' @ c @ '') '' @ names c"

definition map_props_to_values :: "(string \<Rightarrow> string) \<Rightarrow> int \<Rightarrow> form_props \<Rightarrow> form_values" where
  "map_props_to_values names now p =
     (case fp_account p of
        None \<Rightarrow>
          \<lparr>fv_account = None, fv_name = [], fv_institution = NullPick, fv_opening_balance = Some 0,
           fv_opening_balance_date = format_ymd now,
           fv_currency = (case settings_currency (fp_settings p) of
                            None \<Rightarrow> BlankPick
                          | Some c \<Rightarrow> Picked (currency_label names c) c)\<rparr>
      | Some a \<Rightarrow>
          \<lparr>fv_account = Some a, fv_name = name a,
           fv_institution = Picked (institution a) (institution a),
           fv_opening_balance = Some (opening_balance a),
           fv_opening_balance_date = format_ymd (opening_balance_date a),
           fv_currency = Picked (currency_label names (acct_currency a)) (acct_currency a)\<rparr>)"

subsection \<open>Validation\<close>

definition decimal_prefix :: "string \<Rightarrow> (rat \<times> string) option" where
  "decimal_prefix s =
     (let neg = (s \<noteq> [] \<and> hd s = CHR ''-'');
          b = (if neg then tl s else s);
          ip = takeWhile is_digit b; r1 = dropWhile is_digit b;
          frac = (r1 \<noteq> [] \<and> hd r1 = CHR ''.'');
          fp = (if frac then takeWhile is_digit (tl r1) else []);
          r2 = (if frac then dropWhile is_digit (tl r1) else r1)
      in if ip @ fp = [] then None
         else Some ((if neg then -1 else 1) *
                    (of_nat (digits_val ip) + of_nat (digits_val fp) / of_nat (10 ^ length fp)), r2))"

definition yup_number_strict :: "string \<Rightarrow> rat option" where
  "yup_number_strict s =
     (case decimal_prefix (filter (\<lambda>c. c \<noteq> CHR '' '') s) of Some (v, []) \<Rightarrow> Some v | _ \<Rightarrow> None)"

definition yup_number_legacy :: "string \<Rightarrow> rat option" where
  "yup_number_legacy s = map_option fst (decimal_prefix (dropWhile (\<lambda>c. c = CHR '' '') s))"

definition pick_error :: "string \<Rightarrow> pick \<Rightarrow> field_error option" where
  "pick_error msg p = (case p of Picked _ _ \<Rightarrow> None | _ \<Rightarrow> Some (Message msg))"

definition validate :: "(string \<Rightarrow> rat option) \<Rightarrow> form_values \<Rightarrow> (form_field \<times> field_error) list" where
  "validate cast v =
     [(f, e). (f, Some e) \<leftarrow>
       [(FName,
           if fv_name v = [] then Some (Message ''Please enter a name for this account'')
           else if 100 < length (fv_name v) then Some (Message ''Too Long!'') else None),
        (FInstitution, pick_error ''Please select an institution'' (fv_institution v)),
        (FOpeningBalance, if fv_opening_balance v = None then Some TypeError else None),
        (FOpeningBalanceDate,
           if cast (fv_opening_balance_date v) = None then Some TypeError else None),
        (FCurrency, pick_error ''Please select the currency of this account'' (fv_currency v))]]"

subsection \<open>Submission\<close>

definition pick_value :: "pick \<Rightarrow> string option option" where
  "pick_value p = (case p of NullPick \<Rightarrow> None | BlankPick \<Rightarrow> Some None | Picked _ v \<Rightarrow> Some (Some v))"

definition handle_submit :: "form_values \<Rightarrow> account_input option" where
  "handle_submit v =
     (case (pick_value (fv_institution v), pick_value (fv_currency v)) of
        (Some inst, Some cur) \<Rightarrow>
          Some \<lparr>in_account = fv_account v, in_name = fv_name v, in_institution = inst,
                in_opening_balance = fv_opening_balance v,
                in_opening_balance_date = parse_ymd (fv_opening_balance_date v),
                in_currency = cur\<rparr>
      | _ \<Rightarrow> None)"

datatype submit_outcome = Invalid "(form_field \<times> field_error) list" | Threw | Submitted account_input

definition formik_submit :: "(string \<Rightarrow> rat option) \<Rightarrow> form_values \<Rightarrow> submit_outcome" where
  "formik_submit cast v =
     (let es = validate cast v
      in if es \<noteq> [] then Invalid es
         else (case handle_submit v of None \<Rightarrow> Threw | Some i \<Rightarrow> Submitted i))"

text \<open>The account the store receives from a submission whose fields are all defined.\<close>

definition submitted_account :: "account_input \<Rightarrow> account option" where
  "submitted_account i =
     (case (in_account i, in_institution i, in_opening_balance i, in_opening_balance_date i, in_currency i) of
        (Some a, Some inst, Some ob, Some obd, Some cur) \<Rightarrow>
          Some (a\<lparr>acct_currency := cur, name := in_name i, institution := inst,
                  opening_balance := ob, opening_balance_date := obd\<rparr>)
      | _ \<Rightarrow> None)"

subsection \<open>Rendering\<close>

record form_view =
  form_title :: string
  error_flags :: "form_field list"
  helper_texts :: "(form_field \<times> field_error) list"
  delete_button :: "bool option"
  submit_busy :: bool

definition form_render ::
  "account option \<Rightarrow> bool \<Rightarrow> bool \<Rightarrow> (form_field \<times> field_error) list \<Rightarrow> form_field list \<Rightarrow> form_view" where
  "form_render acc has_delete submitting errs touched =
     \<lparr>form_title = (if acc = None then ''New account'' else ''Edit account''),
      error_flags = [f \<leftarrow> [FName, FInstitution, FOpeningBalance, FOpeningBalanceDate, FCurrency].
                       f \<in> set (map fst errs) \<and> f \<in> set touched],
      helper_texts = errs,
      delete_button = (if has_delete then Some submitting else None),
      submit_busy = submitting\<rparr>"

text \<open>An account for the witnesses.\<close>

definition demo_form_account :: account where
  "demo_form_account =
     \<lparr>acct_id = 1, acct_currency = ''CAD'', name = ''Chequing'', institution = ''RBC'',
      opening_balance = 100, opening_balance_date = epoch_day 2018 6 25 * ms_per_day, current_balance = 100\<rparr>"

subsection \<open>Lemmas\<close>

lemma pick_error_None [simp]: "pick_error msg p = None \<longleftrightarrow> (\<exists>l v. p = Picked l v)"
  by (cases p) (simp_all add: pick_error_def)

lemma validate_Nil_iff:
  "validate cast v = [] \<longleftrightarrow>
     fv_name v \<noteq> [] \<and> length (fv_name v) \<le> 100 \<and> (\<exists>l i. fv_institution v = Picked l i)
     \<and> fv_opening_balance v \<noteq> None \<and> cast (fv_opening_balance_date v) \<noteq> None
     \<and> (\<exists>l c. fv_currency v = Picked l c)"
  by (auto simp: validate_def pick_error_def split: pick.splits)

lemma handle_submit_Picked:
  "handle_submit (v\<lparr>fv_institution := Picked l i, fv_currency := Picked l' c\<rparr>) =
     Some \<lparr>in_account = fv_account v, in_name = fv_name v, in_institution = Some i,
           in_opening_balance = fv_opening_balance v,
           in_opening_balance_date = parse_ymd (fv_opening_balance_date v), in_currency = Some c\<rparr>"
  by (simp add: handle_submit_def pick_value_def)

lemma not_digit_dash [simp]: "\<not> is_digit (CHR ''-'')"
  by (simp add: is_digit_def)

text \<open>The form's date texts start with the year's digits and a dash.\<close>

lemma decimal_prefix_ymd_text:
  "decimal_prefix (ymd_text y m d) = Some (of_nat y, CHR ''-'' # pad 2 m @ CHR ''-'' # pad 2 d)"
proof -
  have py: "pad 4 y \<noteq> [] \<and> list_all is_digit (pad 4 y) \<and> digits_val (pad 4 y) = y"
    by (rule pad_is_digits)
  then have "hd (pad 4 y) \<noteq> CHR ''-''" by (cases "pad 4 y") auto
  moreover have "takeWhile is_digit (ymd_text y m d) = pad 4 y"
    and "dropWhile is_digit (ymd_text y m d) = CHR ''-'' # pad 2 m @ CHR ''-'' # pad 2 d"
    using py by (simp_all add: ymd_text_def list_all_iff)
  ultimately show ?thesis using py by (simp add: decimal_prefix_def ymd_text_def Let_def digits_val_def)
qed

lemma ymd_text_no_space: "CHR '' '' \<notin> set (ymd_text y m d)"
proof -
  have "list_all is_digit (pad w n)" for w n using pad_is_digits by blast
  moreover have "\<not> is_digit (CHR '' '')" by (simp add: is_digit_def)
  ultimately show ?thesis by (auto simp: ymd_text_def list_all_iff)
qed

lemma legacy_ymd_text: "yup_number_legacy (ymd_text y m d) = Some (of_nat y)"
proof -
  have "pad 4 y \<noteq> []" using pad_is_digits by blast
  then obtain c cs where "ymd_text y m d = c # cs" by (cases "pad 4 y") (auto simp: ymd_text_def)
  moreover have "c \<noteq> CHR '' ''" using ymd_text_no_space [of y m d] calculation by auto
  ultimately have "dropWhile (\<lambda>c. c = CHR '' '') (ymd_text y m d) = ymd_text y m d"
    by simp
  then show ?thesis by (simp add: yup_number_legacy_def decimal_prefix_ymd_text)
qed

lemma strict_ymd_text: "yup_number_strict (ymd_text y m d) = None"
proof -
  have "filter (\<lambda>c. c \<noteq> CHR '' '') (ymd_text y m d) = ymd_text y m d"
    using ymd_text_no_space [of y m d] by (auto simp: filter_id_conv)
  then show ?thesis by (simp add: yup_number_strict_def decimal_prefix_ymd_text)
qed

lemma strict_empty: "yup_number_strict [] = None"
  by (simp add: yup_number_strict_def decimal_prefix_def)

lemma format_ymd_text: "\<exists>y m d. format_ymd t = ymd_text y m d"
  by (cases "ymd_of_days (t div ms_per_day)") (auto simp: format_ymd_def)

subsection \<open>Submitting the form\<close>

text \<open>
  C16: whatever the values and the cast, Formik's submit never reaches the \<open>TypeError\<close>
  of \<open>handleSubmit\<close>: values that pass the schema have both autocomplete choices set.
\<close>

theorem formik_submit_never_throws: "formik_submit cast v \<noteq> Threw"
  by (auto simp: formik_submit_def Let_def validate_Nil_iff handle_submit_def pick_value_def
      split: option.splits)

text \<open>
  Editing an account whose name passes the schema and whose opening balance date is the
  midnight of a day of the years 0000 to 9999, and submitting the form unchanged, hands
  \<open>handleSave\<close> exactly that account back under the legacy number cast.
\<close>

lemma edit_form_submits:
  assumes "fp_account p = Some a" and "name a \<noteq> []" and "length (name a) \<le> 100"
    and "valid_date y m d" and "y < 10000" and "opening_balance_date a = epoch_day y m d * ms_per_day"
  shows "\<exists>inp. formik_submit yup_number_legacy (map_props_to_values names now p) = Submitted inp
    \<and> submitted_account inp = Some a"
proof -
  have date: "format_ymd (opening_balance_date a) = ymd_text y m d"
    and reread: "parse_ymd (ymd_text y m d) = Some (opening_balance_date a)"
    using ymd_text_roundtrip [OF assms(4,5)] assms(6) by simp_all
  let ?v = "map_props_to_values names now p"
  have v: "?v = \<lparr>fv_account = Some a, fv_name = name a,
           fv_institution = Picked (institution a) (institution a),
           fv_opening_balance = Some (opening_balance a), fv_opening_balance_date = ymd_text y m d,
           fv_currency = Picked (currency_label names (acct_currency a)) (acct_currency a)\<rparr>"
    using assms(1) date by (simp add: map_props_to_values_def)
  have "validate yup_number_legacy ?v = []"
    using assms(2,3) by (simp add: v validate_Nil_iff legacy_ymd_text)
  moreover have "handle_submit ?v =
      Some \<lparr>in_account = Some a, in_name = name a, in_institution = Some (institution a),
            in_opening_balance = Some (opening_balance a), in_opening_balance_date = Some (opening_balance_date a),
            in_currency = Some (acct_currency a)\<rparr>"
    by (simp add: v handle_submit_def pick_value_def reread)
  ultimately show ?thesis by (simp add: formik_submit_def submitted_account_def)
qed

text \<open>
  C18: with the strict number cast, a form whose opening balance date holds what a date
  input can hold (the empty text or a \<open>YYYY-MM-DD\<close> date) never submits: the schema's
  \<open>Yup.number()\<close> on the date text always fails, so \<open>handleSave\<close> is never called.
\<close>

theorem strict_cast_blocks_submit:
  assumes "fv_opening_balance_date v = [] \<or> (\<exists>y m d. fv_opening_balance_date v = ymd_text y m d)"
  shows "\<exists>es. formik_submit yup_number_strict v = Invalid es \<and> (FOpeningBalanceDate, TypeError) \<in> set es"
proof -
  have "yup_number_strict (fv_opening_balance_date v) = None"
    using assms strict_empty strict_ymd_text by auto
  then show ?thesis by (simp add: formik_submit_def validate_def)
qed

theorem strict_cast_blocks_submit_witness:
  "(fv_opening_balance_date (map_props_to_values (\<lambda>_. ''Canadian Dollar'') 0
       \<lparr>fp_settings = \<lparr>settings_locale = ''en'', settings_currency = Some ''CAD''\<rparr>, fp_account = None\<rparr>) = []
    \<or> (\<exists>y m d. fv_opening_balance_date (map_props_to_values (\<lambda>_. ''Canadian Dollar'') 0
       \<lparr>fp_settings = \<lparr>settings_locale = ''en'', settings_currency = Some ''CAD''\<rparr>, fp_account = None\<rparr>)
       = ymd_text y m d))
   \<and> (\<exists>es. formik_submit yup_number_strict (map_props_to_values (\<lambda>_. ''Canadian Dollar'') 0
       \<lparr>fp_settings = \<lparr>settings_locale = ''en'', settings_currency = Some ''CAD''\<rparr>, fp_account = None\<rparr>)
       = Invalid es \<and> (FOpeningBalanceDate, TypeError) \<in> set es)"
proof -
  have d: "\<exists>y m d. fv_opening_balance_date (map_props_to_values (\<lambda>_. ''Canadian Dollar'') 0
       \<lparr>fp_settings = \<lparr>settings_locale = ''en'', settings_currency = Some ''CAD''\<rparr>, fp_account = None\<rparr>)
       = ymd_text y m d"
    using format_ymd_text [of 0] by (simp add: map_props_to_values_def)
  show ?thesis using strict_cast_blocks_submit [OF disjI2 [OF d]] d by blast
qed

subsection \<open>Days that do not exist\<close>

text \<open>
  C30: the form does not reject an opening balance date that names a day past the end of
  its month (a date input of a browser without date picker, or typed text, can hold
  \<open>2019-02-29\<close>): under the legacy cast, the only one under which the form submits at all
  (C18), such values pass the schema, and \<open>handleSubmit\<close> hands \<open>onSave\<close> the timestamp of
  the first day of the next month (of January of the next year after December), because
  neither the schema nor \<open>handleSubmit\<close> checks the day and date-fns' \<open>parse\<close> rolls it over.
\<close>

theorem form_accepts_rolled_over_date:
  assumes "1 \<le> m" and "m \<le> 12" and "y < 9999"
    and "fv_opening_balance_date v = ymd_text y m (Suc (month_lengths y ! (m - 1)))"
    and "fv_name v \<noteq> []" and "length (fv_name v) \<le> 100"
    and "fv_institution v = Picked li iv" and "fv_currency v = Picked lc cv"
    and "fv_opening_balance v = Some b"
  shows "\<exists>inp. formik_submit yup_number_legacy v = Submitted inp
    \<and> in_opening_balance_date inp =
        parse_ymd (if m = 12 then ymd_text (Suc y) 1 1 else ymd_text y (Suc m) 1)
    \<and> in_opening_balance_date inp \<noteq> None"
proof -
  have next_some: "parse_ymd (if m = 12 then ymd_text (Suc y) 1 1 else ymd_text y (Suc m) 1) \<noteq> None"
    using assms(2,3) by (simp add: parse_ymd_text)
  have "validate yup_number_legacy v = []"
    using assms(4-9) by (simp add: validate_Nil_iff legacy_ymd_text)
  moreover have "handle_submit v =
      Some \<lparr>in_account = fv_account v, in_name = fv_name v, in_institution = Some iv,
            in_opening_balance = Some b,
            in_opening_balance_date = parse_ymd (ymd_text y m (Suc (month_lengths y ! (m - 1)))),
            in_currency = Some cv\<rparr>"
    using assms(4,7-9) by (simp add: handle_submit_def pick_value_def)
  ultimately show ?thesis
    using parse_ymd_rollover [OF assms(1-3)] next_some by (simp add: formik_submit_def)
qed

theorem form_accepts_rolled_over_date_witness:
  "1 \<le> (2::nat) \<and> (2::nat) \<le> 12 \<and> (2019::nat) < 9999
   \<and> fv_opening_balance_date (\<lparr>fv_account = None, fv_name = ''Chequing'', fv_institution = Picked ''RBC'' ''RBC'',
        fv_opening_balance = Some 100, fv_opening_balance_date = ymd_text 2019 2 29,
        fv_currency = Picked ''(CAD) Canadian Dollar'' ''CAD''\<rparr>) = ymd_text 2019 2 (Suc (month_lengths 2019 ! 1))
   \<and> (\<exists>inp. formik_submit yup_number_legacy
        \<lparr>fv_account = None, fv_name = ''Chequing'', fv_institution = Picked ''RBC'' ''RBC'',
         fv_opening_balance = Some 100, fv_opening_balance_date = ymd_text 2019 2 29,
         fv_currency = Picked ''(CAD) Canadian Dollar'' ''CAD''\<rparr> = Submitted inp
      \<and> in_opening_balance_date inp = parse_ymd (ymd_text 2019 3 1))"
proof -
  have ml: "month_lengths 2019 ! 1 = 28"
    by (simp add: month_lengths_def leap_year_def)
  have "fv_opening_balance_date (\<lparr>fv_account = None, fv_name = ''Chequing'', fv_institution = Picked ''RBC'' ''RBC'',
        fv_opening_balance = Some 100, fv_opening_balance_date = ymd_text 2019 2 29,
        fv_currency = Picked ''(CAD) Canadian Dollar'' ''CAD''\<rparr>) = ymd_text 2019 2 (Suc (month_lengths 2019 ! (2 - 1)))"
    by (simp add: month_lengths_def leap_year_def)
  from form_accepts_rolled_over_date [where m = 2 and y = 2019 and li = "''RBC''" and iv = "''RBC''"
      and lc = "''(CAD) Canadian Dollar''" and cv = "''CAD''" and b = 100, OF _ _ _ this] ml
  show ?thesis by auto
qed

end
