(* ===== verification/Edit_Account.thy ===== *)
theory Edit_Account
  imports Account_Form
begin

text \<open>
  The edit-account screen, \<open>src/core/Accounts/edit.jsx\<close>. It renders the account form
  for the route's account id and handles its three callbacks. \<open>onSave\<close> dispatches
  \<open>updateAccount\<close> with the submitted account and, once that dispatch resolves
  (\<open>await\<close>), navigates to the account's transactions; if it rejects, the navigation
  never happens. \<open>onDelete\<close> asks for confirmation and only when the dialog resolves
  dispatches \<open>deleteAccount\<close> and navigates to the dashboard; a declined dialog does
  nothing. \<open>onCancel\<close> navigates back using the route's id. The outcome of the awaited
  dispatch and of the dialog are inputs of the events. \<open>onSave\<close> receives the object the
  form's \<open>handleSubmit\<close> builds (\<open>account_input\<close>) and navigates with its \<open>id\<close>, the
  one spread from the edited account (\<open>undefined\<close> when the form had none);
  \<open>onDelete\<close> receives the form's \<open>account\<close> prop, which is \<open>undefined\<close> when the
  route's id is not in the store. \<open>edit_render\<close> is \<open>render\<close>: the account form for the
  route's id, always with a delete handler. Over a session the saves still awaited are
  always among the objects dispatched, so every save's navigation follows its own dispatch;
  Delete, disabled by a valid submission, is enabled again only when the form is reset (a
  failed validation, or a store change that changes the initial values under
  \<open>enableReinitialize\<close>).
\<close>

definition edit_handle_save :: "account_input \<Rightarrow> store_action" where
  "edit_handle_save a = UpdateAccount a"

definition edit_handle_delete :: "account option \<Rightarrow> store_action" where
  "edit_handle_delete a = DeleteAccount a"

text \<open>The route \<open>/accounts/${account.id}/transactions\<close> of the saved object.\<close>

definition save_path :: "account_input \<Rightarrow> string" where
  "save_path a = ''/accounts/'' @ id_text (map_option acct_id (in_account a)) @ ''/transactions''"

definition edit_on_save :: "account_input \<Rightarrow> bool \<Rightarrow> effect list" where
  "edit_on_save a resolved =
     Dispatch (edit_handle_save a) # (if resolved then [Navigate (save_path a)] else [])"

definition edit_on_delete :: "account option \<Rightarrow> bool \<Rightarrow> effect list" where
  "edit_on_delete a confirmed =
     (if confirmed then [Dispatch (edit_handle_delete a), Navigate ''/dashboard''] else [])"

definition edit_on_cancel :: "nat \<Rightarrow> effect list" where
  "edit_on_cancel route_id = [Navigate (transactions_path route_id)]"

datatype edit_event = EditSaved account_input bool | EditDeleteClicked "account option" bool | EditCancelled

fun edit_handle :: "nat \<Rightarrow> edit_event \<Rightarrow> effect list" where
  "edit_handle i (EditSaved a resolved) = edit_on_save a resolved"
| "edit_handle i (EditDeleteClicked a confirmed) = edit_on_delete a confirmed"
| "edit_handle i EditCancelled = edit_on_cancel i"

fun edit_run :: "nat \<Rightarrow> edit_event list \<Rightarrow> effect list" where
  "edit_run i [] = []"
| "edit_run i (e # es) = edit_handle i e @ edit_run i es"

definition edit_render ::
  "('u, settings_state, accounts_state, 't, 'm) root_state \<Rightarrow> nat \<Rightarrow> bool \<Rightarrow> (form_field \<times> field_error) list
   \<Rightarrow> form_field list \<Rightarrow> form_view" where
  "edit_render r route_id submitting errs touched =
     form_render (fp_account (form_map_state r (Some route_id))) True submitting errs touched"

text \<open>A store with one account, its form's props, and a submission of it, for the witnesses.\<close>

definition demo_edit_store :: "(unit, settings_state, accounts_state, unit, unit) root_state" where
  "demo_edit_store =
     \<lparr>user = (), settings = \<lparr>settings_locale = ''en'', settings_currency = Some ''CAD''\<rparr>,
      accounts = \<lparr>by_id = [(1, demo_form_account)], by_institution = [(''RBC'', \<lparr>balance = 100, account_ids = [1]\<rparr>)]\<rparr>,
      transactions_slice = (), market_values = ()\<rparr>"

definition demo_names :: "string \<Rightarrow> string" where
  "demo_names c = ''Canadian Dollar''"

definition demo_props :: form_props where
  "demo_props = \<lparr>fp_settings = \<lparr>settings_locale = ''en'', settings_currency = Some ''CAD''\<rparr>,
                 fp_account = Some demo_form_account\<rparr>"

definition demo_values :: form_values where
  "demo_values =
     \<lparr>fv_account = Some demo_form_account, fv_name = ''Chequing'', fv_institution = Picked ''RBC'' ''RBC'',
      fv_opening_balance = Some 100, fv_opening_balance_date = ''2018-06-25'',
      fv_currency = Picked ''(CAD) Canadian Dollar'' ''CAD''\<rparr>"

definition demo_input :: account_input where
  "demo_input =
     \<lparr>in_account = Some demo_form_account, in_name = ''Chequing'', in_institution = Some ''RBC'',
      in_opening_balance = Some 100, in_opening_balance_date = parse_ymd ''2018-06-25'',
      in_currency = Some ''CAD''\<rparr>"

subsection \<open>The screen over time\<close>

text \<open>
  \<open>onSave\<close> is asynchronous: it dispatches \<open>updateAccount\<close> at once and navigates only
  when the awaited dispatch settles, so other events can come in between. The session
  state holds the form's props (\<open>mapStateToProps\<close>: the settings and the route's account),
  Formik's \<open>initialValues\<close> (\<open>mapPropsToValues\<close> of the props), its \<open>isSubmitting\<close>,
  and the saves still awaited. Events:
  \<^item> the form is submitted with some values (the form's \<open>onSubmit\<close>): Formik sets
    \<open>isSubmitting\<close>, validates, and either calls \<open>handleSubmit\<close>, which calls
    \<open>onSave\<close> (and never resets \<open>isSubmitting\<close>), or, on a validation error, sets
    \<open>isSubmitting\<close> back to false; a \<open>TypeError\<close> in \<open>handleSubmit\<close> leaves it set;
  \<^item> the \<open>k\<close>-th awaited save settles, resolved or rejected;
  \<^item> the Delete button is pressed with the dialog's answer (a disabled button does nothing);
    its state is the form's render (\<open>disabled={isSubmitting}\<close>);
  \<^item> the close button is pressed;
  \<^item> the props change (the store's settings or the route's account changed, re-rendered at
    time \<open>now\<close>): with \<open>enableReinitialize: true\<close> (form.jsx line 209) Formik compares the
    new \<open>initialValues\<close> with the previous ones and, when they differ, resets the form,
    which sets \<open>isSubmitting\<close> to false.
  The save button (\<open>SubmitButtonWithProgress\<close>) is not in the snapshot; the form's
  \<open>onSubmit\<close> itself does not look at \<open>isSubmitting\<close>, so a submission is accepted in
  every state.
\<close>

record edit_session =
  es_props :: form_props
  es_initial :: form_values
  es_submitting :: bool
  es_pending :: "account_input list"

definition edit_session_init :: "(string \<Rightarrow> string) \<Rightarrow> int \<Rightarrow> form_props \<Rightarrow> edit_session" where
  "edit_session_init names now p =
     \<lparr>es_props = p, es_initial = map_props_to_values names now p, es_submitting = False, es_pending = []\<rparr>"

datatype edit_async_event =
    FormSubmitted form_values
  | SaveSettled nat bool
  | DeletePressed bool
  | ClosePressed
  | PropsChanged form_props int

definition delete_enabled :: "edit_session \<Rightarrow> bool" where
  "delete_enabled s \<longleftrightarrow>
     delete_button (form_render (fp_account (es_props s)) True (es_submitting s) [] []) = Some False"

fun edit_async_step ::
  "(string \<Rightarrow> rat option) \<Rightarrow> (string \<Rightarrow> string) \<Rightarrow> nat \<Rightarrow> edit_session \<Rightarrow> edit_async_event
   \<Rightarrow> edit_session \<times> effect list" where
  "edit_async_step cast names i s (FormSubmitted v) =
     (case formik_submit cast v of
        Submitted a \<Rightarrow>
          (s\<lparr>es_submitting := True, es_pending := es_pending s @ [a]\<rparr>, [Dispatch (edit_handle_save a)])
      | Invalid es \<Rightarrow> (s\<lparr>es_submitting := False\<rparr>, [])
      | Threw \<Rightarrow> (s\<lparr>es_submitting := True\<rparr>, []))"
| "edit_async_step cast names i s (SaveSettled k ok) =
     (if k < length (es_pending s)
      then (s\<lparr>es_pending := take k (es_pending s) @ drop (Suc k) (es_pending s)\<rparr>,
            if ok then [Navigate (save_path (es_pending s ! k))] else [])
      else (s, []))"
| "edit_async_step cast names i s (DeletePressed confirmed) =
     (if delete_enabled s then (s, edit_on_delete (fp_account (es_props s)) confirmed) else (s, []))"
| "edit_async_step cast names i s ClosePressed = (s, edit_on_cancel i)"
| "edit_async_step cast names i s (PropsChanged p now) =
     (let v = map_props_to_values names now p
      in (if v = es_initial s then s\<lparr>es_props := p\<rparr>
          else s\<lparr>es_props := p, es_initial := v, es_submitting := False\<rparr>, []))"

fun edit_async_run ::
  "(string \<Rightarrow> rat option) \<Rightarrow> (string \<Rightarrow> string) \<Rightarrow> nat \<Rightarrow> edit_session \<Rightarrow> edit_async_event list
   \<Rightarrow> edit_session \<times> effect list" where
  "edit_async_run cast names i s [] = (s, [])"
| "edit_async_run cast names i s (e # es) =
     (let (s', fx) = edit_async_step cast names i s e; (s'', fx') = edit_async_run cast names i s' es
      in (s'', fx @ fx'))"

lemma edit_async_run_append:
  "edit_async_run cast names i s (es1 @ es2) =
     (let (s', fx) = edit_async_run cast names i s es1; (s'', fx') = edit_async_run cast names i s' es2
      in (s'', fx @ fx'))"
  by (induction es1 arbitrary: s) (simp_all add: case_prod_beta)

text \<open>
  While the form is submitting, a step that is neither a submission failing validation nor
  a props change altering the initial values keeps it submitting, keeps the initial values,
  and dispatches no \<open>deleteAccount\<close>.
\<close>

lemma submitting_step:
  assumes "es_submitting s"
    and "\<And>v. e = FormSubmitted v \<Longrightarrow> validate cast v = []"
    and "\<And>p n. e = PropsChanged p n \<Longrightarrow> map_props_to_values names n p = es_initial s"
  shows "es_submitting (fst (edit_async_step cast names i s e))
    \<and> es_initial (fst (edit_async_step cast names i s e)) = es_initial s
    \<and> DeleteAccount x \<notin> set (dispatched (snd (edit_async_step cast names i s e)))"
  using assms
  by (cases e) (auto simp: formik_submit_def delete_enabled_def form_render_def edit_on_cancel_def
      edit_handle_save_def split: option.splits)

lemma submitting_run:
  assumes "es_submitting s"
    and "\<forall>v. FormSubmitted v \<in> set es \<longrightarrow> validate cast v = []"
    and "\<forall>p n. PropsChanged p n \<in> set es \<longrightarrow> map_props_to_values names n p = es_initial s"
  shows "DeleteAccount x \<notin> set (dispatched (snd (edit_async_run cast names i s es)))"
  using assms
proof (induction es arbitrary: s)
  case Nil
  then show ?case by simp
next
  case (Cons e es)
  let ?s' = "fst (edit_async_step cast names i s e)"
  have step: "es_submitting ?s' \<and> es_initial ?s' = es_initial s
      \<and> DeleteAccount x \<notin> set (dispatched (snd (edit_async_step cast names i s e)))"
    using Cons.prems by (intro submitting_step) auto
  then have "DeleteAccount x \<notin> set (dispatched (snd (edit_async_run cast names i ?s' es)))"
    using Cons.prems by (intro Cons.IH) auto
  with step show ?case by (simp add: case_prod_beta)
qed

text \<open>
  C27: once a valid submission has set \<open>isSubmitting\<close>, no \<open>deleteAccount\<close> is
  dispatched, whatever happens (saves resolving or being rejected, further valid
  submissions, presses of Delete and Close, store changes that leave the form's initial
  values as they are), until the form is reset: only a failed validation or a change of the
  stored account or settings that changes the initial values (\<open>enableReinitialize\<close>)
  enables Delete again, and after such a change a confirmed Delete dispatches
  \<open>deleteAccount\<close> with the new account prop. So after a rejected \<open>updateAccount\<close>, which
  leaves the store as it was, Delete stays disabled.
\<close>

theorem edit_no_delete_until_reinitialized:
  assumes "es_submitting s"
    and "\<forall>v. FormSubmitted v \<in> set es \<longrightarrow> validate cast v = []"
    and "\<forall>p n. PropsChanged p n \<in> set es \<longrightarrow> map_props_to_values names n p = es_initial s"
  shows "DeleteAccount x \<notin> set (dispatched (snd (edit_async_run cast names i s es)))
    \<and> (map_props_to_values names n p' \<noteq> es_initial s \<longrightarrow>
        snd (edit_async_run cast names i s [PropsChanged p' n, DeletePressed True]) =
          [Dispatch (DeleteAccount (fp_account p')), Navigate ''/dashboard''])"
  using submitting_run [OF assms, of x i]
  by (simp add: Let_def delete_enabled_def form_render_def edit_on_delete_def edit_handle_delete_def)

lemma demo_submit: "formik_submit yup_number_legacy demo_values = Submitted demo_input"
  by (simp add: formik_submit_def validate_def demo_values_def yup_number_legacy_def decimal_prefix_def
      handle_submit_def pick_value_def demo_input_def pick_error_def is_digit_def digits_val_def)

theorem edit_no_delete_until_reinitialized_witness:
  "es_submitting (fst (edit_async_run yup_number_legacy demo_names 1 (edit_session_init demo_names 0 demo_props)
       [FormSubmitted demo_values]))
   \<and> DeleteAccount (Some demo_form_account) \<notin> set (dispatched (snd (edit_async_run yup_number_legacy demo_names 1
       (fst (edit_async_run yup_number_legacy demo_names 1 (edit_session_init demo_names 0 demo_props)
          [FormSubmitted demo_values]))
       [SaveSettled 0 False, DeletePressed True])))
   \<and> map_props_to_values demo_names 0 (demo_props\<lparr>fp_account := Some (demo_form_account\<lparr>name := ''Savings''\<rparr>)\<rparr>)
       \<noteq> es_initial (fst (edit_async_run yup_number_legacy demo_names 1 (edit_session_init demo_names 0 demo_props)
            [FormSubmitted demo_values]))
   \<and> snd (edit_async_run yup_number_legacy demo_names 1
       (fst (edit_async_run yup_number_legacy demo_names 1 (edit_session_init demo_names 0 demo_props)
          [FormSubmitted demo_values]))
       [PropsChanged (demo_props\<lparr>fp_account := Some (demo_form_account\<lparr>name := ''Savings''\<rparr>)\<rparr>) 0, DeletePressed True])
     = [Dispatch (DeleteAccount (Some (demo_form_account\<lparr>name := ''Savings''\<rparr>))), Navigate ''/dashboard'']"
proof -
  let ?s = "fst (edit_async_run yup_number_legacy demo_names 1 (edit_session_init demo_names 0 demo_props)
       [FormSubmitted demo_values])"
  let ?p = "demo_props\<lparr>fp_account := Some (demo_form_account\<lparr>name := ''Savings''\<rparr>)\<rparr>"
  have sub: "es_submitting ?s" and ini: "es_initial ?s = map_props_to_values demo_names 0 demo_props"
    by (simp_all add: demo_submit edit_session_init_def)
  have "map_props_to_values demo_names 0 ?p \<noteq> map_props_to_values demo_names 0 demo_props"
    by (simp add: map_props_to_values_def demo_props_def demo_form_account_def)
  then have ne: "map_props_to_values demo_names 0 ?p \<noteq> es_initial ?s"
    unfolding ini .
  have h2: "\<forall>v. FormSubmitted v \<in> set [SaveSettled 0 False, DeletePressed True] \<longrightarrow> validate yup_number_legacy v = []"
    and h3: "\<forall>p n. PropsChanged p n \<in> set [SaveSettled 0 False, DeletePressed True] \<longrightarrow>
               map_props_to_values demo_names n p = es_initial ?s"
    by simp_all
  from edit_no_delete_until_reinitialized [OF sub h2 h3, where x = "Some demo_form_account" and n = 0
      and p' = "demo_props\<lparr>fp_account := Some (demo_form_account\<lparr>name := ''Savings''\<rparr>)\<rparr>" and i = 1] sub ne
  show ?thesis by simp
qed

lemma pending_dispatched:
  "set (es_pending (fst (edit_async_run cast names i (edit_session_init names now p) es)))
     \<subseteq> {a. UpdateAccount a \<in> set (dispatched (snd (edit_async_run cast names i (edit_session_init names now p) es)))}"
proof (induction es rule: rev_induct)
  case Nil
  then show ?case by (simp add: edit_session_init_def)
next
  case (snoc e es)
  from snoc show ?case
    by (cases e) (auto simp: edit_async_run_append case_prod_beta edit_handle_save_def Let_def
        edit_on_delete_def edit_on_cancel_def split: submit_outcome.splits
        dest: in_set_takeD in_set_dropD)
qed

text \<open>
  C31: the saves settle in any order and between any other events, yet every navigation
  an event makes (Close apart, which goes back by the route's id) is either the delete's
  navigation to the dashboard or the navigation of a settled save to the path of an object
  that an earlier \<open>updateAccount\<close> of the session dispatched: no save navigates before its
  own dispatch.
\<close>

theorem edit_navigation_after_dispatch:
  assumes "Navigate q \<in> set (snd (edit_async_step cast names i
             (fst (edit_async_run cast names i (edit_session_init names now p) es)) e))"
    and "e \<noteq> ClosePressed"
  shows "q = ''/dashboard''
    \<or> (\<exists>a. q = save_path a
          \<and> UpdateAccount a \<in> set (dispatched (snd (edit_async_run cast names i (edit_session_init names now p) es))))"
proof (cases e)
  case (SaveSettled k ok)
  let ?s = "fst (edit_async_run cast names i (edit_session_init names now p) es)"
  from assms(1) SaveSettled have k: "k < length (es_pending ?s)" and q: "q = save_path (es_pending ?s ! k)"
    by (auto split: if_splits)
  then have "es_pending ?s ! k \<in> set (es_pending ?s)" by simp
  with pending_dispatched [of cast names i now p es] q show ?thesis by blast
qed (use assms in \<open>auto simp: edit_on_delete_def Let_def split: if_splits submit_outcome.splits\<close>)

theorem edit_navigation_after_dispatch_witness:
  "Navigate (save_path demo_input) \<in>
     set (snd (edit_async_step yup_number_legacy demo_names 1
       (fst (edit_async_run yup_number_legacy demo_names 1 (edit_session_init demo_names 0 demo_props)
          [FormSubmitted demo_values]))
       (SaveSettled 0 True)))
   \<and> SaveSettled 0 True \<noteq> ClosePressed
   \<and> UpdateAccount demo_input \<in> set (dispatched (snd (edit_async_run yup_number_legacy demo_names 1
       (edit_session_init demo_names 0 demo_props) [FormSubmitted demo_values])))"
proof -
  have h: "Navigate (save_path demo_input) \<in>
     set (snd (edit_async_step yup_number_legacy demo_names 1
       (fst (edit_async_run yup_number_legacy demo_names 1 (edit_session_init demo_names 0 demo_props)
          [FormSubmitted demo_values]))
       (SaveSettled 0 True)))"
    by (simp add: demo_submit edit_session_init_def)
  from edit_navigation_after_dispatch [OF h] h show ?thesis
    by (simp add: demo_submit edit_session_init_def edit_handle_save_def)
qed

subsection \<open>The screen's effects\<close>

text \<open>
  C19: over any sequence of events, the edit screen dispatches \<open>deleteAccount\<close> for an
  account exactly when a delete of it was confirmed, and every confirmed delete is followed
  at once by the navigation to the dashboard; a declined dialog has no effect at all.
\<close>

theorem edit_delete_only_confirmed:
  "(DeleteAccount x \<in> set (dispatched (edit_run i es)) \<longleftrightarrow> EditDeleteClicked x True \<in> set es)
   \<and> edit_handle i (EditDeleteClicked x True) = [Dispatch (DeleteAccount x), Navigate ''/dashboard'']
   \<and> edit_handle i (EditDeleteClicked x False) = []"
proof -
  have one: "DeleteAccount x \<in> set (dispatched (edit_handle i e)) \<longleftrightarrow> e = EditDeleteClicked x True" for e
    by (cases e) (auto simp: edit_on_save_def edit_on_delete_def edit_on_cancel_def
        edit_handle_save_def edit_handle_delete_def)
  have "DeleteAccount x \<in> set (dispatched (edit_run i es)) \<longleftrightarrow> EditDeleteClicked x True \<in> set es"
    by (induction es) (auto simp: one)
  then show ?thesis by (simp add: edit_on_delete_def edit_handle_delete_def)
qed

text \<open>
  C20: on the edit route of an id that is not in the store, the screen renders the form of
  a new account (title ``New account'') and still offers ``Delete this account''; confirming
  that delete dispatches \<open>deleteAccount(undefined)\<close> and goes to the dashboard.
\<close>

theorem edit_unknown_account:
  assumes "map_of (by_id (accounts r)) i = None"
  shows "form_title (edit_render r i submitting errs touched) = ''New account''
    \<and> delete_button (edit_render r i submitting errs touched) = Some submitting
    \<and> edit_on_delete (fp_account (form_map_state r (Some i))) True =
        [Dispatch (DeleteAccount None), Navigate ''/dashboard'']"
  using assms
  by (simp add: edit_render_def form_render_def form_map_state_def edit_on_delete_def edit_handle_delete_def)

theorem edit_unknown_account_witness:
  "map_of (by_id (accounts demo_edit_store)) 7 = None
   \<and> form_title (edit_render demo_edit_store 7 False [] []) = ''New account''"
  using edit_unknown_account [of demo_edit_store 7 False "[]" "[]"]
  by (simp add: demo_edit_store_def)

end
