(* ===== verification/Dashboard.thy ===== *)
theory Dashboard
  imports Store "HOL-Library.Multiset"
begin

text \<open>
  The dashboard, \<open>src/core/Dashboard/index.jsx\<close>. \<open>dashboard_map_state\<close> is
  \<open>mapStateToProps\<close>: it passes the settings and accounts slices of the root state and sums
  the balances of \<open>accounts.byInstitution\<close> into \<open>totalBalance\<close> with \<open>reduce\<close>
  (\<open>total_balance\<close>); \<open>dashboard_render\<close> is the component: the total, a note when
  \<open>accounts.byId\<close> has no key, the settings' currency as the header of the balance column,
  and a table with, for each institution in key order, a row with its balance followed by one
  row per account id of the institution: the account's name, \<open>formatDate(Date.now())\<close> in
  the ``Last updated'' column, and its current balance. Looking an id up in \<open>byId\<close> that is
  not there makes the render throw; the table is then \<open>None\<close>. The currency and date
  formatters (not in the snapshot) are not modelled: the rows hold the raw values.
  \<open>groups_consistent\<close> is what the accounts reducer (not in the snapshot) is expected to
  keep: every account in exactly one institution group, every group's balance the sum of
  its accounts' current balances. Under it the dashboard's total refines the abstract total of
  all accounts, and the table lists every account exactly once.
\<close>

definition total_balance :: "accounts_state \<Rightarrow> rat" where
  "total_balance st = foldl (\<lambda>b g. b + balance g) 0 (map snd (by_institution st))"

record dashboard_props =
  dp_settings :: settings_state
  dp_accounts :: accounts_state
  dp_total :: rat

definition dashboard_map_state :: "('u, settings_state, accounts_state, 't, 'm) root_state \<Rightarrow> dashboard_props" where
  "dashboard_map_state r =
     \<lparr>dp_settings = settings r, dp_accounts = accounts r, dp_total = total_balance (accounts r)\<rparr>"

datatype dash_row = InstitutionRow string rat | AccountRow string int rat

fun account_rows :: "(nat \<times> account) list \<Rightarrow> int \<Rightarrow> nat list \<Rightarrow> dash_row list option" where
  "account_rows byid now [] = Some []"
| "account_rows byid now (i # is) =
     (case map_of byid i of
        None \<Rightarrow> None
      | Some a \<Rightarrow> map_option (Cons (AccountRow (name a) now (current_balance a))) (account_rows byid now is))"

fun institution_rows ::
  "(nat \<times> account) list \<Rightarrow> int \<Rightarrow> (string \<times> institution_group) list \<Rightarrow> dash_row list option" where
  "institution_rows byid now [] = Some []"
| "institution_rows byid now ((inst, g) # gs) =
     (case (account_rows byid now (account_ids g), institution_rows byid now gs) of
        (Some rs, Some rest) \<Rightarrow> Some (InstitutionRow inst (balance g) # rs @ rest)
      | _ \<Rightarrow> None)"

record dashboard_view =
  shown_total :: rat
  no_accounts_note :: bool
  currency_column :: "string option"
  table_rows :: "dash_row list option"

definition dashboard_render :: "int \<Rightarrow> dashboard_props \<Rightarrow> dashboard_view" where
  "dashboard_render now p =
     \<lparr>shown_total = dp_total p,
      no_accounts_note = (by_id (dp_accounts p) = []),
      currency_column = settings_currency (dp_settings p),
      table_rows = institution_rows (by_id (dp_accounts p)) now (by_institution (dp_accounts p))\<rparr>"

text \<open>The connected component: \<open>connect(mapStateToProps)(DashboardComponent)\<close>.\<close>

definition dashboard :: "int \<Rightarrow> ('u, settings_state, accounts_state, 't, 'm) root_state \<Rightarrow> dashboard_view" where
  "dashboard now r = dashboard_render now (dashboard_map_state r)"

definition groups_consistent :: "accounts_state \<Rightarrow> bool" where
  "groups_consistent st \<longleftrightarrow>
     distinct (map fst (by_id st))
     \<and> mset (concat (map (account_ids \<circ> snd) (by_institution st))) = mset (map fst (by_id st))
     \<and> list_all (\<lambda>(inst, g). balance g =
          sum_list (map (\<lambda>i. current_balance (the (map_of (by_id st) i))) (account_ids g)))
        (by_institution st)"

definition demo_accounts :: accounts_state where
  "demo_accounts =
     \<lparr>by_id = [(1, \<lparr>acct_id = 1, acct_currency = ''CAD'', name = ''Chequing'', institution = ''RBC'',
                    opening_balance = 0, opening_balance_date = 0, current_balance = 10\<rparr>),
               (2, \<lparr>acct_id = 2, acct_currency = ''CAD'', name = ''Visa'', institution = ''RBC'',
                    opening_balance = 0, opening_balance_date = 0, current_balance = 20\<rparr>)],
      by_institution = [(''RBC'', \<lparr>balance = 30, account_ids = [1, 2]\<rparr>)]\<rparr>"

definition demo_store :: "(unit, settings_state, accounts_state, unit, unit) root_state" where
  "demo_store =
     \<lparr>user = (), settings = \<lparr>settings_locale = ''en'', settings_currency = Some ''CAD''\<rparr>,
      accounts = demo_accounts, transactions_slice = (), market_values = ()\<rparr>"

text \<open>The same store with an institution that lists an id missing from \<open>byId\<close>.\<close>

definition demo_broken_store :: "(unit, settings_state, accounts_state, unit, unit) root_state" where
  "demo_broken_store =
     demo_store\<lparr>accounts := demo_accounts\<lparr>by_institution := [(''RBC'', \<lparr>balance = 30, account_ids = [1, 2, 3]\<rparr>)]\<rparr>\<rparr>"

subsection \<open>Lemmas\<close>

lemma total_balance_sum: "total_balance st = sum_list (map (balance \<circ> snd) (by_institution st))"
proof -
  have fold: "foldl (\<lambda>b g. b + balance g) c gs = c + sum_list (map balance gs)"
    for c and gs :: "institution_group list"
    by (induction gs arbitrary: c) (simp_all add: add.assoc)
  show ?thesis
    by (simp only: total_balance_def fold) (simp add: comp_def)
qed

lemma map_by_keys:
  assumes "distinct (map fst xs)"
  shows "map (\<lambda>i. f (the (map_of xs i))) (map fst xs) = map (f \<circ> snd) xs"
proof -
  have "map ((\<lambda>i. f (the (map_of xs i))) \<circ> fst) xs = map (f \<circ> snd) xs"
  proof (rule map_cong [OF refl])
    fix x assume "x \<in> set xs"
    with assms have "map_of xs (fst x) = Some (snd x)"
      by (cases x) simp
    then show "((\<lambda>i. f (the (map_of xs i))) \<circ> fst) x = (f \<circ> snd) x"
      by simp
  qed
  then show ?thesis by (simp only: map_map)
qed

lemma sum_list_perm:
  fixes f :: "'a \<Rightarrow> 'b::comm_monoid_add"
  shows "mset xs = mset ys \<Longrightarrow> sum_list (map f xs) = sum_list (map f ys)"
proof -
  assume "mset xs = mset ys"
  then have "mset (map f xs) = mset (map f ys)" by simp
  then show ?thesis by (metis sum_mset_sum_list)
qed

definition account_row :: "(nat \<times> account) list \<Rightarrow> int \<Rightarrow> nat \<Rightarrow> dash_row" where
  "account_row byid now i = AccountRow (name (the (map_of byid i))) now (current_balance (the (map_of byid i)))"

lemma account_rows_Some:
  "set is \<subseteq> fst ` set byid \<Longrightarrow> account_rows byid now is = Some (map (account_row byid now) is)"
  by (induction "is") (auto simp: account_row_def map_of_eq_None_iff split: option.split)

lemma institution_rows_Some:
  "list_all (\<lambda>(inst, g). set (account_ids g) \<subseteq> fst ` set byid) gs \<Longrightarrow>
   institution_rows byid now gs =
     Some (concat (map (\<lambda>(inst, g). InstitutionRow inst (balance g) # map (account_row byid now) (account_ids g)) gs))"
  by (induction gs) (auto simp: account_rows_Some)

lemma account_rows_None:
  "i \<in> set is \<Longrightarrow> map_of byid i = None \<Longrightarrow> account_rows byid now is = None"
  by (induction "is") (auto split: option.split)

lemma institution_rows_None:
  "(inst, g) \<in> set gs \<Longrightarrow> account_rows byid now (account_ids g) = None \<Longrightarrow> institution_rows byid now gs = None"
  by (induction gs) (auto split: option.split)

definition row_accounts :: "dash_row list \<Rightarrow> (string \<times> int \<times> rat) list" where
  "row_accounts rs = [(n, t, b). AccountRow n t b \<leftarrow> rs]"

lemma row_accounts_simps [simp]:
  "row_accounts [] = []" "row_accounts (InstitutionRow i b # rs) = row_accounts rs"
  "row_accounts (AccountRow n t b # rs) = (n, t, b) # row_accounts rs"
  "row_accounts (rs @ qs) = row_accounts rs @ row_accounts qs"
  by (simp_all add: row_accounts_def)

lemma row_accounts_institution_rows:
  "row_accounts (concat (map (\<lambda>(inst, g). InstitutionRow inst (balance g) # map (account_row byid now) (account_ids g)) gs))
   = map (\<lambda>i. (name (the (map_of byid i)), now, current_balance (the (map_of byid i))))
       (concat (map (account_ids \<circ> snd) gs))"
proof (induction gs)
  case Nil
  then show ?case by simp
next
  case (Cons g gs)
  have "row_accounts (map (account_row byid now) is) =
      map (\<lambda>i. (name (the (map_of byid i)), now, current_balance (the (map_of byid i)))) is" for "is"
    by (induction "is") (simp_all add: account_row_def)
  with Cons show ?case by (cases g) simp
qed

lemma consistent_ids_present:
  assumes "groups_consistent st"
  shows "list_all (\<lambda>(inst, g). set (account_ids g) \<subseteq> fst ` set (by_id st)) (by_institution st)"
proof -
  have ids: "set (concat (map (account_ids \<circ> snd) (by_institution st))) = fst ` set (by_id st)"
    using assms unfolding groups_consistent_def by (metis set_map set_mset_mset)
  have "set (account_ids g) \<subseteq> fst ` set (by_id st)" if "(inst, g) \<in> set (by_institution st)" for inst g
  proof -
    have "set (account_ids g) \<subseteq> set (concat (map (account_ids \<circ> snd) (by_institution st)))"
      using that by force
    with ids show ?thesis by simp
  qed
  then show ?thesis by (simp add: list_all_iff split_beta) (metis prod.collapse)
qed

subsection \<open>The dashboard's total and table\<close>

text \<open>
  C13: when the store keeps its institution groups consistent with its accounts, the
  dashboard's total balance is the sum of the current balances of all accounts.
\<close>

theorem dashboard_total_is_sum:
  assumes "groups_consistent (accounts r)"
  shows "shown_total (dashboard now r) = sum_list (map (current_balance \<circ> snd) (by_id (accounts r)))"
proof -
  define st where "st = accounts r"
  have assms: "groups_consistent st" using assms by (simp add: st_def)
  let ?cb = "\<lambda>i. current_balance (the (map_of (by_id st) i))"
  have ids: "mset (concat (map (account_ids \<circ> snd) (by_institution st))) = mset (map fst (by_id st))"
    and keys: "distinct (map fst (by_id st))"
    and groups: "list_all (\<lambda>(inst, g). balance g = sum_list (map ?cb (account_ids g))) (by_institution st)"
    using assms by (simp_all add: groups_consistent_def)
  have eq1: "map (balance \<circ> snd) (by_institution st) =
      map (\<lambda>g. sum_list (map ?cb (account_ids (snd g)))) (by_institution st)"
    using groups by (auto simp: list_all_iff)
  have eq2: "sum_list (map (\<lambda>g. sum_list (map ?cb (account_ids (snd g)))) gs) =
      sum_list (map ?cb (concat (map (account_ids \<circ> snd) gs)))" for gs :: "(string \<times> institution_group) list"
    by (induction gs) simp_all
  have "total_balance st = sum_list (map ?cb (concat (map (account_ids \<circ> snd) (by_institution st))))"
    by (simp only: total_balance_sum eq1 eq2)
  also have "\<dots> = sum_list (map ?cb (map fst (by_id st)))"
    using ids by (rule sum_list_perm)
  also have "\<dots> = sum_list (map (current_balance \<circ> snd) (by_id st))"
    using keys by (rule map_by_keys [THEN arg_cong [where f = sum_list]])
  finally show ?thesis by (simp add: dashboard_def dashboard_map_state_def dashboard_render_def st_def)
qed

lemma demo_accounts_consistent: "groups_consistent demo_accounts"
  by (simp add: groups_consistent_def demo_accounts_def)

theorem dashboard_total_is_sum_witness:
  "groups_consistent (accounts demo_store) \<and> shown_total (dashboard 0 demo_store) = 30"
  using dashboard_total_is_sum [of demo_store 0] demo_accounts_consistent
  by (simp add: demo_store_def demo_accounts_def)

text \<open>
  C14: under the same consistency the table renders, and its account rows are exactly the
  store's accounts, each once (as a multiset of name and balance), every one showing the
  render time in its ``Last updated'' column.
\<close>

theorem dashboard_table_accounts:
  assumes "groups_consistent (accounts r)"
  shows "\<exists>rs. table_rows (dashboard now r) = Some rs
    \<and> mset (map (\<lambda>(n, t, b). (n, b)) (row_accounts rs)) =
        mset (map (\<lambda>(i, a). (name a, current_balance a)) (by_id (accounts r)))
    \<and> list_all (\<lambda>(n, t, b). t = now) (row_accounts rs)"
proof -
  define st where "st = accounts r"
  have assms: "groups_consistent st" using assms by (simp add: st_def)
  let ?ids = "concat (map (account_ids \<circ> snd) (by_institution st))"
  let ?rs = "concat (map (\<lambda>(inst, g). InstitutionRow inst (balance g) # map (account_row (by_id st) now) (account_ids g))
               (by_institution st))"
  have rows: "table_rows (dashboard now r) = Some ?rs"
    using institution_rows_Some [OF consistent_ids_present [OF assms]]
    by (simp add: dashboard_def dashboard_map_state_def dashboard_render_def st_def)
  have "map (\<lambda>(n, t, b). (n, b)) (row_accounts ?rs) =
      map (\<lambda>i. (name (the (map_of (by_id st) i)), current_balance (the (map_of (by_id st) i)))) ?ids"
    by (simp add: row_accounts_institution_rows comp_def)
  also have "mset \<dots> = mset (map (\<lambda>i. (name (the (map_of (by_id st) i)), current_balance (the (map_of (by_id st) i))))
      (map fst (by_id st)))"
    using assms unfolding groups_consistent_def by (metis mset_map)
  also have "\<dots> = mset (map (\<lambda>(i, a). (name a, current_balance a)) (by_id st))"
  proof -
    have "map (\<lambda>i. (name (the (map_of (by_id st) i)), current_balance (the (map_of (by_id st) i))))
        (map fst (by_id st)) = map ((\<lambda>a. (name a, current_balance a)) \<circ> snd) (by_id st)"
      using assms map_by_keys [of "by_id st" "\<lambda>a. (name a, current_balance a)"]
      by (simp add: groups_consistent_def)
    also have "\<dots> = map (\<lambda>(i, a). (name a, current_balance a)) (by_id st)"
      by (simp add: comp_def split_beta)
    finally show ?thesis by (rule arg_cong)
  qed
  finally have names: "mset (map (\<lambda>(n, t, b). (n, b)) (row_accounts ?rs)) =
      mset (map (\<lambda>(i, a). (name a, current_balance a)) (by_id st))" .
  have "list_all (\<lambda>(n, t, b). t = now) (row_accounts ?rs)"
    by (simp add: row_accounts_institution_rows list_all_iff)
  with rows names show ?thesis by (simp only: st_def) blast
qed

theorem dashboard_table_accounts_witness:
  "groups_consistent (accounts demo_store)
   \<and> table_rows (dashboard 5 demo_store) =
       Some [InstitutionRow ''RBC'' 30, AccountRow ''Chequing'' 5 10, AccountRow ''Visa'' 5 20]"
  using dashboard_table_accounts [of demo_store 5] demo_accounts_consistent
  by (simp add: dashboard_def dashboard_map_state_def dashboard_render_def demo_store_def demo_accounts_def)

subsection \<open>A store the render cannot show\<close>

text \<open>
  C23: if an institution group lists an account id that \<open>accounts.byId\<close> does not hold,
  rendering the dashboard throws (\<open>account.name\<close> of \<open>undefined\<close>): no table at all is
  shown, whatever the other groups hold.
\<close>

theorem dashboard_missing_account_throws:
  assumes "(inst, g) \<in> set (by_institution (accounts r))" and "i \<in> set (account_ids g)"
    and "map_of (by_id (accounts r)) i = None"
  shows "table_rows (dashboard now r) = None"
  using institution_rows_None [OF assms(1) account_rows_None [OF assms(2,3)]]
  by (simp add: dashboard_def dashboard_map_state_def dashboard_render_def)

theorem dashboard_missing_account_throws_witness:
  "(''RBC'', \<lparr>balance = 30, account_ids = [1, 2, 3]\<rparr>) \<in> set (by_institution (accounts demo_broken_store))
   \<and> (3::nat) \<in> set (account_ids \<lparr>balance = 30, account_ids = [1, 2, 3]\<rparr>)
   \<and> map_of (by_id (accounts demo_broken_store)) 3 = None
   \<and> table_rows (dashboard 0 demo_broken_store) = None"
proof -
  have h: "(''RBC'', \<lparr>balance = 30, account_ids = [1, 2, 3]\<rparr>) \<in> set (by_institution (accounts demo_broken_store))"
    "(3::nat) \<in> set (account_ids \<lparr>balance = 30, account_ids = [1, 2, 3]\<rparr>)"
    "map_of (by_id (accounts demo_broken_store)) 3 = None"
    by (simp_all add: demo_broken_store_def demo_store_def demo_accounts_def)
  from dashboard_missing_account_throws [OF h, of 0] h show ?thesis by simp
qed

end
