(* ===== verification/Spec2Isabelle.thy ===== *)
theory Spec2Isabelle
  imports Rbc_Parser_Test Import_Screen Edit_Account Dashboard
begin

text \<open>
  \<^bold>\<open>entaxy: CSV import, accounts and dashboard.\<close>
  A shallow embedding of the snapshot's screens (\<open>src/core\<close>), its root reducer, the RBC
  parser test and, from the specification, the CSV parsing core the screens call.

  \<^bold>\<open>Parts and how they interact.\<close>
  The import screen (\<open>src/core/Accounts/ImportTransactions/index.jsx\<close>) hands a chosen file
  to the parser facade, keeps the parse result in its state, and on Save dispatches
  \<open>addTransactions\<close> and navigates. The parser (its sources are not in the snapshot; modelled
  from spec sections 4.1 to 4.5 and from \<open>RbcCsvParser.test.js\<close>) tokenizes the text,
  validates the header and maps each data row through the institution's field mapper.
  The edit screen (\<open>src/core/Accounts/edit.jsx\<close>) renders the account form
  (\<open>src/core/Accounts/form.jsx\<close>), whose submission it dispatches as \<open>updateAccount\<close>;
  its delete dispatches \<open>deleteAccount\<close> after a confirmation. The dashboard
  (\<open>src/core/Dashboard/index.jsx\<close>) reads the accounts slice of the store that
  \<open>src/store/rootReducer.js\<close> combines. Screens never change the store themselves: their
  effects (\<open>Dispatch\<close>, \<open>Navigate\<close>) are values, listed in the order the handlers run them.

  \<^bold>\<open>Theories.\<close>
  \<^item> \<open>Prelude\<close>: characters, \<open>join\<close> (\<open>Array.join\<close>), \<open>split_on\<close>, decimal digits
    and \<open>show_nat\<close>, with their roundtrip lemmas.
  \<^item> \<open>Csv_Tokenizer\<close>: the Row Tokenizer as a character state machine (\<open>lex_step\<close>,
    \<open>lex_run\<close>, \<open>tokenize\<close>) with its invariant, the writer \<open>print_csv\<close>, and the
    roundtrip \<open>tokenize (print_csv t) = Inr t\<close>, the equivalence with line and comma
    splitting on quote-free text, and that a final newline adds no row.
  \<^item> \<open>Parser_Contract\<close>, \<open>Row_Processor\<close>, \<open>Csv_Parser\<close>: drafts, transactions, the format
    contract \<open>{expectedHeader, mapRow}\<close>, the row processor against its reference
    description (\<open>successes\<close>, \<open>failures\<close>), and the facade \<open>parse\<close> by cases.
  \<^item> \<open>Calendar\<close>, \<open>Rbc_Format\<close>: the day count of proleptic Gregorian dates and its
    inverse, and the RBC field mapper with the characterisation of the rows it accepts;
    \<open>Rbc_Parser_Test\<close>: the test's fixture, its two test cases as a check that the model
    passes the repository's test, and the parser's properties on every file built as the
    test builds it, including the boundary files (empty, header only, ending in a newline).
  \<^item> \<open>Store\<close>: accounts, settings, actions, effects, routes and \<open>combineReducers\<close>.
  \<^item> \<open>Import_Screen\<close>: the import screen's state, handlers, render, the connected
    screen, the controls each rendered state offers, its reachable states with their
    invariant, and its two-phase specification (choosing a file, reviewing a result) with
    the refinement mapping \<open>phase_of\<close> under which every run of the screen is a run of it.
  \<^item> \<open>Date_Text\<close>, \<open>Account_Form\<close>, \<open>Edit_Account\<close>: date-fns \<open>format\<close> and
    \<open>parse\<close> as the form calls them (with date-fns' padding loop as a
    \<open>partial_function\<close> proved to end), the form (\<open>mapStateToProps\<close>,
    \<open>mapPropsToValues\<close>, Yup schema, \<open>handleSubmit\<close>, Formik's submit, render) and the
    edit screen, both event by event and over time: submissions through Formik's submit,
    \<open>onSave\<close> split at its \<open>await\<close>, saves settling in any order between other events,
    store changes that reinitialise the form (\<open>enableReinitialize\<close>), and the Delete
    button disabled while the form submits; every save's navigation follows its own
    \<open>updateAccount\<close> dispatch.
  \<^item> \<open>Dashboard\<close>: \<open>mapStateToProps\<close>, the render, and the consistency of institution
    groups under which its figures are right.
  This theory holds the properties that span the screens and the parser or the form.

  \<^bold>\<open>Choices.\<close>
  Amounts are exact rationals (JavaScript's floating point is not modelled). Timestamps are
  integers of milliseconds read in UTC: the browser's time zone is taken to be UTC.
  The id generator is a counter passed in. Every loop is structural recursion over its input
  (characters, rows, events, institution groups) or, for the calendar's walk over years, a
  function whose termination is proved by the measure of the remaining days; no fuel is used.
  The one loop written as a \<open>while\<close> (date-fns' \<open>addLeadingZeros\<close>) is a
  \<open>partial_function (option)\<close>, and that it returns on every input is a theorem.
  The parser's header mismatch reports the header message once per file row, the count the
  test asserts. Yup's string-to-number cast is a parameter of the form's validation, given in
  two readings (strict and legacy), because the Yup version is not in the snapshot. Formik's
  version is not in the snapshot either; what the edit session uses of it (submit sets
  \<open>isSubmitting\<close> and clears it on a validation error, \<open>enableReinitialize\<close> resets the
  form, clearing \<open>isSubmitting\<close>, when the initial values change) is common to its 1.x and
  2.x releases. Formik's \<open>touched\<close> bookkeeping is not modelled: the form wires no
  \<open>onBlur\<close>, so fields become touched only on submit.

  \<^bold>\<open>What the development shows of the code.\<close>
  Beyond the parser's contract and the screens' effects, the model exhibits: the dashboard
  throws when an institution lists an unknown account id and shows the render time as
  ``Last updated''; the edit route of an unknown id offers a delete of \<open>undefined\<close>; a
  non-CSV import type leaves the import screen without any control; and under Yup's strict
  number cast the account form can never be submitted, because the opening balance date is
  validated as a number while it is held as \<open>YYYY-MM-DD\<close> text; under the legacy cast
  the form accepts a day past the month's end and saves the first of the next month; and
  after a valid submission whose \<open>updateAccount\<close> is rejected the Delete button stays
  disabled until the stored account or settings change the form's initial values.

  \<^bold>\<open>Not modelled.\<close>
  Styles, propTypes and layout; the CSV import form and the results review (not in the
  snapshot: the import is modelled as the parse result the form delivers); the reducers of
  the slices, the action creators, the currency list, \<open>sortedInstitutionsForAutoselect\<close>,
  \<open>InstitutionIcon\<close> and the currency and date formatters (not in the snapshot); reading the
  file blob (asynchronous I/O); time zones other than UTC.
\<close>

subsection \<open>The import screen driving the parser\<close>

text \<open>
  C11: in every state the screen reaches with a parser that stamps drafts with the account
  (the RBC parser does), Save dispatches one \<open>addTransactions\<close> for the screen's account
  whose transactions all belong to that account and have distinct ids, then navigates.
\<close>

theorem import_save_safe:
  assumes "import_reach p a st" and "stamps_account p"
  shows "\<exists>ts. handle_save a st = [Dispatch (AddTransactions a ts), Navigate (transactions_path (acct_id a))]
    \<and> (\<forall>t\<in>set ts. account_id t = acct_id a) \<and> distinct (map txn_id ts)"
  using import_reach_inv [OF assms]
  by (simp add: import_inv_def handle_save_def save_transactions_def)

subsection \<open>The edit screen driving the account form\<close>

text \<open>
  C17: on the edit route of an account in the store whose name passes the schema and whose
  opening balance date is the midnight of a day of the years 0000 to 9999, submitting the
  form unchanged (legacy number cast) hands \<open>onSave\<close> an object that is exactly the
  stored account once its fields are read back (the date survives \<open>format\<close> and
  \<open>parse\<close>, the choices are unwrapped), and \<open>onSave\<close> dispatches \<open>updateAccount\<close> with
  it and, once that resolves, navigates to that account's transactions.
\<close>

theorem edit_save_unchanged:
  assumes "map_of (by_id (accounts r)) i = Some a" and "name a \<noteq> []" and "length (name a) \<le> 100"
    and "valid_date y m d" and "y < 10000" and "opening_balance_date a = epoch_day y m d * ms_per_day"
  shows "\<exists>inp. formik_submit yup_number_legacy (map_props_to_values names now (form_map_state r (Some i)))
      = Submitted inp
    \<and> submitted_account inp = Some a
    \<and> edit_handle i (EditSaved inp True) = [Dispatch (UpdateAccount inp), Navigate (transactions_path (acct_id a))]"
proof -
  have "fp_account (form_map_state r (Some i)) = Some a"
    using assms(1) by (simp add: form_map_state_def)
  from edit_form_submits [OF this assms(2-6), of names now] obtain inp where
    inp: "formik_submit yup_number_legacy (map_props_to_values names now (form_map_state r (Some i))) = Submitted inp"
      and acc: "submitted_account inp = Some a"
    by blast
  from acc have "map_option acct_id (in_account inp) = Some (acct_id a)"
    by (auto simp: submitted_account_def split: option.splits)
  then have "id_text (map_option acct_id (in_account inp)) = show_nat (acct_id a)"
    by (simp only: id_text_def option.case)
  with inp acc show ?thesis
    by (simp add: edit_on_save_def edit_handle_save_def transactions_path_def save_path_def)
qed

theorem edit_save_unchanged_witness:
  "map_of (by_id (accounts demo_edit_store)) 1 = Some demo_form_account
   \<and> name demo_form_account \<noteq> [] \<and> length (name demo_form_account) \<le> 100
   \<and> valid_date 2018 6 25 \<and> (2018::nat) < 10000
   \<and> opening_balance_date demo_form_account = epoch_day 2018 6 25 * ms_per_day
   \<and> (\<exists>inp. formik_submit yup_number_legacy
         (map_props_to_values (\<lambda>_. ''Canadian Dollar'') 0 (form_map_state demo_edit_store (Some 1)))
         = Submitted inp
       \<and> submitted_account inp = Some demo_form_account)"
proof -
  have v: "valid_date 2018 6 25" by (simp add: valid_date_def month_lengths_def leap_year_def)
  show ?thesis
    using edit_save_unchanged [of demo_edit_store 1 demo_form_account 2018 6 25 "\<lambda>_. ''Canadian Dollar''" 0] v
    by (auto simp: demo_form_account_def demo_edit_store_def)
qed

theorem import_save_safe_witness:
  "import_reach rbc_format demo_account
     (fst (import_step demo_account import_initial
        (csv_form_submit rbc_format (csv_file_text rbc_csv_data) demo_account 0)))
   \<and> stamps_account rbc_format
   \<and> handle_save demo_account
       (fst (import_step demo_account import_initial
          (csv_form_submit rbc_format (csv_file_text rbc_csv_data) demo_account 0))) \<noteq> []"
proof -
  have reach: "import_reach rbc_format demo_account
     (fst (import_step demo_account import_initial
        (csv_form_submit rbc_format (csv_file_text rbc_csv_data) demo_account 0)))"
    by (rule import_reach.parsed [OF import_reach.start])
  from import_save_safe [OF reach rbc_stamps_account] reach rbc_stamps_account
  show ?thesis by auto
qed

text \<open>
  C12: in every reachable state the screen never shows the CSV form and the results panel
  together, and a results panel with base errors lists no transaction (the whole file is
  rejected, with nothing offered for partial review).
\<close>

theorem import_view_consistent:
  assumes "import_reach p a st" and "stamps_account p"
  shows "\<not> (form_shown (import_render a ps st) \<and> results_shown (import_render a ps st) \<noteq> None)
    \<and> (\<forall>ts es. results_shown (import_render a ps st) = Some (ts, Some es) \<longrightarrow> base es \<noteq> [] \<longrightarrow> ts = [])"
  using import_reach_inv [OF assms] by (auto simp: import_render_def import_inv_def)

theorem import_view_consistent_witness:
  "import_reach rbc_format demo_account
     (fst (import_step demo_account import_initial
        (csv_form_submit rbc_format (csv_file_text (''something else'' # tl rbc_csv_data)) demo_account 0)))
   \<and> stamps_account rbc_format
   \<and> results_shown (import_render demo_account \<lparr>route_account_id = 1, import_type = ''CSV''\<rparr>
       (fst (import_step demo_account import_initial
          (csv_form_submit rbc_format (csv_file_text (''something else'' # tl rbc_csv_data)) demo_account 0))))
     \<noteq> None"
proof -
  have reach: "import_reach rbc_format demo_account
     (fst (import_step demo_account import_initial
        (csv_form_submit rbc_format (csv_file_text (''something else'' # tl rbc_csv_data)) demo_account 0)))"
    by (rule import_reach.parsed [OF import_reach.start])
  from import_view_consistent [OF reach rbc_stamps_account, of "\<lparr>route_account_id = 1, import_type = ''CSV''\<rparr>"]
    reach rbc_stamps_account
  show ?thesis by (simp add: import_render_def handle_parsed_data_def csv_form_submit_def Let_def)
qed

end
